(* ===== verification/Go_Prelude.thy ===== *)
theory Go_Prelude
  imports Main "HOL-Library.Sublist"
begin

text \<open>
  The part of the Go language and its standard library that every component uses.
  A Go string is a sequence of bytes, so it is a \<^typ>\<open>string\<close> (a list of the 256
  characters). \<open>time.Duration\<close> and \<open>int\<close> are \<^typ>\<open>int\<close>; \<open>int64_wrap\<close> writes out the
  64-bit two's complement wrap-around where a sum can overflow. A Go map is a map
  \<open>'k \<rightharpoonup> 'v\<close>. The functions of package \<open>strings\<close> and \<open>strconv\<close> that the sources call
  are defined here, with the round-trip and membership lemmas the components share.
\<close>

named_theorems go_defs \<open>definitions unfolded by the component proofs\<close>

type_synonym duration = int
type_synonym bytes = string

subsection \<open>Durations and machine integers\<close>

definition millisecond :: duration where "millisecond = 1000000"
definition second :: duration where "second = 1000 * millisecond"
definition minute :: duration where "minute = 60 * second"

definition int64_wrap :: "int \<Rightarrow> int" where
  "int64_wrap i = (i + 2 ^ 63) mod 2 ^ 64 - 2 ^ 63"

lemma int64_wrap_id [simp]:
  "- (2 ^ 63) \<le> i \<Longrightarrow> i < 2 ^ 63 \<Longrightarrow> int64_wrap i = i"
  by (simp add: int64_wrap_def)

lemma int64_wrap_range: "- (2 ^ 63) \<le> int64_wrap i \<and> int64_wrap i < 2 ^ 63"
proof -
  have "0 \<le> (i + 2 ^ 63) mod 2 ^ 64" "(i + 2 ^ 63) mod 2 ^ 64 < 2 ^ 64"
    by simp_all
  then show ?thesis by (simp add: int64_wrap_def)
qed

text \<open>Go integer division truncates towards zero.\<close>

definition go_div :: "int \<Rightarrow> int \<Rightarrow> int" where
  "go_div a b = sgn a * sgn b * (\<bar>a\<bar> div \<bar>b\<bar>)"

lemma go_div_nonneg [simp]: "0 \<le> a \<Longrightarrow> 0 < b \<Longrightarrow> go_div a b = a div b"
  by (cases "a = 0") (simp_all add: go_div_def)

subsection \<open>strings.Split, strings.Join, strings.Cut\<close>

lemma if_Nil_simps:
  "(if b then [x] else []) = [] \<longleftrightarrow> \<not> b" "(if b then [] else [x]) = [] \<longleftrightarrow> b"
  "(if b then [x] else if d then [y] else []) = [] \<longleftrightarrow> \<not> b \<and> \<not> d"
  by simp_all

fun split_on :: "char \<Rightarrow> string \<Rightarrow> string list" where
  "split_on c [] = [[]]"
| "split_on c (x # xs) =
     (if x = c then [] # split_on c xs
      else (case split_on c xs of [] \<Rightarrow> [[x]] | w # ws \<Rightarrow> (x # w) # ws))"

fun join_with :: "string \<Rightarrow> string list \<Rightarrow> string" where
  "join_with sep [] = []"
| "join_with sep [w] = w"
| "join_with sep (w # v # ws) = w @ sep @ join_with sep (v # ws)"

lemma split_on_ne [simp]: "split_on c s \<noteq> []"
  by (induction s) (auto split: list.splits)

lemma split_on_no_sep [simp]: "w \<in> set (split_on c s) \<Longrightarrow> c \<notin> set w"
  by (induction s arbitrary: w) (auto split: list.splits if_splits)

lemma join_split [simp]: "join_with [c] (split_on c s) = s"
proof (induction s)
  case Nil
  then show ?case by simp
next
  case (Cons x s)
  then show ?case
    by (cases "split_on c s"; cases "tl (split_on c s)") (auto split: list.splits)
qed

lemma split_on_plain [simp]: "c \<notin> set s \<Longrightarrow> split_on c s = [s]"
  by (induction s) auto

lemma split_on_append_sep:
  "c \<notin> set w \<Longrightarrow> split_on c (w @ c # s) = w # split_on c s"
  by (induction w) auto

lemma split_join [simp]:
  "ws \<noteq> [] \<Longrightarrow> \<forall>w \<in> set ws. c \<notin> set w \<Longrightarrow> split_on c (join_with [c] ws) = ws"
  by (induction "[c]" ws rule: join_with.induct) (simp_all add: split_on_append_sep)

definition cut :: "char \<Rightarrow> string \<Rightarrow> string \<times> string \<times> bool" where
  "cut c s = (if c \<in> set s then (takeWhile (\<lambda>x. x \<noteq> c) s, tl (dropWhile (\<lambda>x. x \<noteq> c) s), True)
              else (s, [], False))"

lemma cut_append [simp]: "c \<notin> set a \<Longrightarrow> cut c (a @ c # b) = (a, b, True)"
proof -
  assume "c \<notin> set a"
  then have "\<And>x. x \<in> set a \<Longrightarrow> x \<noteq> c" by auto
  then show ?thesis by (simp add: cut_def takeWhile_append2 dropWhile_append2)
qed

lemma cut_none [simp]: "c \<notin> set s \<Longrightarrow> cut c s = (s, [], False)"
  by (simp add: cut_def)

subsection \<open>strings.HasPrefix, CutPrefix, Contains, Index, ReplaceAll\<close>

definition cut_prefix :: "string \<Rightarrow> string \<Rightarrow> string option" where
  "cut_prefix s p = (if prefix p s then Some (drop (length p) s) else None)"

lemma cut_prefix_append [simp]: "cut_prefix (p @ s) p = Some s"
  by (simp add: cut_prefix_def)

definition contains :: "string \<Rightarrow> string \<Rightarrow> bool" where
  "contains s sub = sublist sub s"

lemma contains_char [simp]: "contains s [c] \<longleftrightarrow> c \<in> set s"
proof -
  have "sublist [c] s \<longleftrightarrow> c \<in> set s"
    by (metis append_Cons append_Nil in_set_conv_decomp sublist_def)
  then show ?thesis by (simp add: contains_def)
qed

fun str_index :: "string \<Rightarrow> string \<Rightarrow> nat option" where
  "str_index [] sub = (if sub = [] then Some 0 else None)"
| "str_index (x # xs) sub =
     (if prefix sub (x # xs) then Some 0 else map_option Suc (str_index xs sub))"

lemma str_index_bound: "str_index s sub = Some k \<Longrightarrow> k + length sub \<le> length s"
proof (induction s arbitrary: k)
  case Nil
  then show ?case by (simp split: if_splits)
next
  case (Cons x s)
  show ?case
  proof (cases "prefix sub (x # s)")
    case True
    then have "length sub \<le> length (x # s)" by (rule prefix_length_le)
    with True Cons.prems show ?thesis by simp
  next
    case False
    with Cons.prems obtain j where "str_index s sub = Some j" "k = Suc j"
      by (auto split: option.splits)
    with Cons.IH show ?thesis by fastforce
  qed
qed

text \<open>
  \<open>strings.ReplaceAll(s, old, new)\<close> for a non-empty \<open>old\<close>: leftmost, non-overlapping.
\<close>

function replace_all :: "string \<Rightarrow> string \<Rightarrow> string \<Rightarrow> string" where
  "replace_all s old new =
     (if s = [] \<or> old = [] then s
      else if prefix old s then new @ replace_all (drop (length old) s) old new
      else hd s # replace_all (tl s) old new)"
  by pat_completeness auto
termination
  by (relation "measure (\<lambda>(s, old, new). length s)") auto

declare replace_all.simps [simp del]

lemma replace_all_Nil [simp]: "replace_all [] old new = []"
  by (simp add: replace_all.simps)

lemma replace_all_Cons:
  "old \<noteq> [] \<Longrightarrow> replace_all (x # s) old new =
     (if prefix old (x # s) then new @ replace_all (drop (length old) (x # s)) old new
      else x # replace_all s old new)"
  by (subst replace_all.simps) simp

lemma replace_all_char: "replace_all s [c] new = concat (map (\<lambda>x. if x = c then new else [x]) s)"
  by (induction s) (auto simp: replace_all_Cons)

lemma replace_all_absent: "\<not> contains s old \<Longrightarrow> old \<noteq> [] \<Longrightarrow> replace_all s old new = s"
proof (induction s)
  case Nil
  then show ?case by simp
next
  case (Cons x s)
  then show ?case
    by (auto simp: contains_def replace_all_Cons sublist_Cons_right)
qed

subsection \<open>strings.TrimSpace\<close>

text \<open>
  \<open>unicode.IsSpace\<close> in UTF-8: the six ASCII spaces, U+0085, U+00A0, U+1680,
  U+2000 to U+200A, U+2028, U+2029, U+202F, U+205F and U+3000. A valid encoding at
  either end of the byte string is what \<open>utf8.DecodeRune\<close> and \<open>DecodeLastRune\<close> find.
\<close>

definition space_seqs :: "string list" where
  "space_seqs =
     [[CHR 0x09], [CHR 0x0A], [CHR 0x0B], [CHR 0x0C], [CHR 0x0D], [CHR 0x20],
      [CHR 0xC2, CHR 0x85], [CHR 0xC2, CHR 0xA0], [CHR 0xE1, CHR 0x9A, CHR 0x80]]
     @ map (\<lambda>b. [CHR 0xE2, CHR 0x80, b])
         [CHR 0x80, CHR 0x81, CHR 0x82, CHR 0x83, CHR 0x84, CHR 0x85, CHR 0x86, CHR 0x87,
          CHR 0x88, CHR 0x89, CHR 0x8A, CHR 0xA8, CHR 0xA9, CHR 0xAF]
     @ [[CHR 0xE2, CHR 0x81, CHR 0x9F], [CHR 0xE3, CHR 0x80, CHR 0x80]]"

text \<open>Strip any of the given sequences from the front, as long as one is there.\<close>

function strip_seqs :: "string list \<Rightarrow> string \<Rightarrow> string" where
  "strip_seqs ps s =
     (case find (\<lambda>p. p \<noteq> [] \<and> prefix p s) ps of
        None \<Rightarrow> s
      | Some p \<Rightarrow> strip_seqs ps (drop (length p) s))"
  by pat_completeness auto
termination
proof (relation "measure (\<lambda>(ps, s). length s)")
  fix ps s p
  assume "find (\<lambda>p. p \<noteq> [] \<and> prefix p s) ps = Some p"
  then have "p \<noteq> [] \<and> prefix p s" by (auto simp: find_Some_iff)
  then have "0 < length p" "length p \<le> length s" by (auto dest: prefix_length_le)
  then have "length s - length p < length s" by linarith
  then show "((ps, drop (length p) s), (ps, s)) \<in> measure (\<lambda>(ps, s). length s)"
    by simp
qed simp

declare strip_seqs.simps [simp del]

lemma strip_seqs_suffix: "suffix (strip_seqs ps s) s"
proof (induction ps s rule: strip_seqs.induct)
  case (1 ps s)
  then show ?case
    by (subst strip_seqs.simps)
      (auto split: option.split intro: suffix_order.trans suffix_drop)
qed

lemma strip_seqs_no_lead:
  "p \<in> set ps \<Longrightarrow> p \<noteq> [] \<Longrightarrow> \<not> prefix p (strip_seqs ps s)"
proof (induction ps s rule: strip_seqs.induct)
  case (1 ps s)
  show ?case
  proof (cases "find (\<lambda>p. p \<noteq> [] \<and> prefix p s) ps")
    case None
    then have "strip_seqs ps s = s" by (simp add: strip_seqs.simps [of ps s])
    with None "1.prems" show ?thesis by (auto simp: find_None_iff)
  next
    case (Some q)
    with 1 show ?thesis by (simp add: strip_seqs.simps [of ps s])
  qed
qed

lemma strip_seqs_id:
  "(\<And>p. p \<in> set ps \<Longrightarrow> p \<noteq> [] \<Longrightarrow> \<not> prefix p s) \<Longrightarrow> strip_seqs ps s = s"
proof -
  assume "\<And>p. p \<in> set ps \<Longrightarrow> p \<noteq> [] \<Longrightarrow> \<not> prefix p s"
  then have "find (\<lambda>p. p \<noteq> [] \<and> prefix p s) ps = None"
    by (auto simp: find_None_iff)
  then show ?thesis by (simp add: strip_seqs.simps [of ps s])
qed

definition trim_left :: "string \<Rightarrow> string" where
  "trim_left s = strip_seqs space_seqs s"

definition trim_right :: "string \<Rightarrow> string" where
  "trim_right s = rev (strip_seqs (map rev space_seqs) (rev s))"

definition trim_space :: "string \<Rightarrow> string" where
  "trim_space s = trim_right (trim_left s)"

lemma trim_right_prefix: "prefix (trim_right s) s"
  using strip_seqs_suffix [of "map rev space_seqs" "rev s"]
  by (simp add: trim_right_def suffix_to_prefix)

lemma trim_left_idem: "prefix t (trim_left s) \<Longrightarrow> trim_left t = t"
  unfolding trim_left_def
  by (rule strip_seqs_id) (meson prefix_order.trans strip_seqs_no_lead)

lemma trim_right_idem [simp]: "trim_right (trim_right s) = trim_right s"
proof -
  have "strip_seqs (map rev space_seqs) (strip_seqs (map rev space_seqs) (rev s))
      = strip_seqs (map rev space_seqs) (rev s)"
    by (rule strip_seqs_id) (rule strip_seqs_no_lead)
  then show ?thesis by (simp add: trim_right_def)
qed

lemma trim_space_idem [simp]: "trim_space (trim_space s) = trim_space s"
  by (simp add: trim_space_def trim_left_idem [OF trim_right_prefix])

lemma trim_space_Nil [simp]: "trim_space [] = []"
  using trim_right_prefix [of "trim_left []"] strip_seqs_suffix [of space_seqs "[]"]
  by (simp add: trim_space_def trim_left_def)

lemma trim_space_fixed: "trim_space s = s \<Longrightarrow> trim_right s = s"
proof -
  assume a: "trim_space s = s"
  have "suffix (trim_left s) s" by (simp add: trim_left_def strip_seqs_suffix)
  moreover have "length s \<le> length (trim_left s)"
    using trim_right_prefix [of "trim_left s"] a prefix_length_le by (fastforce simp: trim_space_def)
  ultimately have "trim_left s = s" by (metis suffix_length_le le_antisym suffix_def append_self_conv2 append_eq_append_conv)
  with a show ?thesis by (simp add: trim_space_def)
qed

lemma trim_space_subset: "set (trim_space s) \<subseteq> set s"
  using trim_right_prefix [of "trim_left s"] strip_seqs_suffix [of space_seqs s]
  by (auto simp: trim_space_def trim_left_def dest: set_mono_prefix set_mono_suffix)

lemma strip_seqs_keeps: "c \<in> set s \<Longrightarrow> \<forall>p \<in> set ps. c \<notin> set p \<Longrightarrow> c \<in> set (strip_seqs ps s)"
proof (induction ps s rule: strip_seqs.induct)
  case (1 ps s)
  show ?case
  proof (cases "find (\<lambda>p. p \<noteq> [] \<and> prefix p s) ps")
    case None
    with 1 show ?thesis by (simp add: strip_seqs.simps [of ps s])
  next
    case (Some p)
    then have "p \<in> set ps" "prefix p s" by (auto simp: find_Some_iff)
    with 1(2,3) have "c \<in> set (drop (length p) s)" by (auto simp: prefix_def)
    with 1 Some show ?thesis by (simp add: strip_seqs.simps [of ps s])
  qed
qed

lemma trim_space_keeps: "c \<in> set s \<Longrightarrow> \<forall>p \<in> set space_seqs. c \<notin> set p \<Longrightarrow> c \<in> set (trim_space s)"
  unfolding trim_space_def trim_right_def trim_left_def
  by (simp add: strip_seqs_keeps)

lemma trim_space_extend:
  assumes "trim_space s = s" and "s \<noteq> []" and "\<forall>p \<in> set space_seqs. a \<notin> set p \<and> c \<notin> set p"
  shows "trim_space (a # xs @ c # s) = a # xs @ c # s"
proof -
  have "trim_left (a # xs @ c # s) = a # xs @ c # s"
    unfolding trim_left_def using assms(3) by (intro strip_seqs_id) (auto simp: prefix_def Cons_eq_append_conv)
  moreover have "strip_seqs (map rev space_seqs) (rev (a # xs @ c # s)) = rev (a # xs @ c # s)"
  proof (intro strip_seqs_id notI)
    fix p assume p: "p \<in> set (map rev space_seqs)" "p \<noteq> []" "prefix p (rev (a # xs @ c # s))"
    then have "prefix p (rev s @ c # rev xs @ [a])" by simp
    moreover have "\<not> prefix p (rev s)"
      using trim_space_fixed [OF assms(1)] strip_seqs_no_lead [OF p(1, 2), of "rev s"]
      by (metis rev_swap trim_right_def)
    ultimately have "c \<in> set p" by (auto simp: prefix_append prefix_Cons)
    with p(1) assms(3) show False by auto
  qed
  ultimately show ?thesis by (simp add: trim_space_def trim_right_def)
qed

subsection \<open>Byte classes, strings.ToLower, strings.ToUpper\<close>

definition byte_between :: "char \<Rightarrow> char \<Rightarrow> char \<Rightarrow> bool" where
  "byte_between lo hi c \<longleftrightarrow> (of_char lo :: nat) \<le> of_char c \<and> (of_char c :: nat) \<le> of_char hi"

definition high_byte :: "char \<Rightarrow> bool" where
  "high_byte c \<longleftrightarrow> 128 \<le> (of_char c :: nat)"

text \<open>
  \<open>strings.ToLower\<close> and \<open>strings.ToUpper\<close>: exact on ASCII, where all bytes are below 128; \<open>uni\<close> is the Unicode
  mapping applied otherwise.
\<close>

definition ascii_lower :: "char \<Rightarrow> char" where
  "ascii_lower c = (if byte_between CHR ''A'' CHR ''Z'' c then char_of ((of_char c :: nat) + 32) else c)"

definition to_lower :: "(string \<Rightarrow> string) \<Rightarrow> string \<Rightarrow> string" where
  "to_lower uni s = (if \<exists>c \<in> set s. high_byte c then uni s else map ascii_lower s)"

definition ascii_upper :: "char \<Rightarrow> char" where
  "ascii_upper c = (if byte_between CHR ''a'' CHR ''z'' c then char_of ((of_char c :: nat) - 32) else c)"

definition to_upper :: "(string \<Rightarrow> string) \<Rightarrow> string \<Rightarrow> string" where
  "to_upper uni s = (if \<exists>c \<in> set s. high_byte c then uni s else map ascii_upper s)"

lemma lower_code: "(of_char (ascii_lower c) :: nat) = (if byte_between CHR ''A'' CHR ''Z'' c then of_char c + 32 else of_char c)"
  by (auto simp: ascii_lower_def byte_between_def of_char_of take_bit_nat_eq_self)

lemma lower_letter: "byte_between CHR ''A'' CHR ''Z'' c \<Longrightarrow> byte_between CHR ''a'' CHR ''z'' (ascii_lower c)"
  by (auto simp: byte_between_def lower_code)

lemma lower_other: "\<not> byte_between CHR ''A'' CHR ''Z'' c \<Longrightarrow> ascii_lower c = c"
  by (simp add: ascii_lower_def)

lemma upper_lower: "ascii_upper (ascii_lower c) = ascii_upper c"
proof (cases "byte_between CHR ''A'' CHR ''Z'' c")
  case True
  then have "\<not> byte_between CHR ''a'' CHR ''z'' c" by (auto simp: byte_between_def)
  with True lower_letter [OF True] show ?thesis by (simp add: ascii_upper_def lower_code)
qed (simp add: lower_other)

lemma lower_lower: "ascii_lower (ascii_lower c) = ascii_lower c"
proof (cases "byte_between CHR ''A'' CHR ''Z'' c")
  case True
  then have "\<not> byte_between CHR ''A'' CHR ''Z'' (ascii_lower c)" by (auto simp: byte_between_def lower_code)
  then show ?thesis by (rule lower_other)
qed (simp add: lower_other)

lemma lower_fixed: "\<not> byte_between CHR ''a'' CHR ''z'' x \<Longrightarrow> \<not> byte_between CHR ''A'' CHR ''Z'' x \<Longrightarrow> ascii_lower c = x \<longleftrightarrow> c = x"
  using lower_letter [of c] by (cases "byte_between CHR ''A'' CHR ''Z'' c") (auto simp: lower_other)

lemma lower_hyphen: "ascii_lower c = CHR ''-'' \<longleftrightarrow> c = CHR ''-''"
  by (rule lower_fixed) (simp_all add: byte_between_def)

lemma lower_high: "high_byte (ascii_lower c) \<longleftrightarrow> high_byte c"
  by (auto simp: high_byte_def lower_code byte_between_def)

lemma to_lower_idem: "\<not> (\<exists>c \<in> set s. high_byte c) \<Longrightarrow> to_lower uni (to_lower uni' s) = to_lower uni' s"
  by (simp add: to_lower_def lower_high lower_lower)

subsection \<open>strconv.Quote\<close>

text \<open>
  The \<open>%q\<close> form of a string: exact for ASCII bytes; bytes from 0x80 on are copied, as they are for
  printable text in UTF-8.
\<close>

definition quote_byte :: "char \<Rightarrow> string" where
  "quote_byte c =
     (let n = of_char c :: nat in
      if c = CHR 0x22 \<or> c = CHR 0x5C then [CHR 0x5C, c]
      else if n = 7 then [CHR 0x5C, CHR ''a''] else if n = 8 then [CHR 0x5C, CHR ''b''] else if n = 9 then [CHR 0x5C, CHR ''t'']
      else if n = 10 then [CHR 0x5C, CHR ''n''] else if n = 11 then [CHR 0x5C, CHR ''v''] else if n = 12 then [CHR 0x5C, CHR ''f'']
      else if n = 13 then [CHR 0x5C, CHR ''r'']
      else if n < 32 \<or> n = 127 then [CHR 0x5C, CHR ''x'', ''0123456789abcdef'' ! (n div 16), ''0123456789abcdef'' ! (n mod 16)]
      else [c])"

definition quote_text :: "string \<Rightarrow> string" where
  "quote_text s = CHR 0x22 # concat (map quote_byte s) @ [CHR 0x22]"

end
