(* ===== verification/Go_Errors.thy ===== *)
theory Go_Errors
  imports Go_Prelude
begin

text \<open>
  Go error values as the code observes them. An error is a node with the facets that
  some type assertion or method call reads (its identity as a package-level sentinel,
  its text, a \<open>Code\<close> method, a \<open>net.Error\<close> timeout, the numbers of the MySQL, PostgreSQL
  and JetStream error types, the marker of a Redis server reply, the code of a smithy API
  error and the marker of a smithy operation error, the operation of a \<open>net.OpError\<close>, the
  name of a \<open>syscall.Errno\<close>, the not-found flag of a \<open>net.DNSError\<close>, the marker of the two
  TLS error types, the fields of an \<open>errs.Error\<close>) and the errors its
  \<open>Unwrap\<close> returns. \<open>errors.Is\<close> and \<open>errors.As\<close> walk the tree depth first, node before
  children, as the standard library does. A nil error is \<^term>\<open>None\<close>.
\<close>

subsection \<open>Dynamic values\<close>

text \<open>A value of type \<open>any\<close>; an opaque one carries its \<open>%v\<close> rendering.\<close>

datatype anyval = VStr string | VInt int | VBool bool | VOther string

fun digit_char :: "nat \<Rightarrow> char" where
  "digit_char d = char_of (48 + d)"

fun utoa :: "nat \<Rightarrow> string" where
  "utoa n = (if n < 10 then [digit_char n] else utoa (n div 10) @ [digit_char (n mod 10)])"

declare utoa.simps [simp del]

definition itoa :: "int \<Rightarrow> string" where
  "itoa i = (if i < 0 then CHR ''-'' # utoa (nat (- i)) else utoa (nat i))"

fun sprint_v :: "anyval \<Rightarrow> string" where
  "sprint_v (VStr s) = s"
| "sprint_v (VInt i) = itoa i"
| "sprint_v (VBool b) = (if b then ''true'' else ''false'')"
| "sprint_v (VOther s) = s"

subsection \<open>Error values\<close>

record app_error =
  addr :: nat
  message :: string
  meta :: "(string \<rightharpoonup> anyval) option"
  stack :: "nat list"

record facets =
  sentinel :: "string option"
  err_text :: string
  err_code :: "int option"
  net_timeout :: "bool option"
  mysql_number :: "nat option"
  pg_code :: "string option"
  api_code :: "nat option"
  redis_reply :: bool
  smithy_code :: "string option"
  smithy_op :: bool
  net_op :: "string option"
  errno :: "string option"
  dns_notfound :: "bool option"
  tls_failure :: bool
  app :: "app_error option"

datatype gerr = GErr (facets_of: facets) (unwrap: "gerr list")

type_synonym error = "gerr option"

abbreviation nil :: error where "nil \<equiv> None"

definition plain :: "string \<Rightarrow> facets" where
  "plain s = \<lparr>sentinel = None, err_text = s, err_code = None, net_timeout = None,
     mysql_number = None, pg_code = None, api_code = None, redis_reply = False, smithy_code = None, smithy_op = False,
     net_op = None, errno = None, dns_notfound = None, tls_failure = False, app = None\<rparr>"

text \<open>\<open>err.Error()\<close>.\<close>

definition error_string :: "gerr \<Rightarrow> string" where
  "error_string e = err_text (facets_of e)"

text \<open>
  \<open>sentinel_error name text\<close> is a package-level \<open>errors.New(text)\<close>, whose identity is its
  variable; \<open>errors_New\<close> is an anonymous one; \<open>errorf text ws\<close> is \<open>fmt.Errorf\<close> with the
  formatted text and the operands of its \<open>%w\<close> verbs.
\<close>

definition sentinel_error :: "string \<Rightarrow> string \<Rightarrow> gerr" where
  "sentinel_error name txt = GErr ((plain txt)\<lparr>sentinel := Some name\<rparr>) []"

definition errors_New :: "string \<Rightarrow> gerr" where
  "errors_New txt = GErr (plain txt) []"

definition errorf :: "string \<Rightarrow> gerr list \<Rightarrow> gerr" where
  "errorf txt ws = GErr (plain txt) ws"

text \<open>\<open>errors.Join\<close> of the non-nil errors collected in a slice.\<close>

definition errors_Join :: "gerr list \<Rightarrow> error" where
  "errors_Join es = (if es = [] then nil
     else Some (GErr (plain (join_with [CHR 0x0A] (map error_string es))) es))"

definition context_Canceled :: gerr where
  "context_Canceled = sentinel_error ''context.Canceled'' ''context canceled''"

text \<open>\<open>context.DeadlineExceeded\<close> also implements \<open>net.Error\<close>, with \<open>Timeout\<close> true.\<close>

definition context_DeadlineExceeded :: gerr where
  "context_DeadlineExceeded =
     GErr ((plain ''context deadline exceeded'')
       \<lparr>sentinel := Some ''context.DeadlineExceeded'', net_timeout := Some True\<rparr>) []"

subsection \<open>errors.Is and errors.As\<close>

fun chain :: "gerr \<Rightarrow> gerr list" where
  "chain (GErr f es) = GErr f es # concat (map chain es)"

definition errors_Is :: "gerr \<Rightarrow> gerr \<Rightarrow> bool" where
  "errors_Is e target =
     (\<exists>n \<in> set (chain e). sentinel (facets_of n) \<noteq> None
        \<and> sentinel (facets_of n) = sentinel (facets_of target))"

fun first_some :: "('a \<Rightarrow> 'b option) \<Rightarrow> 'a list \<Rightarrow> 'b option" where
  "first_some f [] = None"
| "first_some f (x # xs) = (case f x of None \<Rightarrow> first_some f xs | Some y \<Rightarrow> Some y)"

definition errors_As :: "(facets \<Rightarrow> 'a option) \<Rightarrow> gerr \<Rightarrow> 'a option" where
  "errors_As f e = first_some (\<lambda>n. f (facets_of n)) (chain e)"

text \<open>The node \<open>errors.As\<close> finds, where the code goes on with the error itself.\<close>

definition errors_AsNode :: "(facets \<Rightarrow> bool) \<Rightarrow> gerr \<Rightarrow> gerr option" where
  "errors_AsNode f e = find (\<lambda>n. f (facets_of n)) (chain e)"

lemma chain_size: "n \<in> set (chain e) \<Longrightarrow> size n \<le> size e"
proof (induction e)
  case (GErr f es)
  then consider "n = GErr f es" | x where "x \<in> set es" "n \<in> set (chain x)" by auto
  then show ?case
  proof cases
    case 2
    with GErr.IH have "size n \<le> size x" by blast
    also have "size x \<le> size_list size es" using 2(1) by (simp add: size_list_estimation')
    finally show ?thesis by simp
  qed simp
qed

lemma errors_AsNode_size: "errors_AsNode f e = Some n \<Longrightarrow> size n \<le> size e"
  unfolding errors_AsNode_def by (auto simp: find_Some_iff intro: chain_size)

lemma chain_GErr_unfold: "n \<in> set (chain (GErr f es)) \<longleftrightarrow> n = GErr f es \<or> (\<exists>x \<in> set es. n \<in> set (chain x))"
  by auto

lemma chain_trans: "m \<in> set (chain e) \<Longrightarrow> n \<in> set (chain m) \<Longrightarrow> n \<in> set (chain e)"
proof (induction e)
  case (GErr f es)
  from GErr.prems(1) consider "m = GErr f es" | x where "x \<in> set es" "m \<in> set (chain x)"
    by (auto simp only: chain_GErr_unfold)
  then show ?case
  proof cases
    case 1
    with GErr.prems(2) show ?thesis by (simp only:)
  next
    case 2
    with GErr.IH [of x] GErr.prems(2) show ?thesis by (auto simp only: chain_GErr_unfold)
  qed
qed

lemma errors_AsNode_chain: "errors_AsNode f e = Some n \<Longrightarrow> n \<in> set (chain e) \<and> f (facets_of n)"
  by (auto simp: errors_AsNode_def find_Some_iff)

lemma errors_As_Some: "errors_As f e = Some c \<Longrightarrow> \<exists>n \<in> set (chain e). f (facets_of n) = Some c"
proof -
  have "first_some g xs = Some c \<Longrightarrow> \<exists>x \<in> set xs. g x = Some c" for g :: "gerr \<Rightarrow> 'a option" and xs
    by (induction xs) (auto split: option.splits)
  then show "errors_As f e = Some c \<Longrightarrow> \<exists>n \<in> set (chain e). f (facets_of n) = Some c" by (auto simp: errors_As_def)
qed

lemma first_some_append [simp]:
  "first_some f (xs @ ys) = (case first_some f xs of None \<Rightarrow> first_some f ys | Some y \<Rightarrow> Some y)"
  by (induction xs) (auto split: option.split)

lemma first_some_None_iff: "first_some f xs = None \<longleftrightarrow> (\<forall>x \<in> set xs. f x = None)"
  by (induction xs) (auto split: option.split)

lemma chain_self [simp]: "e \<in> set (chain e)"
  by (cases e) simp

lemma chain_errorf [simp]: "chain (errorf t ws) = errorf t ws # concat (map chain ws)"
  by (simp add: errorf_def)

text \<open>Wrapping with \<open>%w\<close> hides nothing: the sentinels and facets below stay reachable.\<close>

lemma errors_Is_errorf [simp]:
  "errors_Is (errorf t ws) s \<longleftrightarrow> (\<exists>w \<in> set ws. errors_Is w s)"
  by (auto simp: errors_Is_def) (auto simp: errorf_def plain_def)

lemma errors_Is_GErr:
  "errors_Is (GErr f es) s \<longleftrightarrow>
     (sentinel f \<noteq> None \<and> sentinel f = sentinel (facets_of s)) \<or> (\<exists>e \<in> set es. errors_Is e s)"
  by (auto simp: errors_Is_def)

lemma errors_Is_sentinel [simp]:
  "errors_Is (sentinel_error n t) (sentinel_error m u) \<longleftrightarrow> n = m"
  by (simp add: errors_Is_GErr sentinel_error_def)

lemma errors_Is_New [simp]: "\<not> errors_Is (errors_New t) s"
  by (simp add: errors_Is_GErr errors_New_def plain_def)

lemma errors_Is_Join:
  "errors_Join es = Some e \<Longrightarrow> errors_Is e s \<longleftrightarrow> (\<exists>w \<in> set es. errors_Is w s)"
  by (auto simp: errors_Join_def errors_Is_GErr plain_def split: if_splits)

lemma errors_Join_nil_iff [simp]: "errors_Join es = nil \<longleftrightarrow> es = []"
  by (simp add: errors_Join_def)

subsection \<open>Decimal rendering\<close>

lemma utoa_ne [simp]: "utoa n \<noteq> []" "[] \<noteq> utoa n"
  by (subst utoa.simps, simp)+

lemma itoa_ne [simp]: "itoa i \<noteq> []" "[] \<noteq> itoa i"
  by (simp_all add: itoa_def)

lemma digit_char_inject: "d < 10 \<Longrightarrow> e < 10 \<Longrightarrow> digit_char d = digit_char e \<longleftrightarrow> d = e"
  by (simp add: char_of_eq_iff take_bit_nat_eq_self)

lemma utoa_digits: "c \<in> set (utoa n) \<Longrightarrow> 48 \<le> (of_char c :: nat) \<and> (of_char c :: nat) \<le> 57"
proof (induction n rule: utoa.induct)
  case (1 n)
  have digit: "48 \<le> (of_char (digit_char d) :: nat) \<and> (of_char (digit_char d) :: nat) \<le> 57"
    if "d < 10" for d
    using that by simp
  show ?case
  proof (cases "n < 10")
    case True
    with 1 digit [of n] show ?thesis by (simp add: utoa.simps [of n])
  next
    case False
    with "1.prems" have "c \<in> set (utoa (n div 10)) \<or> c = digit_char (n mod 10)"
      by (auto simp: utoa.simps [of n])
    with False "1.IH" digit [of "n mod 10"] show ?thesis by auto
  qed
qed

lemma utoa_inject: "utoa m = utoa n \<longleftrightarrow> m = n"
proof (induction m arbitrary: n rule: utoa.induct)
  case (1 m)
  have step: "utoa k = (if k < 10 then [digit_char k] else utoa (k div 10) @ [digit_char (k mod 10)])"
    for k by (rule utoa.simps)
  show ?case
  proof (cases "m < 10 \<or> n < 10")
    case True
    then show ?thesis
      by (subst (1 2) step) (auto simp: digit_char_inject simp del: digit_char.simps)
  next
    case False
    then have "utoa m = utoa n \<longleftrightarrow> m div 10 = n div 10 \<and> m mod 10 = n mod 10"
      using 1 by (subst (1 2) step) (simp add: digit_char_inject del: digit_char.simps)
    also have "\<dots> \<longleftrightarrow> m = n" by (metis div_mult_mod_eq)
    finally show ?thesis .
  qed
qed

end
