(* ===== verification/Go_Net.thy ===== *)
theory Go_Net
  imports Go_Errors
begin

text \<open>
  \<open>net.SplitHostPort\<close>, \<open>net.JoinHostPort\<close> and \<open>strconv.Atoi\<close>, as the sources call them.
  The text of a \<open>SplitHostPort\<close> error is never read, so a failure is \<^term>\<open>None\<close>.
\<close>

definition byte_index :: "char \<Rightarrow> string \<Rightarrow> nat option" where
  "byte_index c s = (if c \<in> set s then Some (length (takeWhile (\<lambda>x. x \<noteq> c) s)) else None)"

definition last_byte_index :: "char \<Rightarrow> string \<Rightarrow> nat option" where
  "last_byte_index c s =
     (if c \<in> set s then Some (length s - 1 - length (takeWhile (\<lambda>x. x \<noteq> c) (rev s))) else None)"

definition SplitHostPort :: "string \<Rightarrow> (string \<times> string) option" where
  "SplitHostPort hostport =
     (case last_byte_index CHR '':'' hostport of
        None \<Rightarrow> None
      | Some i \<Rightarrow>
          if hostport ! 0 = CHR ''['' then
            (case byte_index CHR '']'' hostport of
               None \<Rightarrow> None
             | Some end \<Rightarrow>
                 if end + 1 = i then
                   (let host = take (end - 1) (drop 1 hostport) in
                    if CHR ''['' \<in> set (drop 1 hostport) then None
                    else if CHR '']'' \<in> set (drop (end + 1) hostport) then None
                    else Some (host, drop (i + 1) hostport))
                 else None)
          else
            (let host = take i hostport in
             if CHR '':'' \<in> set host then None
             else if CHR ''['' \<in> set hostport then None
             else if CHR '']'' \<in> set hostport then None
             else Some (host, drop (i + 1) hostport)))"

definition JoinHostPort :: "string \<Rightarrow> string \<Rightarrow> string" where
  "JoinHostPort host port =
     (if CHR '':'' \<in> set host then ''['' @ host @ '']:'' @ port else host @ '':'' @ port)"

lemma last_byte_index_append:
  "c \<notin> set b \<Longrightarrow> last_byte_index c (a @ c # b) = Some (length a)"
proof -
  assume "c \<notin> set b"
  then have "takeWhile (\<lambda>x. x \<noteq> c) (rev b @ [c] @ rev a) = rev b"
    by (subst takeWhile_append2) auto
  then show ?thesis by (simp add: last_byte_index_def)
qed

lemma byte_index_append: "c \<notin> set a \<Longrightarrow> byte_index c (a @ c # b) = Some (length a)"
proof -
  assume "c \<notin> set a"
  then have "takeWhile (\<lambda>x. x \<noteq> c) (a @ c # b) = a"
    by (subst takeWhile_append2) auto
  then show ?thesis by (simp add: byte_index_def)
qed

text \<open>A host without brackets and a port without colon or brackets survive the round trip.\<close>

lemma SplitHostPort_JoinHostPort:
  assumes host: "CHR ''['' \<notin> set host" "CHR '']'' \<notin> set host"
    and port: "CHR '':'' \<notin> set port" "CHR ''['' \<notin> set port" "CHR '']'' \<notin> set port"
  shows "SplitHostPort (JoinHostPort host port) = Some (host, port)"
proof (cases "CHR '':'' \<in> set host")
  case True
  have "last_byte_index CHR '':'' ((CHR ''['' # host @ '']'') @ CHR '':'' # port) = Some (length host + 2)"
    using port by (subst last_byte_index_append) simp_all
  moreover have "byte_index CHR '']'' ((CHR ''['' # host) @ CHR '']'' # CHR '':'' # port) = Some (length host + 1)"
    using host by (subst byte_index_append) simp_all
  ultimately show ?thesis using True host port
    by (simp add: SplitHostPort_def JoinHostPort_def)
next
  case False
  have "(host @ CHR '':'' # port) ! 0 \<noteq> CHR ''[''"
    using host by (cases host) auto
  with False host port show ?thesis
    by (simp add: SplitHostPort_def JoinHostPort_def last_byte_index_append)
qed

subsection \<open>strconv.Atoi\<close>

definition is_digit :: "char \<Rightarrow> bool" where
  "is_digit c = (48 \<le> (of_char c :: nat) \<and> (of_char c :: nat) \<le> 57)"

fun digits_val :: "nat \<Rightarrow> string \<Rightarrow> nat" where
  "digits_val acc [] = acc"
| "digits_val acc (c # cs) = digits_val (10 * acc + (of_char c - 48)) cs"

text \<open>
  The value and whether it parsed. On a syntax error the value is 0; out of range it is
  the nearest representable integer, as \<open>strconv.ParseInt\<close> documents.
\<close>

definition atoi :: "string \<Rightarrow> int \<times> bool" where
  "atoi s =
     (let neg = (s \<noteq> [] \<and> hd s = CHR ''-'');
          ds = (if s \<noteq> [] \<and> (hd s = CHR ''-'' \<or> hd s = CHR ''+'') then tl s else s)
      in if ds = [] \<or> \<not> list_all is_digit ds then (0, False)
         else let v = int (digits_val 0 ds) in
              if neg then (if v > 2 ^ 63 then (- (2 ^ 63), False) else (- v, True))
              else (if v > 2 ^ 63 - 1 then (2 ^ 63 - 1, False) else (v, True)))"

lemma digits_val_append: "digits_val acc (xs @ [c]) = 10 * digits_val acc xs + (of_char c - 48)"
  by (induction xs arbitrary: acc) simp_all

lemma digits_val_utoa [simp]: "digits_val 0 (utoa n) = n"
proof (induction n rule: utoa.induct)
  case (1 n)
  have digit: "(of_char (digit_char d) :: nat) = 48 + d" if "d < 10" for d
    using that by (simp add: take_bit_nat_eq_self)
  show ?case
  proof (cases "n < 10")
    case True
    then show ?thesis using digit [of n] by (simp add: utoa.simps [of n] del: digit_char.simps)
  next
    case False
    with 1 show ?thesis using digit [of "n mod 10"]
      by (simp add: utoa.simps [of n] digits_val_append del: digit_char.simps)
  qed
qed

lemma utoa_all_digits: "list_all is_digit (utoa n)"
  using utoa_digits by (auto simp: list_all_iff is_digit_def)

lemma utoa_no_special:
  "\<not> is_digit c \<Longrightarrow> c \<notin> set (utoa n)"
  using utoa_all_digits [of n] by (auto simp: list_all_iff)

text \<open>\<open>Atoi(Itoa(n)) = n\<close> for every non-negative 64-bit integer.\<close>

lemma atoi_itoa: "0 \<le> i \<Longrightarrow> i < 2 ^ 63 \<Longrightarrow> atoi (itoa i) = (i, True)"
proof -
  assume i: "0 \<le> i" "i < 2 ^ 63"
  obtain c cs where u: "utoa (nat i) = c # cs" by (cases "utoa (nat i)") auto
  then have "is_digit c" using utoa_all_digits [of "nat i"] by simp
  then have "c \<noteq> CHR ''-''" "c \<noteq> CHR ''+''" by (auto simp: is_digit_def)
  moreover have "list_all is_digit (c # cs)" "digits_val 0 (c # cs) = nat i"
    using u utoa_all_digits [of "nat i"] digits_val_utoa [of "nat i"] by simp_all
  ultimately show ?thesis using i u
    by (simp add: atoi_def itoa_def Let_def)
qed

subsection \<open>url.PathUnescape\<close>

fun hex_val :: "char \<Rightarrow> nat option" where
  "hex_val c =
     (let n = of_char c :: nat in
      if 48 \<le> n \<and> n \<le> 57 then Some (n - 48)
      else if 97 \<le> n \<and> n \<le> 102 then Some (n - 97 + 10)
      else if 65 \<le> n \<and> n \<le> 70 then Some (n - 65 + 10)
      else None)"

fun path_unescape :: "string \<Rightarrow> string option" where
  "path_unescape [] = Some []"
| "path_unescape (c # cs) =
     (if c = CHR ''%'' then
        (case cs of
           a # b # rest \<Rightarrow>
             (case (hex_val a, hex_val b) of
                (Some h, Some l) \<Rightarrow> map_option ((#) (char_of (16 * h + l))) (path_unescape rest)
              | _ \<Rightarrow> None)
         | _ \<Rightarrow> None)
      else map_option ((#) c) (path_unescape cs))"

lemma path_unescape_plain [simp]: "CHR ''%'' \<notin> set s \<Longrightarrow> path_unescape s = Some s"
  by (induction s) auto

subsection \<open>The escaping of net/url\<close>

definition hex_digit :: "nat \<Rightarrow> char" where
  "hex_digit n = (if n < 10 then char_of (48 + n) else char_of (55 + n))"

definition percent :: "char \<Rightarrow> string" where
  "percent c = [CHR ''%'', hex_digit (of_char c div 16), hex_digit (of_char c mod 16)]"

definition url_escape :: "(char \<Rightarrow> bool) \<Rightarrow> string \<Rightarrow> string" where
  "url_escape keep s = concat (map (\<lambda>c. if keep c then [c] else percent c) s)"

definition unreserved :: "char \<Rightarrow> bool" where
  "unreserved c \<longleftrightarrow>
     (let n = of_char c :: nat in 48 \<le> n \<and> n \<le> 57 \<or> 65 \<le> n \<and> n \<le> 90 \<or> 97 \<le> n \<and> n \<le> 122)
     \<or> c \<in> set ''-_.~''"

text \<open>What \<open>shouldEscape\<close> leaves alone in user information, in a path and in a host.\<close>

definition keep_user :: "char \<Rightarrow> bool" where "keep_user c \<longleftrightarrow> unreserved c \<or> c \<in> set ''$&+,;=''"
definition keep_path :: "char \<Rightarrow> bool" where "keep_path c \<longleftrightarrow> unreserved c \<or> c \<in> set ''$&+,/:;=@''"
definition keep_host :: "char \<Rightarrow> bool" where
  "keep_host c \<longleftrightarrow> unreserved c \<or> c \<in> set (''!$&()*+,;=:[]<>'' @ [CHR 0x27, CHR 0x22])"

definition query_escape :: "string \<Rightarrow> string" where
  "query_escape s = concat (map (\<lambda>c. if unreserved c then [c] else if c = CHR '' '' then ''+'' else percent c) s)"

lemma hex_val_digit: "n < 16 \<Longrightarrow> hex_val (hex_digit n) = Some n"
  by (simp add: hex_digit_def Let_def)

lemma path_unescape_percent: "path_unescape (percent c @ s) = map_option ((#) c) (path_unescape s)"
proof -
  have "of_char c < (256 :: nat)" by simp
  then have d: "(of_char c :: nat) div 16 < 16" by linarith
  have "16 * ((of_char c :: nat) div 16) + of_char c mod 16 = of_char c" by simp
  with d show ?thesis by (simp add: percent_def hex_val_digit del: hex_val.simps)
qed

lemma path_unescape_escape: "\<not> keep CHR ''%'' \<Longrightarrow> path_unescape (url_escape keep s) = Some s"
proof (induction s)
  case (Cons c s)
  then show ?case
    using path_unescape_percent [of c "url_escape keep s"] by (auto simp: url_escape_def)
qed (simp add: url_escape_def)

lemma hex_digit_plain: "n < 16 \<Longrightarrow> (48 \<le> (of_char (hex_digit n) :: nat) \<and> (of_char (hex_digit n) :: nat) \<le> 57)
    \<or> (65 \<le> (of_char (hex_digit n) :: nat) \<and> (of_char (hex_digit n) :: nat) \<le> 70)"
  by (auto simp: hex_digit_def)

lemma url_escape_chars:
  assumes "c \<in> set (url_escape keep s)"
  shows "keep c \<or> c = CHR ''%'' \<or> unreserved c"
proof -
  from assms have "\<exists>x. c \<in> set (if keep x then [x] else percent x)"
    unfolding url_escape_def by (metis (no_types, lifting) ex_map_conv set_concat UN_E imageE set_map)
  then obtain x where x: "c \<in> set (if keep x then [x] else percent x)" ..
  have "of_char x < (256 :: nat)" by simp
  then have "(of_char x :: nat) div 16 < 16" by linarith
  with x show ?thesis
    using hex_digit_plain [of "of_char x div 16"] hex_digit_plain [of "of_char x mod 16"]
    by (auto simp: percent_def unreserved_def split: if_splits)
qed

end
