(* ===== verification/Errs.thy ===== *)
theory Errs
  imports Go_Errors
begin

text \<open>
  Package \<open>errs\<close>: the application error with its code, message, cause, stack and metadata,
  its matching by code, its extraction from a chain, and its structured log value. The
  metadata of an error is a Go map shared by reference, so \<open>WithMeta\<close> is also modelled over
  an explicit store of maps, which refines the value-level operation. The stack's program
  counters come from the runtime; \<open>frames\<close> renders them.
\<close>

subsection \<open>The error value\<close>

text \<open>A pointer to an Error: its address, its fields, and the cause it unwraps to.\<close>

definition errs_Error :: "nat \<Rightarrow> int \<Rightarrow> string \<Rightarrow> error \<Rightarrow> nat list \<Rightarrow> (string \<rightharpoonup> anyval) option \<Rightarrow> gerr" where
  "errs_Error a code msg cause stk mt =
     GErr ((plain (case cause of Some c \<Rightarrow> msg @ '': '' @ error_string c | None \<Rightarrow> msg))
             \<lparr>err_code := Some code, app := Some \<lparr>addr = a, message = msg, meta = mt, stack = stk\<rparr>\<rparr>)
          (case cause of Some c \<Rightarrow> [c] | None \<Rightarrow> [])"

definition is_errs :: "gerr \<Rightarrow> bool" where
  "is_errs e \<longleftrightarrow> app (facets_of e) \<noteq> None"

text \<open>
  The shape of every error whose dynamic type is the package's: it has a code, at most one
  cause, and the text of its message and cause. The fields are private, so the constructors
  below are the only makers.
\<close>

definition errs_wf :: "gerr \<Rightarrow> bool" where
  "errs_wf e \<longleftrightarrow> (\<forall>n \<in> set (chain e). is_errs n \<longrightarrow>
     (\<exists>a code msg cause stk mt. n = errs_Error a code msg cause stk mt))"

definition errs_Code :: "gerr \<Rightarrow> int" where
  "errs_Code e = the (err_code (facets_of e))"

definition Cause :: "gerr \<Rightarrow> error" where
  "Cause e = (case unwrap e of [] \<Rightarrow> nil | c # _ \<Rightarrow> Some c)"

definition Meta :: "gerr \<Rightarrow> (string \<rightharpoonup> anyval) option" where
  "Meta e = meta (the (app (facets_of e)))"

definition Debug :: "gerr \<Rightarrow> string" where
  "Debug e = (case Meta e of None \<Rightarrow> '''' | Some m \<Rightarrow> (case m ''debug'' of Some v \<Rightarrow> sprint_v v | None \<Rightarrow> ''''))"

subsection \<open>Constructors\<close>

text \<open>\<open>a\<close> is the address of the allocation and \<open>stk\<close> the stack captured at the call site.\<close>

definition errs_New :: "nat \<Rightarrow> nat list \<Rightarrow> int \<Rightarrow> string \<Rightarrow> gerr" where
  "errs_New a stk code msg = errs_Error a code msg nil stk None"

definition Wrap :: "nat \<Rightarrow> nat list \<Rightarrow> int \<Rightarrow> string \<Rightarrow> error \<Rightarrow> gerr" where
  "Wrap a stk code msg cause = errs_Error a code msg cause stk None"

definition AsError :: "nat \<Rightarrow> nat list \<Rightarrow> error \<Rightarrow> error" where
  "AsError a stk err =
     (case err of
        None \<Rightarrow> nil
      | Some e \<Rightarrow>
          (case find is_errs (chain e) of
             Some x \<Rightarrow> Some x
           | None \<Rightarrow> Some (errs_Error a 0 (error_string e) (Some e) stk None)))"

definition WithMeta :: "nat \<Rightarrow> gerr \<Rightarrow> string \<Rightarrow> anyval \<Rightarrow> gerr" where
  "WithMeta a e k v =
     (let p = the (app (facets_of e));
          m = (case meta p of None \<Rightarrow> Map.empty | Some m \<Rightarrow> m)
      in GErr ((facets_of e)\<lparr>app := Some (p\<lparr>addr := a, meta := Some (m(k \<mapsto> v))\<rparr>)\<rparr>) (unwrap e))"

definition WithDebug :: "nat \<Rightarrow> gerr \<Rightarrow> string \<Rightarrow> gerr" where
  "WithDebug a e detail = WithMeta a e ''debug'' (VStr detail)"

subsection \<open>Matching\<close>

text \<open>The method \<open>Is\<close>: same type, and the same code unless it is 0.\<close>

definition errs_Is :: "gerr \<Rightarrow> gerr \<Rightarrow> bool" where
  "errs_Is e target \<longleftrightarrow> is_errs target \<and> errs_Code e \<noteq> 0 \<and> errs_Code e = errs_Code target"

text \<open>
  \<open>errors.Is\<close> with the method: a node of the chain matches when it is the target itself,
  by address or by sentinel, or when it is an application error whose \<open>Is\<close> accepts it.
\<close>

definition same_ptr :: "gerr \<Rightarrow> gerr \<Rightarrow> bool" where
  "same_ptr n t \<longleftrightarrow>
     (case (app (facets_of n), app (facets_of t)) of
        (Some p, Some q) \<Rightarrow> addr p = addr q
      | (None, None) \<Rightarrow> sentinel (facets_of n) \<noteq> None \<and> sentinel (facets_of n) = sentinel (facets_of t)
      | _ \<Rightarrow> False)"

definition go_Is :: "gerr \<Rightarrow> gerr \<Rightarrow> bool" where
  "go_Is e t \<longleftrightarrow> (\<exists>n \<in> set (chain e). same_ptr n t \<or> (is_errs n \<and> errs_Is n t))"

subsection \<open>Structured logging\<close>

datatype slog_value = SInt int | SString string | SAny "string \<rightharpoonup> anyval" | SErr gerr | SGroup "(string \<times> slog_value) list"

text \<open>\<open>LogValue\<close>; \<open>frames\<close> formats the stack.\<close>

function LogValue :: "(nat list \<Rightarrow> string list) \<Rightarrow> gerr \<Rightarrow> slog_value" where
  "LogValue frames (GErr f es) =
     (let p = the (app f); e = GErr f es;
          dbg = (if Debug e \<noteq> '''' then [(''debug'', SString (Debug e))] else []);
          mt = (case meta p of None \<Rightarrow> Map.empty | Some m \<Rightarrow> m)(''debug'' := None);
          metas = (if mt \<noteq> Map.empty then [(''meta'', SAny mt)] else []);
          cause = (case es of [] \<Rightarrow> []
                   | c # _ \<Rightarrow> if is_errs c then [(''cause'', LogValue frames c)] else [(''cause'', SString (error_string c))]);
          stk = (if stack p = [] then [] else frames (stack p));
          stks = (if stk \<noteq> [] then [(''stack'', SString (join_with [CHR 0x0A] stk))] else [])
      in SGroup ([(''code'', SInt (the (err_code f))), (''message'', SString (message p))] @ dbg @ metas @ cause @ stks))"
  by pat_completeness auto
termination
  by (relation "measure (\<lambda>(_, e). size e)") auto

text \<open>
  Where \<open>LogValue\<close> dereferences nil: on a nil receiver, the address 0, or on a direct cause
  that is one.
\<close>

function LogValue_nil :: "gerr \<Rightarrow> bool" where
  "LogValue_nil (GErr f es) =
     (addr (the (app f)) = 0 \<or> (case es of [] \<Rightarrow> False | c # _ \<Rightarrow> is_errs c \<and> LogValue_nil c))"
  by pat_completeness auto
termination
  by (relation "measure size") auto

definition SlogAttr :: "(nat list \<Rightarrow> string list) \<Rightarrow> error \<Rightarrow> string \<times> slog_value option" where
  "SlogAttr frames err =
     (''err'', case err of None \<Rightarrow> None
      | Some e \<Rightarrow> (case find is_errs (chain e) of Some x \<Rightarrow> Some (LogValue frames x) | None \<Rightarrow> Some (SErr e)))"

subsection \<open>Codes\<close>

lemma is_errs_Error [simp]: "is_errs (errs_Error a c m cause stk mt)"
  by (simp add: is_errs_def errs_Error_def)

lemma errs_Code_Error [simp]: "errs_Code (errs_Error a c m cause stk mt) = c"
  by (simp add: errs_Code_def errs_Error_def)

lemma WithMeta_Error:
  "WithMeta b (errs_Error a c m cause stk mt) k v =
     errs_Error b c m cause stk (Some ((case mt of None \<Rightarrow> Map.empty | Some x \<Rightarrow> x)(k \<mapsto> v)))"
  by (simp add: WithMeta_def errs_Error_def Let_def)

lemma chain_Error: "chain (errs_Error a c m cause stk mt) =
  errs_Error a c m cause stk mt # (case cause of Some e \<Rightarrow> chain e | None \<Rightarrow> [])"
  by (simp add: errs_Error_def split: option.split)

lemma same_ptr_Error: "same_ptr (errs_Error a c m cause stk mt) t \<longleftrightarrow> (\<exists>q. app (facets_of t) = Some q \<and> a = addr q)"
  by (auto simp: same_ptr_def errs_Error_def split: option.split)

lemma go_Is_chain: "m \<in> set (chain e) \<Longrightarrow> go_Is m t \<Longrightarrow> go_Is e t"
  unfolding go_Is_def using chain_trans by blast

lemma find_is_errs: "find is_errs (chain e) = Some x \<Longrightarrow> x \<in> set (chain e) \<and> is_errs x"
  by (auto simp: find_Some_iff)

lemma find_is_errs_self: "is_errs x \<Longrightarrow> find is_errs (chain x) = Some x"
  by (cases x) simp

text \<open>
  \<open>AsError\<close> always gives an application error and is idempotent: for a chain that holds
  one it is that very error, the first in the order of \<open>errors.As\<close>, and otherwise a new
  error of code 0 whose cause is the given error; and it adds no match: whatever the result
  matches under \<open>errors.Is\<close>, other than itself, the given error matches as well.
\<close>

theorem AsError_total:
  "\<exists>x. AsError a stk (Some e) = Some x \<and> is_errs x \<and> AsError a' stk' (Some x) = Some x
     \<and> (find is_errs (chain e) = Some x
        \<or> (\<forall>n \<in> set (chain e). \<not> is_errs n) \<and> errs_Code x = 0 \<and> Cause x = Some e)
     \<and> (\<forall>t. go_Is x t \<longrightarrow> same_ptr x t \<or> go_Is e t)"
proof (cases "find is_errs (chain e)")
  case (Some x)
  then have "x \<in> set (chain e)" "is_errs x" using find_is_errs by blast+
  then show ?thesis
    using Some go_Is_chain by (intro exI [of _ x]) (auto simp: AsError_def find_is_errs_self)
next
  case None
  let ?x = "errs_Error a 0 (error_string e) (Some e) stk None"
  have "\<forall>n \<in> set (chain e). \<not> is_errs n" using None by (auto simp: find_None_iff)
  moreover have "Cause ?x = Some e" by (simp add: Cause_def errs_Error_def)
  moreover have "same_ptr ?x t \<or> go_Is e t" if "go_Is ?x t" for t
    using that by (auto simp: go_Is_def chain_Error errs_Is_def)
  ultimately show ?thesis
    using None by (intro exI [of _ ?x]) (auto simp: AsError_def find_is_errs_self)
qed

theorem AsError_total_witness:
  "\<exists>x. AsError 1 [] (Some (errorf ''handler: e'' [errs_New 0 [] 404 ''e''])) = Some x \<and> errs_Code x = 404"
proof -
  have "find is_errs (chain (errorf ''handler: e'' [errs_New 0 [] 404 ''e''])) = Some (errs_New 0 [] 404 ''e'')"
    by (simp add: errs_New_def chain_Error) (simp add: is_errs_def errorf_def plain_def)
  with AsError_total [of 1 "[]" "errorf ''handler: e'' [errs_New 0 [] 404 ''e'']" 1 "[]"] show ?thesis
    by (auto simp: errs_New_def chain_Error)
qed

text \<open>
  Matching by code survives wrapping. An error wrapped by \<open>fmt.Errorf\<close> or by \<open>Wrap\<close>
  matches every target its parts match; two application errors of the same code other
  than 0 match each other, and with code 0 an error matches an application target only if
  it is the same pointer.
\<close>

theorem errs_Is_by_code:
  "(go_Is (errorf txt ws) t \<longleftrightarrow> same_ptr (errorf txt ws) t \<or> (\<exists>w \<in> set ws. go_Is w t))
   \<and> (go_Is (Wrap a stk code msg cause) t \<longleftrightarrow>
        (\<exists>q. app (facets_of t) = Some q \<and> (addr q = a \<or> code \<noteq> 0 \<and> errs_Code t = code))
        \<or> (\<exists>c. cause = Some c \<and> go_Is c t))"
  by (auto simp: go_Is_def Wrap_def chain_Error same_ptr_Error errs_Is_def split: option.splits)
    (auto simp: errorf_def plain_def is_errs_def)

subsection \<open>Metadata by reference\<close>

text \<open>
  The struct as the memory has it: the field \<open>meta\<close> refers to a map in the store. \<open>nw\<close> is
  the address the allocation of the copied map returns.
\<close>

type_synonym map_store = "nat \<rightharpoonup> (string \<rightharpoonup> anyval)"

record err_obj =
  eo_code :: int
  eo_message :: string
  eo_cause :: error
  eo_stack :: "nat list"
  eo_meta :: "nat option"

definition eo_wf :: "map_store \<Rightarrow> err_obj \<Rightarrow> bool" where
  "eo_wf h e \<longleftrightarrow> (case eo_meta e of None \<Rightarrow> True | Some r \<Rightarrow> h r \<noteq> None)"

definition eo_abs :: "map_store \<Rightarrow> nat \<Rightarrow> err_obj \<Rightarrow> gerr" where
  "eo_abs h a e = errs_Error a (eo_code e) (eo_message e) (eo_cause e) (eo_stack e) (Option.bind (eo_meta e) h)"

definition WithMeta_ref :: "nat \<Rightarrow> map_store \<Rightarrow> err_obj \<Rightarrow> string \<Rightarrow> anyval \<Rightarrow> map_store \<times> err_obj" where
  "WithMeta_ref nw h e k v =
     (let copied = (case eo_meta e of None \<Rightarrow> Map.empty | Some r \<Rightarrow> the (h r))
      in (h(nw \<mapsto> copied(k \<mapsto> v)), e\<lparr>eo_meta := Some nw\<rparr>))"

text \<open>
  C36: \<open>WithMeta\<close> copies the map before it writes, so the shared references are never seen.
  Over a store of maps, the new error reads as the value-level \<open>WithMeta\<close> of the old one,
  and every error that existed before, the receiver included, reads as before.
\<close>

theorem WithMeta_isolated:
  assumes "h nw = None" and "eo_wf h e" and "eo_wf h other"
  shows "case WithMeta_ref nw h e k v of (h', e') \<Rightarrow>
    eo_abs h' b e' = WithMeta b (eo_abs h a e) k v \<and> eo_abs h' c other = eo_abs h c other
    \<and> eo_wf h' e' \<and> eo_wf h' other"
proof -
  let ?m = "case eo_meta e of None \<Rightarrow> Map.empty | Some r \<Rightarrow> the (h r)"
  let ?h = "h(nw \<mapsto> ?m(k \<mapsto> v))"
  have "Option.bind (eo_meta other) ?h = Option.bind (eo_meta other) h"
    using assms(1, 3) by (cases "eo_meta other") (auto simp: eo_wf_def)
  moreover have "?m = (case Option.bind (eo_meta e) h of None \<Rightarrow> Map.empty | Some m \<Rightarrow> m)"
    using assms(2) by (cases "eo_meta e") (auto simp: eo_wf_def)
  moreover have "eo_wf ?h other" using assms(3) by (auto simp: eo_wf_def split: option.split)
  ultimately show ?thesis
    by (simp add: WithMeta_ref_def eo_abs_def WithMeta_Error) (simp add: eo_wf_def)
qed

theorem WithMeta_isolated_witness:
  "eo_abs (fst (WithMeta_ref 1 [0 \<mapsto> [''k'' \<mapsto> VInt 1]]
       \<lparr>eo_code = 5, eo_message = ''m'', eo_cause = nil, eo_stack = [], eo_meta = Some 0\<rparr> ''k'' (VInt 2))) 7
     \<lparr>eo_code = 5, eo_message = ''m'', eo_cause = nil, eo_stack = [], eo_meta = Some 0\<rparr>
   = errs_Error 7 5 ''m'' nil [] (Some [''k'' \<mapsto> VInt 1])"
  using WithMeta_isolated [where h = "[0 \<mapsto> [''k'' \<mapsto> VInt 1]]" and nw = 1 and k = "''k''" and v = "VInt 2" and c = 7
      and e = "\<lparr>eo_code = 5, eo_message = ''m'', eo_cause = nil, eo_stack = [], eo_meta = Some 0\<rparr>"
      and other = "\<lparr>eo_code = 5, eo_message = ''m'', eo_cause = nil, eo_stack = [], eo_meta = Some 0\<rparr>"]
  by (simp add: eo_wf_def eo_abs_def case_prod_beta)

end
