(* ===== verification/Errgroup.thy ===== *)
theory Errgroup
  imports Go_Errors
begin

text \<open>
  Package \<open>errgroup\<close>: the options and limits of a group and of its child groups, the task
  wrapper with its pre-flight check and panic recovery, and the panic error. The goroutines,
  the first-error rule and the cancellation belong to \<open>golang.org/x/sync/errgroup\<close>, which is a
  parameter with its documented behaviour as a hypothesis.
\<close>

subsection \<open>Panic errors\<close>

text \<open>The value of a panic: an error, or any other value.\<close>

datatype panic_value = PErr gerr | PVal anyval

fun sprint_panic :: "panic_value \<Rightarrow> string" where
  "sprint_panic (PErr e) = error_string e"
| "sprint_panic (PVal v) = sprint_v v"

fun PanicError_Unwrap :: "panic_value \<Rightarrow> gerr list" where
  "PanicError_Unwrap (PErr e) = [e]"
| "PanicError_Unwrap (PVal _) = []"

definition PanicError :: "panic_value \<Rightarrow> gerr" where
  "PanicError v = GErr (plain (''errgroup: task panicked: '' @ sprint_panic v)) (PanicError_Unwrap v)"

subsection \<open>Groups\<close>

definition DefaultMaxConcurrency :: int where "DefaultMaxConcurrency = 20"

type_synonym eg_option = "int \<Rightarrow> int"

definition WithMaxConcurrency :: "int \<Rightarrow> eg_option" where
  "WithMaxConcurrency n = (\<lambda>_. n)"

text \<open>
  The upstream group is a parameter: its operations over a state \<open>'g\<close>, and contexts \<open>'ctx\<close>. A task is
  given to it as the closure \<open>func() error\<close>: the error it returns, depending on the error the group's
  context has when it starts.
\<close>

type_synonym eg_task = "error \<Rightarrow> error"

record ('g, 'ctx) errgroup_lib =
  lib_WithContext :: "'ctx \<Rightarrow> 'g \<times> 'ctx"
  lib_SetLimit :: "int \<Rightarrow> 'g \<Rightarrow> 'g"
  lib_Go :: "eg_task \<Rightarrow> 'g \<Rightarrow> 'g"
  lib_TryGo :: "eg_task \<Rightarrow> 'g \<Rightarrow> 'g \<times> bool"
  lib_Wait :: "'g \<Rightarrow> 'g \<times> error"

record ('g, 'ctx) eg_group =
  eg_eg :: 'g
  eg_ctx :: 'ctx
  maxConcurrency :: int

definition eg_New :: "('g, 'ctx) errgroup_lib \<Rightarrow> 'ctx \<Rightarrow> eg_option list \<Rightarrow> ('g, 'ctx) eg_group" where
  "eg_New lib ctx opts =
     (let n = fold (\<lambda>opt n. opt n) opts DefaultMaxConcurrency;
          (eg, egCtx) = lib_WithContext lib ctx
      in \<lparr>eg_eg = (if n > 0 then lib_SetLimit lib n eg else eg), eg_ctx = egCtx, maxConcurrency = n\<rparr>)"

definition SubGroup :: "('g, 'ctx) errgroup_lib \<Rightarrow> ('g, 'ctx) eg_group \<Rightarrow> eg_option list \<Rightarrow> ('g, 'ctx) eg_group" where
  "SubGroup lib g opts = eg_New lib (eg_ctx g) (WithMaxConcurrency (maxConcurrency g) # opts)"

definition eg_Context :: "('g, 'ctx) eg_group \<Rightarrow> 'ctx" where
  "eg_Context g = eg_ctx g"

subsection \<open>Tasks\<close>

datatype task_result = Returned error | Panicked panic_value

text \<open>
  The closure \<open>adaptTask\<close> returns, run while the group's context has the error \<open>ctxErr\<close>:
  the error it hands to the group and whether the task was called.
\<close>

definition adaptTask :: "error \<Rightarrow> task_result \<Rightarrow> error \<times> bool" where
  "adaptTask ctxErr fn =
     (case ctxErr of
        Some e \<Rightarrow> (Some e, False)
      | None \<Rightarrow> (case fn of Returned err \<Rightarrow> (err, True) | Panicked v \<Rightarrow> (Some (PanicError v), True)))"

text \<open>The closure as the upstream group sees it.\<close>

definition adapted :: "task_result \<Rightarrow> eg_task" where
  "adapted fn = (\<lambda>ctxErr. fst (adaptTask ctxErr fn))"

definition eg_Go :: "('g, 'ctx) errgroup_lib \<Rightarrow> ('g, 'ctx) eg_group \<Rightarrow> task_result \<Rightarrow> ('g, 'ctx) eg_group" where
  "eg_Go lib g f = g\<lparr>eg_eg := lib_Go lib (adapted f) (eg_eg g)\<rparr>"

definition eg_TryGo :: "('g, 'ctx) errgroup_lib \<Rightarrow> ('g, 'ctx) eg_group \<Rightarrow> task_result \<Rightarrow> ('g, 'ctx) eg_group \<times> bool" where
  "eg_TryGo lib g f = (let (eg, ok) = lib_TryGo lib (adapted f) (eg_eg g) in (g\<lparr>eg_eg := eg\<rparr>, ok))"

definition eg_Wait :: "('g, 'ctx) errgroup_lib \<Rightarrow> ('g, 'ctx) eg_group \<Rightarrow> ('g, 'ctx) eg_group \<times> error" where
  "eg_Wait lib g = (let (eg, err) = lib_Wait lib (eg_eg g) in (g\<lparr>eg_eg := eg\<rparr>, err))"

text \<open>
  A task never brings the process down and never hides its outcome. It is called just
  when the group's context is alive; the group then gets the task's own error, or for a
  panic a \<open>PanicError\<close>, through which \<open>errors.Is\<close> and \<open>errors.As\<close> see an error that was
  the panic value and nothing else; a canceled group gets the cancellation error.
\<close>

theorem adaptTask_outcome:
  "adaptTask ctxErr fn =
     (case ctxErr of Some e \<Rightarrow> Some e
      | None \<Rightarrow> (case fn of Returned err \<Rightarrow> err | Panicked v \<Rightarrow> Some (PanicError v)), ctxErr = nil)
   \<and> (errors_Is (PanicError v) s \<longleftrightarrow> (\<exists>e. v = PErr e \<and> errors_Is e s))
   \<and> errors_As err_code (PanicError v) = (case v of PErr e \<Rightarrow> errors_As err_code e | PVal _ \<Rightarrow> None)"
  by (cases v)
    (auto simp: adaptTask_def PanicError_def errors_Is_GErr errors_As_def plain_def
      split: option.split task_result.split)

text \<open>
  A group never deadlocks by its own limit and child groups inherit it: the limit given
  to the underlying group is positive, it is absent exactly when the last option asks for
  none, and a child without options of its own has its parent's limit and the parent's
  context as its root.
\<close>

definition eg_limit :: "('g, 'ctx) errgroup_lib \<Rightarrow> int \<Rightarrow> 'g \<Rightarrow> 'g" where
  "eg_limit lib n = (if 0 < n then lib_SetLimit lib n else id)"

theorem SubGroup_limit:
  "eg_eg (eg_New lib ctx (opts @ [WithMaxConcurrency n])) = eg_limit lib n (fst (lib_WithContext lib ctx))
   \<and> eg_eg (eg_New lib ctx []) = lib_SetLimit lib 20 (fst (lib_WithContext lib ctx))
   \<and> eg_eg (SubGroup lib g []) = eg_limit lib (maxConcurrency g) (fst (lib_WithContext lib (eg_Context g)))
   \<and> SubGroup lib g (opts @ [WithMaxConcurrency n]) = eg_New lib (eg_Context g) [WithMaxConcurrency n]
   \<and> eg_Context (SubGroup lib g opts) = snd (lib_WithContext lib (eg_Context g))"
  by (simp add: eg_New_def SubGroup_def WithMaxConcurrency_def DefaultMaxConcurrency_def Let_def eg_limit_def eg_Context_def
      split: prod.split)

subsection \<open>Waiting for a group\<close>

text \<open>
  What the documentation of \<open>golang.org/x/sync/errgroup\<close> promises, for a group whose parent context
  stays alive. \<open>tasks\<close> lists the functions a group has started. \<open>Wait\<close> returns after all of them have
  returned, in some order, with the first non-nil error; a function that starts with a canceled
  context starts after another has returned an error.
\<close>

definition returned_errors :: "eg_task list \<Rightarrow> (nat \<times> error) list \<Rightarrow> error list" where
  "returned_errors ts runs = map (\<lambda>(i, ctxErr). (ts ! i) ctxErr) runs"

fun first_error :: "error list \<Rightarrow> error" where
  "first_error [] = nil"
| "first_error (e # es) = (if e = nil then first_error es else e)"

definition errgroup_laws :: "('g, 'ctx) errgroup_lib \<Rightarrow> ('g \<Rightarrow> eg_task list) \<Rightarrow> bool" where
  "errgroup_laws lib tasks \<longleftrightarrow>
     (\<forall>ctx. tasks (fst (lib_WithContext lib ctx)) = [])
     \<and> (\<forall>n g. tasks (lib_SetLimit lib n g) = tasks g)
     \<and> (\<forall>f g. tasks (lib_Go lib f g) = tasks g @ [f])
     \<and> (\<forall>f g. tasks (fst (lib_TryGo lib f g)) = (if snd (lib_TryGo lib f g) then tasks g @ [f] else tasks g))
     \<and> (\<forall>g. \<exists>runs. distinct (map fst runs) \<and> set (map fst runs) = {..<length (tasks g)}
          \<and> snd (lib_Wait lib g) = first_error (returned_errors (tasks g) runs)
          \<and> (\<forall>i < length runs. snd (runs ! i) \<noteq> nil \<longrightarrow> (\<exists>j < i. returned_errors (tasks g) runs ! j \<noteq> nil)))"

text \<open>The calls a program makes on a group before it waits, and the tasks that were accepted.\<close>

datatype eg_call = CallGo task_result | CallTryGo task_result

fun eg_calls :: "('g, 'ctx) errgroup_lib \<Rightarrow> ('g, 'ctx) eg_group \<Rightarrow> eg_call list \<Rightarrow> ('g, 'ctx) eg_group \<times> task_result list" where
  "eg_calls lib g [] = (g, [])"
| "eg_calls lib g (CallGo f # cs) = (let (g', fs) = eg_calls lib (eg_Go lib g f) cs in (g', f # fs))"
| "eg_calls lib g (CallTryGo f # cs) =
     (let (g1, ok) = eg_TryGo lib g f; (g', fs) = eg_calls lib g1 cs in (g', if ok then f # fs else fs))"

lemma laws_tasks:
  assumes "errgroup_laws lib tasks"
  shows "tasks (fst (lib_WithContext lib ctx)) = []" "tasks (lib_SetLimit lib n g) = tasks g"
    "tasks (lib_Go lib f g) = tasks g @ [f]"
    "tasks (fst (lib_TryGo lib f g)) = (if snd (lib_TryGo lib f g) then tasks g @ [f] else tasks g)"
  using assms unfolding errgroup_laws_def by blast+

lemma eg_calls_tasks:
  assumes "errgroup_laws lib tasks"
  shows "tasks (eg_eg (fst (eg_calls lib g cs))) = tasks (eg_eg g) @ map adapted (snd (eg_calls lib g cs))"
proof (induction cs arbitrary: g)
  case (Cons c cs)
  then show ?case
    by (cases c) (simp_all add: eg_Go_def eg_TryGo_def Let_def case_prod_unfold laws_tasks [OF assms])
qed simp

lemma first_error_cases:
  "first_error es = nil \<and> (\<forall>e \<in> set es. e = nil)
   \<or> (\<exists>i < length es. first_error es = es ! i \<and> es ! i \<noteq> nil \<and> (\<forall>j < i. es ! j = nil))"
proof (induction es)
  case (Cons e es)
  show ?case
  proof (cases "e = nil")
    case True
    from Cons.IH show ?thesis
    proof
      assume "\<exists>i < length es. first_error es = es ! i \<and> es ! i \<noteq> nil \<and> (\<forall>j < i. es ! j = nil)"
      then obtain i where "i < length es" "first_error es = es ! i" "es ! i \<noteq> nil" "\<forall>j < i. es ! j = nil" by blast
      with True show ?thesis by (intro disjI2 exI [of _ "Suc i"]) (auto simp: nth_Cons split: nat.split)
    qed (use True in auto)
  qed auto
qed simp

text \<open>The error of a task that ran: its own error, or the panic.\<close>

definition task_error :: "task_result \<Rightarrow> error" where
  "task_error fn = (case fn of Returned e \<Rightarrow> e | Panicked v \<Rightarrow> Some (PanicError v))"

lemma adapted_eq: "adapted fn c = (if c = nil then task_error fn else c)"
  by (auto simp: adapted_def adaptTask_def task_error_def split: option.split task_result.split)

text \<open>The first error of a finished run, when a skipped task starts after an error was returned.\<close>

lemma group_outcome:
  assumes "set (map fst runs) = {..<length fns}"
    and "\<And>i. i < length runs \<Longrightarrow> snd (runs ! i) \<noteq> nil \<Longrightarrow> \<exists>j < i. returned_errors (map adapted fns) runs ! j \<noteq> nil"
  shows "first_error (returned_errors (map adapted fns) runs) = nil \<and> (\<forall>fn \<in> set fns. task_error fn = nil)
    \<or> first_error (returned_errors (map adapted fns) runs) \<noteq> nil
      \<and> (\<exists>fn \<in> set fns. first_error (returned_errors (map adapted fns) runs) = task_error fn)"
proof -
  let ?rs = "returned_errors (map adapted fns) runs"
  have len: "length ?rs = length runs" by (simp add: returned_errors_def)
  have idx: "fst (runs ! i) < length fns" if "i < length runs" for i
    using that assms(1) nth_mem [of i "map fst runs"] by simp
  have at: "?rs ! i = (if snd (runs ! i) = nil then task_error (fns ! fst (runs ! i)) else snd (runs ! i))" if "i < length runs" for i
    using that idx [OF that] by (simp add: returned_errors_def adapted_eq case_prod_unfold)
  from first_error_cases [of ?rs] show ?thesis
  proof
    assume nil: "first_error ?rs = nil \<and> (\<forall>e \<in> set ?rs. e = nil)"
    have "task_error (fns ! k) = nil" if "k < length fns" for k
    proof -
      from that assms(1) obtain i where "i < length runs" "fst (runs ! i) = k"
        by (metis in_set_conv_nth length_map lessThan_iff nth_map)
      with nil at [of i] len show ?thesis by (metis nth_mem)
    qed
    with nil show ?thesis by (auto simp: in_set_conv_nth)
  next
    assume "\<exists>i < length ?rs. first_error ?rs = ?rs ! i \<and> ?rs ! i \<noteq> nil \<and> (\<forall>j < i. ?rs ! j = nil)"
    then obtain i where i: "i < length runs" "first_error ?rs = ?rs ! i" "?rs ! i \<noteq> nil" "\<forall>j < i. ?rs ! j = nil" using len by auto
    have "snd (runs ! i) = nil"
    proof (rule ccontr)
      assume "snd (runs ! i) \<noteq> nil"
      from assms(2) [OF i(1) this] i(4) show False by auto
    qed
    then have "?rs ! i = task_error (fns ! fst (runs ! i))" by (subst at [OF i(1)]) simp
    moreover have "fns ! fst (runs ! i) \<in> set fns" using idx [OF i(1)] by simp
    ultimately show ?thesis using i(2, 3) by metis
  qed
qed

text \<open>
  C19: \<open>Wait\<close> reports the cause. While the parent context is alive, whatever the order in which the tasks of
  a group run, \<open>Wait\<close> returns nil exactly when no accepted task failed or panicked; otherwise it returns
  the error of an accepted task itself, or the \<open>PanicError\<close> of one that panicked, and never the
  cancellation error of a task that was skipped because of it.
\<close>

theorem Wait_reports_cause:
  assumes "errgroup_laws lib tasks" and "eg_calls lib (eg_New lib ctx opts) cs = (g, fns)"
  shows "(snd (eg_Wait lib g) = nil \<longleftrightarrow> (\<forall>fn \<in> set fns. task_error fn = nil))
     \<and> (snd (eg_Wait lib g) \<noteq> nil \<longrightarrow> (\<exists>fn \<in> set fns. snd (eg_Wait lib g) = task_error fn))"
proof -
  have "tasks (eg_eg (eg_New lib ctx opts)) = []"
    by (simp add: eg_New_def Let_def case_prod_unfold laws_tasks [OF assms(1)])
  with eg_calls_tasks [OF assms(1), of "eg_New lib ctx opts" cs] assms(2) have ts: "tasks (eg_eg g) = map adapted fns" by simp
  from assms(1) obtain runs where runs: "distinct (map fst runs)" "set (map fst runs) = {..<length fns}"
      "snd (lib_Wait lib (eg_eg g)) = first_error (returned_errors (map adapted fns) runs)"
      "\<And>i. i < length runs \<Longrightarrow> snd (runs ! i) \<noteq> nil \<Longrightarrow> \<exists>j < i. returned_errors (map adapted fns) runs ! j \<noteq> nil"
    unfolding errgroup_laws_def by (metis (no_types, lifting) ts length_map)
  have "snd (eg_Wait lib g) = first_error (returned_errors (map adapted fns) runs)"
    using runs(3) by (simp add: eg_Wait_def case_prod_unfold)
  with group_outcome [OF runs(2, 4)] show ?thesis by auto
qed

text \<open>
  An upstream group that runs its tasks one after the other when \<open>Wait\<close> is called, for the sample.
\<close>

definition seq_step :: "(nat \<times> eg_task) \<Rightarrow> error \<times> (nat \<times> error) list \<Rightarrow> error \<times> (nat \<times> error) list" where
  "seq_step t s = (let c = map_option (\<lambda>_. context_Canceled) (fst s)
                   in (if fst s = nil then snd t c else fst s, snd s @ [(fst t, c)]))"

definition seq_lib :: "(eg_task list, unit) errgroup_lib" where
  "seq_lib =
     \<lparr>lib_WithContext = (\<lambda>ctx. ([], ctx)), lib_SetLimit = (\<lambda>_ g. g), lib_Go = (\<lambda>f g. g @ [f]),
      lib_TryGo = (\<lambda>f g. if length g < 2 then (g @ [f], True) else (g, False)),
      lib_Wait = (\<lambda>g. (g, fst (fold seq_step (enumerate 0 g) (nil, []))))\<rparr>"

definition seq_ok :: "eg_task list \<Rightarrow> error \<times> (nat \<times> error) list \<Rightarrow> bool" where
  "seq_ok ts s \<longleftrightarrow>
     fst s = first_error (returned_errors ts (snd s))
     \<and> (\<forall>i < length (snd s). snd (snd s ! i) \<noteq> nil \<longrightarrow> (\<exists>j < i. returned_errors ts (snd s) ! j \<noteq> nil))"

lemma first_error_append: "first_error (es @ fs) = (if first_error es = nil then first_error fs else first_error es)"
  by (induction es) auto

lemma returned_errors_append: "returned_errors ts (rs @ qs) = returned_errors ts rs @ returned_errors ts qs"
  by (simp add: returned_errors_def)

lemma first_error_some: "first_error es \<noteq> nil \<Longrightarrow> \<exists>j < length es. es ! j \<noteq> nil"
  using first_error_cases [of es] by auto

lemma seq_ok_step:
  assumes "seq_ok ts s" and "snd t = ts ! fst t"
  shows "seq_ok ts (seq_step t s)"
proof -
  let ?c = "map_option (\<lambda>_. context_Canceled) (fst s)"
  have step: "snd (seq_step t s) = snd s @ [(fst t, ?c)]" by (simp add: seq_step_def Let_def)
  have "fst (seq_step t s) = first_error (returned_errors ts (snd (seq_step t s)))"
    using assms by (auto simp: seq_ok_def seq_step_def Let_def returned_errors_append first_error_append)
      (simp add: returned_errors_def)
  moreover have "\<exists>j < i. returned_errors ts (snd s @ [(fst t, ?c)]) ! j \<noteq> nil"
    if i: "i < length (snd s @ [(fst t, ?c)])" "snd ((snd s @ [(fst t, ?c)]) ! i) \<noteq> nil" for i
  proof (cases "i < length (snd s)")
    case True
    with i assms(1) obtain j where "j < i" "returned_errors ts (snd s) ! j \<noteq> nil" by (auto simp: seq_ok_def nth_append)
    with True show ?thesis by (intro exI [of _ j]) (auto simp: returned_errors_def nth_append)
  next
    case False
    with i have "i = length (snd s)" "fst s \<noteq> nil" by (auto simp: nth_append less_Suc_eq)
    with assms(1) first_error_some [of "returned_errors ts (snd s)"]
    obtain j where "j < length (snd s)" "returned_errors ts (snd s) ! j \<noteq> nil"
      by (auto simp: seq_ok_def returned_errors_def)
    with \<open>i = length (snd s)\<close> show ?thesis
      by (intro exI [of _ j]) (simp add: returned_errors_append nth_append returned_errors_def)
  qed
  ultimately show ?thesis unfolding seq_ok_def step by simp
qed

lemma seq_ok_fold: "\<forall>t \<in> set ps. snd t = ts ! fst t \<Longrightarrow> seq_ok ts s \<Longrightarrow>
    seq_ok ts (fold seq_step ps s) \<and> map fst (snd (fold seq_step ps s)) = map fst (snd s) @ map fst ps"
  by (induction ps arbitrary: s) (simp_all add: seq_ok_step, simp add: seq_step_def Let_def)

lemma seq_lib_laws: "errgroup_laws seq_lib id"
proof -
  have "\<exists>runs. distinct (map fst runs) \<and> set (map fst runs) = {..<length g}
      \<and> fst (fold seq_step (enumerate 0 g) (nil, [])) = first_error (returned_errors g runs)
      \<and> (\<forall>i < length runs. snd (runs ! i) \<noteq> nil \<longrightarrow> (\<exists>j < i. returned_errors g runs ! j \<noteq> nil))" for g
  proof (rule exI [of _ "snd (fold seq_step (enumerate 0 g) (nil, []))"])
    have "\<forall>t \<in> set (enumerate 0 g). snd t = g ! fst t" by (auto simp: in_set_enumerate_eq)
    from seq_ok_fold [OF this, of "(nil, [])"]
    show "distinct (map fst (snd (fold seq_step (enumerate 0 g) (nil, []))))
        \<and> set (map fst (snd (fold seq_step (enumerate 0 g) (nil, [])))) = {..<length g}
        \<and> fst (fold seq_step (enumerate 0 g) (nil, [])) = first_error (returned_errors g (snd (fold seq_step (enumerate 0 g) (nil, []))))
        \<and> (\<forall>i < length (snd (fold seq_step (enumerate 0 g) (nil, []))). snd (snd (fold seq_step (enumerate 0 g) (nil, [])) ! i) \<noteq> nil \<longrightarrow>
             (\<exists>j < i. returned_errors g (snd (fold seq_step (enumerate 0 g) (nil, []))) ! j \<noteq> nil))"
      by (simp add: seq_ok_def returned_errors_def lessThan_atLeast0)
  qed
  then show ?thesis by (simp add: errgroup_laws_def seq_lib_def)
qed

text \<open>Three tasks: one succeeds, one panics, and one is not accepted.\<close>

theorem Wait_reports_cause_witness:
  "snd (eg_Wait seq_lib (fst (eg_calls seq_lib (eg_New seq_lib () [])
     [CallGo (Returned nil), CallTryGo (Panicked (PVal (VInt 7))), CallTryGo (Returned (Some context_Canceled))])))
   = Some (PanicError (PVal (VInt 7)))"
proof -
  let ?cs = "[CallGo (Returned nil), CallTryGo (Panicked (PVal (VInt 7))), CallTryGo (Returned (Some context_Canceled))]"
  obtain g where g: "eg_calls seq_lib (eg_New seq_lib () []) ?cs = (g, [Returned nil, Panicked (PVal (VInt 7))])"
    by (simp add: eg_New_def eg_Go_def eg_TryGo_def seq_lib_def Let_def DefaultMaxConcurrency_def)
  from Wait_reports_cause [OF seq_lib_laws g] g show ?thesis by (auto simp: task_error_def)
qed

end
