(* ===== verification/Identity.thy ===== *)
theory Identity
  imports Go_Net
begin

text \<open>
  Package \<open>identity\<close>: the service identity resolved from environment variables, the
  linker stamp and the build information, and its rendering as resource attributes.
  The environment is the lookup function; the linker stamp \<open>version\<close> and the result of
  \<open>debug.ReadBuildInfo\<close> are arguments.
\<close>

definition nameKey :: string where "nameKey = ''service.name''"
definition versionKey :: string where "versionKey = ''service.version''"
definition environmentKey :: string where "environmentKey = ''deployment.environment.name''"
definition legacyEnvironmentKey :: string where "legacyEnvironmentKey = ''deployment.environment''"

definition placeholderName :: string where "placeholderName = ''app''"
definition fallbackVersion :: string where "fallbackVersion = ''dev''"

lemmas identity_keys [simp] =
  nameKey_def versionKey_def environmentKey_def legacyEnvironmentKey_def
  placeholderName_def fallbackVersion_def

definition ErrName :: gerr where
  "ErrName = sentinel_error ''identity.ErrName'' ''identity: service name is required''"

record info =
  Name :: string
  Version :: string
  Environment :: string

subsection \<open>Build information\<close>

text \<open>The main module version recorded in the binary; \<^term>\<open>None\<close> when there is no build information.\<close>

definition versionFromBuildInfo :: "string option \<Rightarrow> string" where
  "versionFromBuildInfo info =
     (case info of None \<Rightarrow> '''' | Some v \<Rightarrow> if v = '''' \<or> v = ''(devel)'' then '''' else v)"

subsection \<open>Resolution\<close>

fun first :: "string list \<Rightarrow> string" where
  "first [] = ''''"
| "first (v # vs) = (if v \<noteq> '''' then v else first vs)"

text \<open>One pair of \<open>OTEL_RESOURCE_ATTRIBUTES\<close>, added to the attributes read so far.\<close>

definition add_attribute :: "(string \<rightharpoonup> string) \<Rightarrow> string \<Rightarrow> (string \<rightharpoonup> string)" where
  "add_attribute attributes pair =
     (let (key, raw, ok) = cut CHR ''='' pair in
      if \<not> ok then attributes
      else let key' = trim_space key; raw' = trim_space raw in
        attributes(key' \<mapsto> (case path_unescape raw' of Some decoded \<Rightarrow> decoded | None \<Rightarrow> raw')))"

definition resourceAttributes :: "string \<Rightarrow> (string \<rightharpoonup> string)" where
  "resourceAttributes value =
     (if value = '''' then Map.empty
      else foldl add_attribute Map.empty (split_on CHR '','' value))"

text \<open>Indexing a map yields the zero value for a missing key.\<close>

definition get_or_empty :: "(string \<rightharpoonup> string) \<Rightarrow> string \<Rightarrow> string" where
  "get_or_empty m k = (case m k of None \<Rightarrow> '''' | Some v \<Rightarrow> v)"

definition Resolve :: "string \<Rightarrow> string option \<Rightarrow> (string \<rightharpoonup> string) \<Rightarrow> info" where
  "Resolve version buildInfo lookup =
     (let get = (\<lambda>key. trim_space (get_or_empty lookup key));
          attributes = get_or_empty (resourceAttributes (get ''OTEL_RESOURCE_ATTRIBUTES''))
      in \<lparr>Name = first [get ''APP_NAME'', get ''OTEL_SERVICE_NAME'', attributes nameKey, placeholderName],
          Version = first [get ''APP_VERSION'', version, attributes versionKey,
                           versionFromBuildInfo buildInfo, fallbackVersion],
          Environment = first [get ''APP_ENV'', attributes environmentKey, attributes legacyEnvironmentKey]\<rparr>)"

definition Validate :: "info \<Rightarrow> error" where
  "Validate i = (if trim_space (Name i) = '''' then Some ErrName else nil)"

definition Attributes :: "info \<Rightarrow> (string \<rightharpoonup> string)" where
  "Attributes i =
     (let a0 = [nameKey \<mapsto> trim_space (Name i)];
          v = trim_space (Version i);
          a1 = (if v \<noteq> '''' then a0(versionKey \<mapsto> v) else a0);
          e = trim_space (Environment i)
      in if e \<noteq> '''' then a1(environmentKey \<mapsto> e) else a1)"

definition Placeholder :: info where
  "Placeholder = \<lparr>Name = placeholderName, Version = fallbackVersion, Environment = ''''\<rparr>"

subsection \<open>Properties\<close>

lemma first_in: "first vs = '''' \<or> first vs \<in> set vs"
  by (induction vs) auto

lemma first_empty_iff: "first vs = '''' \<longleftrightarrow> (\<forall>v \<in> set vs. v = '''')"
  by (induction vs) auto

lemma trim_app: "trim_space ''app'' = ''app''"
  by (simp add: trim_space_def trim_left_def trim_right_def strip_seqs.simps space_seqs_def)

text \<open>The reading of one pair, as a specification of the parser.\<close>

definition parse_pair :: "string \<Rightarrow> (string \<times> string) option" where
  "parse_pair p =
     (if CHR ''='' \<in> set p then
        (let r = trim_space (fst (snd (cut CHR ''='' p))) in
         Some (trim_space (fst (cut CHR ''='' p)), case path_unescape r of Some d \<Rightarrow> d | None \<Rightarrow> r))
      else None)"

lemma add_attribute_parse:
  "add_attribute m p = (case parse_pair p of None \<Rightarrow> m | Some (k, v) \<Rightarrow> m(k \<mapsto> v))"
  by (simp add: add_attribute_def parse_pair_def cut_def Let_def)

lemma foldl_add_attribute:
  "foldl add_attribute m ps = m ++ map_of (rev (List.map_filter parse_pair ps))"
proof (induction ps arbitrary: m)
  case Nil
  then show ?case by (simp add: List.map_filter_def)
next
  case (Cons p ps)
  then show ?case
    by (cases "parse_pair p") (auto simp: add_attribute_parse List.map_filter_def map_add_def
        fun_eq_iff split: option.split)
qed

text \<open>The \<open>get\<close> and \<open>attributes\<close> of \<open>Resolve\<close>, named for the statements below.\<close>

abbreviation env_var :: "(string \<rightharpoonup> string) \<Rightarrow> string \<Rightarrow> string" where
  "env_var lookup key \<equiv> trim_space (get_or_empty lookup key)"

abbreviation env_attribute :: "(string \<rightharpoonup> string) \<Rightarrow> string \<Rightarrow> string" where
  "env_attribute lookup key \<equiv>
     get_or_empty (resourceAttributes (env_var lookup ''OTEL_RESOURCE_ATTRIBUTES'')) key"

text \<open>
  The identity that \<open>Resolve\<close> returns passes \<open>Validate\<close> in every environment but
  one kind: no \<open>APP_NAME\<close>, no \<open>OTEL_SERVICE_NAME\<close>, and a \<open>service.name\<close> resource
  attribute that is not empty but decodes to white space only.
\<close>

theorem Resolve_valid_iff:
  "Validate (Resolve version buildInfo lookup) = nil \<longleftrightarrow>
     \<not> (env_var lookup ''APP_NAME'' = '''' \<and> env_var lookup ''OTEL_SERVICE_NAME'' = ''''
        \<and> env_attribute lookup nameKey \<noteq> '''' \<and> trim_space (env_attribute lookup nameKey) = '''')"
proof -
  have trimmed: "trim_space (env_var lookup k) = '''' \<longleftrightarrow> env_var lookup k = ''''" for k
    by simp
  show ?thesis
    by (auto simp: Validate_def Resolve_def Let_def trim_app simp del: trim_space_idem
        dest: trimmed [THEN iffD1])
qed

text \<open>
  Such an environment exists: a percent-encoded blank in \<open>OTEL_RESOURCE_ATTRIBUTES\<close>
  is trimmed before it is decoded, so \<open>Resolve\<close> returns a blank name instead of the
  placeholder, and \<open>Validate\<close> rejects it.
\<close>

theorem Resolve_blank_name:
  "Validate (Resolve '''' None [''OTEL_RESOURCE_ATTRIBUTES'' \<mapsto> ''service.name=%20'']) = Some ErrName"
proof -
  have trim: "trim_space ''service.name=%20'' = ''service.name=%20''"
    "trim_space ''service.name'' = ''service.name''" "trim_space ''%20'' = ''%20''"
    "trim_space '' '' = ''''"
    by (simp_all add: trim_space_def trim_left_def trim_right_def strip_seqs.simps space_seqs_def)
  have "char_of (32 :: nat) = CHR '' ''" by code_simp
  then have "resourceAttributes ''service.name=%20'' = [''service.name'' \<mapsto> '' '']"
    by (simp add: resourceAttributes_def add_attribute_def cut_def trim)
  then show ?thesis
    by (simp add: Validate_def Resolve_def get_or_empty_def trim)
qed

definition render_attributes :: "(string \<times> string) list \<Rightarrow> string" where
  "render_attributes ps = join_with '','' (map (\<lambda>(k, v). k @ ''='' @ v) ps)"

text \<open>A key or value that needs no escaping and no trimming.\<close>

definition plain_attribute :: "string \<times> string \<Rightarrow> bool" where
  "plain_attribute kv =
     (trim_space (fst kv) = fst kv \<and> trim_space (snd kv) = snd kv
      \<and> set (fst kv) \<inter> {CHR '','', CHR ''=''} = {} \<and> set (snd kv) \<inter> {CHR '','', CHR ''%''} = {})"

lemma parse_pair_plain:
  "plain_attribute kv \<Longrightarrow> parse_pair (fst kv @ CHR ''='' # snd kv) = Some kv"
  by (cases kv) (simp add: plain_attribute_def parse_pair_def)

lemma map_filter_render:
  "list_all plain_attribute ps \<Longrightarrow>
     List.map_filter parse_pair (map (\<lambda>(k, v). k @ CHR ''='' # v) ps) = ps"
  using parse_pair_plain by (induction ps) (auto simp: List.map_filter_def)

text \<open>
  \<open>resourceAttributes\<close> reads back every list of plain key-value pairs rendered in
  the \<open>OTEL_RESOURCE_ATTRIBUTES\<close> format, and a later duplicate of a key overrides an
  earlier one.
\<close>

theorem resourceAttributes_render:
  assumes "list_all plain_attribute ps" and "ps \<noteq> []"
  shows "resourceAttributes (render_attributes ps) = map_of (rev ps)"
proof -
  let ?ws = "map (\<lambda>(k, v). k @ ''='' @ v) ps"
  have "\<forall>w \<in> set ?ws. CHR '','' \<notin> set w"
    using assms(1) by (auto simp: list_all_iff plain_attribute_def)
  with assms(2) have split: "split_on CHR '','' (render_attributes ps) = ?ws"
    by (simp add: render_attributes_def)
  have "render_attributes ps \<noteq> ''''"
    using split assms(2) by (cases ps) auto
  then show ?thesis
    by (simp add: resourceAttributes_def split foldl_add_attribute map_filter_render [OF assms(1)])
qed

theorem resourceAttributes_render_witness:
  "resourceAttributes (render_attributes [(''a'', ''1''), (''b'', ''2''), (''a'', ''3'')]) ''a'' = Some ''3''"
proof -
  have "trim_space ''a'' = ''a''" "trim_space ''b'' = ''b''" "trim_space ''1'' = ''1''"
    "trim_space ''2'' = ''2''" "trim_space ''3'' = ''3''"
    by (simp_all add: trim_space_def trim_left_def trim_right_def strip_seqs.simps space_seqs_def)
  then have "list_all plain_attribute [(''a'', ''1''), (''b'', ''2''), (''a'', ''3'')]"
    by (simp add: plain_attribute_def)
  then show ?thesis using resourceAttributes_render by simp
qed

end
