(* ===== verification/Telemetry.thy ===== *)
theory Telemetry
  imports Go_Errors
begin

text \<open>
  The observable telemetry of the instrumented components, as a list of events in the
  order the code emits them. The OTel SDK, the metrics and tracer clients and the log
  handler are not modelled beyond the calls made to them. Attribute keys are the names
  of the OpenTelemetry semantic conventions the code takes from \<open>semconv/v1.43.0\<close>.
  The sum of the code's timings never influences control flow, so a recorded duration
  carries no value here.
\<close>

type_synonym attrs = "string \<rightharpoonup> anyval"

datatype level = LInfo | LWarn | LError

datatype event =
    SpanStart string attrs
  | SpanAttrs attrs
  | SpanStatusError string
  | SpanEvent string attrs
  | SpanEnd
  | MetricRecord string attrs
  | MetricAdd string int attrs
  | Log level string

text \<open>\<open>withAttrs(base, extra)\<close>: a copy of \<open>base\<close> with \<open>extra\<close> added.\<close>

definition withAttrs :: "attrs \<Rightarrow> attrs \<Rightarrow> attrs" where
  "withAttrs base extra = base ++ extra"

definition opt_attr :: "bool \<Rightarrow> string \<Rightarrow> anyval \<Rightarrow> attrs \<Rightarrow> attrs" where
  "opt_attr b k v a = (if b then a(k \<mapsto> v) else a)"

definition is_start :: "event \<Rightarrow> bool" where
  "is_start e = (case e of SpanStart _ _ \<Rightarrow> True | _ \<Rightarrow> False)"

definition is_end :: "event \<Rightarrow> bool" where
  "is_end e = (case e of SpanEnd \<Rightarrow> True | _ \<Rightarrow> False)"

text \<open>The number of spans opened, of spans ended, and of metric samples in a trace.\<close>

definition spans_opened :: "event list \<Rightarrow> nat" where
  "spans_opened es = length (filter is_start es)"

definition spans_ended :: "event list \<Rightarrow> nat" where
  "spans_ended es = length (filter is_end es)"

definition recorded :: "string \<Rightarrow> event list \<Rightarrow> nat" where
  "recorded name es =
     length (filter (\<lambda>e. case e of MetricRecord n _ \<Rightarrow> n = name | _ \<Rightarrow> False) es)"

definition added :: "string \<Rightarrow> event list \<Rightarrow> nat" where
  "added name es =
     length (filter (\<lambda>e. case e of MetricAdd n _ _ \<Rightarrow> n = name | _ \<Rightarrow> False) es)"

lemmas trace_defs = spans_opened_def spans_ended_def recorded_def added_def is_start_def is_end_def

lemma trace_counts_append [simp]:
  "spans_opened (xs @ ys) = spans_opened xs + spans_opened ys"
  "spans_ended (xs @ ys) = spans_ended xs + spans_ended ys"
  "recorded n (xs @ ys) = recorded n xs + recorded n ys"
  "added n (xs @ ys) = added n xs + added n ys"
  by (simp_all add: trace_defs)

lemma trace_counts_Nil [simp]:
  "spans_opened [] = 0" "spans_ended [] = 0" "recorded n [] = 0" "added n [] = 0"
  by (simp_all add: trace_defs)

lemma trace_counts_Cons [simp]:
  "spans_opened (e # es) = (if is_start e then 1 else 0) + spans_opened es"
  "spans_ended (e # es) = (if is_end e then 1 else 0) + spans_ended es"
  "recorded n (e # es) = (case e of MetricRecord m _ \<Rightarrow> if m = n then 1 else 0 | _ \<Rightarrow> 0) + recorded n es"
  "added n (e # es) = (case e of MetricAdd m _ _ \<Rightarrow> if m = n then 1 else 0 | _ \<Rightarrow> 0) + added n es"
  by (simp_all add: trace_defs split: event.split)

lemma is_start_simps [simp]:
  "is_start (SpanStart n a)" "\<not> is_start (SpanAttrs a)" "\<not> is_start (SpanStatusError s)"
  "\<not> is_start (SpanEvent n a)" "\<not> is_start SpanEnd" "\<not> is_start (MetricRecord n a)"
  "\<not> is_start (MetricAdd n i a)" "\<not> is_start (Log l s)"
  by (simp_all add: is_start_def)

lemma is_end_simps [simp]:
  "\<not> is_end (SpanStart n a)" "\<not> is_end (SpanAttrs a)" "\<not> is_end (SpanStatusError s)"
  "\<not> is_end (SpanEvent n a)" "is_end SpanEnd" "\<not> is_end (MetricRecord n a)"
  "\<not> is_end (MetricAdd n i a)" "\<not> is_end (Log l s)"
  by (simp_all add: is_end_def)

end
