(* ===== verification/Lifecycle.thy ===== *)
theory Lifecycle
  imports Go_Errors
begin

text \<open>
  The contract the NATS producer and the NATS consumer share: register, then start, then
  shut down, and start again. The operations of the client are the parameters of the
  locale \<open>lifecycle\<close>, what each promises its assumptions; the facts about whole call
  sequences are proved once and used through the interpretations of both packages.
\<close>

text \<open>A call sequence: what is registered, and the environment each start and shutdown meets.\<close>

datatype ('r, 'e, 'd) lc_call = LcRegister 'r | LcStart 'e | LcShutdown 'd

fun lc_run ::
  "('r \<Rightarrow> 's \<Rightarrow> 's \<times> error) \<Rightarrow> ('e \<Rightarrow> 's \<Rightarrow> 's \<times> error) \<Rightarrow> ('d \<Rightarrow> 's \<Rightarrow> 's \<times> error)
   \<Rightarrow> ('r, 'e, 'd) lc_call list \<Rightarrow> 's \<Rightarrow> 's" where
  "lc_run reg st sh [] s = s"
| "lc_run reg st sh (LcRegister r # cs) s = lc_run reg st sh cs (fst (reg r s))"
| "lc_run reg st sh (LcStart e # cs) s = lc_run reg st sh cs (fst (st e s))"
| "lc_run reg st sh (LcShutdown d # cs) s = lc_run reg st sh cs (fst (sh d s))"

locale lifecycle =
  fixes started :: "'s \<Rightarrow> bool"
    and registered :: "'s \<Rightarrow> string set"
    and register :: "'r \<Rightarrow> 's \<Rightarrow> 's \<times> error"
    and start :: "'e \<Rightarrow> 's \<Rightarrow> 's \<times> error"
    and shutdown :: "'d \<Rightarrow> 's \<Rightarrow> 's \<times> error"
  assumes register_frozen: "started s \<Longrightarrow> fst (register r s) = s \<and> snd (register r s) \<noteq> nil"
    and register_failed: "snd (register r s) \<noteq> nil \<Longrightarrow> fst (register r s) = s"
    and register_adds: "registered s \<subseteq> registered (fst (register r s))"
    and register_not_started: "\<not> started s \<Longrightarrow> \<not> started (fst (register r s))"
    and start_idem: "started s \<Longrightarrow> start e s = (s, nil)"
    and start_ok: "snd (start e s) = nil \<Longrightarrow> started (fst (start e s))"
    and start_failed: "snd (start e s) \<noteq> nil \<Longrightarrow> fst (start e s) = s"
    and start_registered: "registered (fst (start e s)) = registered s"
    and shutdown_idem: "\<not> started s \<Longrightarrow> shutdown d s = (s, nil)"
    and shutdown_stops: "\<not> started (fst (shutdown d s))"
    and shutdown_registered: "registered (fst (shutdown d s)) = registered s"
begin

text \<open>No call sequence ever forgets a registration.\<close>

lemma run_keeps_registered: "registered s \<subseteq> registered (lc_run register start shutdown cs s)"
proof (induction cs arbitrary: s)
  case Nil
  then show ?case by simp
next
  case (Cons c cs)
  then show ?case
    using register_adds start_registered shutdown_registered by (cases c) force+
qed

text \<open>While started, and until a shutdown, the set of registrations is frozen.\<close>

lemma run_frozen:
  assumes "started s" and "\<forall>d. LcShutdown d \<notin> set cs"
  shows "lc_run register start shutdown cs s = s"
  using assms
proof (induction cs)
  case Nil
  then show ?case by simp
next
  case (Cons c cs)
  then show ?case using register_frozen start_idem by (cases c) auto
qed

text \<open>A shutdown followed by shutdowns changes nothing more.\<close>

lemma shutdown_twice: "shutdown d' (fst (shutdown d s)) = (fst (shutdown d s), nil)"
  by (rule shutdown_idem) (rule shutdown_stops)

text \<open>A failed start leaves a state from which the same calls behave as before.\<close>

lemma start_retry: "snd (start e s) \<noteq> nil \<Longrightarrow> start e' (fst (start e s)) = start e' s"
  by (simp add: start_failed)

end

end
