(* ===== verification/Wire_Subjects.thy ===== *)
theory Wire_Subjects
  imports Go_Errors
begin

text \<open>
  The JetStream stream layout of package \<open>wire\<close>: the data and schedule subjects of a
  topic, the subject order \<open>covers\<close>, and \<open>PatchStream\<close>. The contract of \<open>covers\<close> is
  the locale \<open>subject_semantics\<close> (one subject covers another exactly when it matches
  everything the other matches); the lemmas on the patch loop are proved once from the
  weaker locale \<open>subject_order\<close>, which it gives as a sublocale, and both are
  interpreted on the code's \<open>covers\<close>.
\<close>

subsection \<open>Subjects of a topic\<close>

definition HeaderKey :: string where "HeaderKey = ''Sdk-Msg-Key''"
definition HeaderTag :: string where "HeaderTag = ''Sdk-Msg-Tag''"

definition DataSubjects :: "string \<Rightarrow> string list" where
  "DataSubjects topic = [topic, topic @ ''.>'']"

definition scheduleWildcard :: "string \<Rightarrow> string" where
  "scheduleWildcard topic = ''schedules.'' @ topic @ ''.>''"

text \<open>\<open>nuid\<close> is the value of \<open>nuid.Next()\<close>.\<close>

definition ScheduleSubject :: "string \<Rightarrow> string \<Rightarrow> string" where
  "ScheduleSubject topic nuid = ''schedules.'' @ topic @ ''.'' @ nuid"

datatype discard_policy = DiscardOld | DiscardNew

text \<open>
  The fields of \<open>jetstream.StreamConfig\<close> that the code reads or writes; the record is
  extensible, and the extension stands for every other field. \<open>Mirror\<close> is a pointer.
\<close>

record stream_config =
  Name :: string
  Subjects :: "string list"
  AllowMsgSchedules :: bool
  DenyPurge :: bool
  Discard :: discard_policy
  Mirror :: "string option"
  Sources :: "string list"
  AllowMsgCounter :: bool

definition StreamConfig :: "string \<Rightarrow> stream_config" where
  "StreamConfig topic =
     \<lparr>Name = topic, Subjects = DataSubjects topic @ [scheduleWildcard topic],
      AllowMsgSchedules = True, DenyPurge = False, Discard = DiscardOld,
      Mirror = None, Sources = [], AllowMsgCounter = False\<rparr>"

subsection \<open>covers\<close>

text \<open>
  The loop of \<open>covers\<close>: \<open>i\<close> is the index, the second argument what is left of the range
  over \<open>w\<close>.
\<close>

fun covers_loop :: "nat \<Rightarrow> string list \<Rightarrow> string list \<Rightarrow> string list \<Rightarrow> bool" where
  "covers_loop i [] w n = (length w = length n)"
| "covers_loop i (tok # toks) w n =
     (if tok = ''>'' then i < length n
      else if i \<ge> length n \<or> n ! i = ''>'' then False
      else if tok \<noteq> ''*'' \<and> tok \<noteq> n ! i then False
      else covers_loop (Suc i) toks w n)"

definition covers :: "string \<Rightarrow> string \<Rightarrow> bool" where
  "covers wide narrow =
     (let w = split_on CHR ''.'' wide; n = split_on CHR ''.'' narrow in covers_loop 0 w w n)"

subsection \<open>PatchStream\<close>

definition scheduleIncompatibility :: "'a stream_config_scheme \<Rightarrow> string" where
  "scheduleIncompatibility cfg =
     (if DenyPurge cfg then ''DenyPurge''
      else if Discard cfg = DiscardNew then ''Discard policy DiscardNew''
      else if Mirror cfg \<noteq> None then ''Mirror''
      else if length (Sources cfg) > 0 then ''Sources''
      else if AllowMsgCounter cfg then ''AllowMsgCounter''
      else '''')"

text \<open>
  The loop over the subjects of the layout, for a covering test \<open>cov\<close>: a covered subject
  is skipped; otherwise the existing subjects it covers are deleted and it is appended.
\<close>

fun merge_subjects :: "('a \<Rightarrow> 'a \<Rightarrow> bool) \<Rightarrow> 'a list \<Rightarrow> 'a list \<Rightarrow> bool \<Rightarrow> 'a list \<times> bool" where
  "merge_subjects cov subjects [] changed = (subjects, changed)"
| "merge_subjects cov subjects (s # ss) changed =
     (if list_ex (\<lambda>e. cov e s) subjects then merge_subjects cov subjects ss changed
      else merge_subjects cov (filter (\<lambda>e. \<not> cov s e) subjects @ [s]) ss True)"

definition PatchStream ::
  "'a stream_config_scheme \<Rightarrow> string \<Rightarrow> 'a stream_config_scheme \<times> bool \<times> error" where
  "PatchStream cfg topic =
     (let bad = scheduleIncompatibility cfg in
      if bad \<noteq> '''' then
        (cfg, False, Some (errorf (''wire: stream '' @ topic @ '': '' @ bad
           @ '' is incompatible with message schedules'') []))
      else
        (let (subjects, changed) =
               merge_subjects covers (Subjects cfg) (Subjects (StreamConfig topic)) False;
             changed' = (changed \<or> \<not> AllowMsgSchedules cfg)
         in (cfg\<lparr>AllowMsgSchedules := True, Subjects := subjects\<rparr>, changed', nil)))"

subsection \<open>The order on subjects\<close>

locale subject_order =
  fixes cov :: "'a \<Rightarrow> 'a \<Rightarrow> bool"
  assumes cov_refl: "cov s s"
    and cov_trans: "cov a b \<Longrightarrow> cov b c \<Longrightarrow> cov a c"
begin

text \<open>Whatever some subject covered before a merge is covered after it.\<close>

lemma step_keeps_cover:
  assumes "\<exists>e \<in> set subs. cov e x"
  shows "\<exists>e \<in> set (filter (\<lambda>e. \<not> cov s e) subs @ [s]). cov e x"
  using assms cov_trans by auto

lemma merge_keeps_cover:
  "\<exists>e \<in> set subs. cov e x \<Longrightarrow> \<exists>e \<in> set (fst (merge_subjects cov subs ss ch)). cov e x"
proof (induction ss arbitrary: subs ch)
  case Nil
  then show ?case by simp
next
  case (Cons s ss)
  then show ?case using step_keeps_cover [of subs x s] by simp
qed

text \<open>Every merged subject is covered afterwards.\<close>

lemma merge_covers_new:
  "s \<in> set ss \<Longrightarrow> \<exists>e \<in> set (fst (merge_subjects cov subs ss ch)). cov e s"
proof (induction ss arbitrary: subs ch)
  case Nil
  then show ?case by simp
next
  case (Cons t ss)
  show ?case
  proof (cases "s = t")
    case True
    then show ?thesis
      by (auto simp: list_ex_iff cov_refl intro!: merge_keeps_cover)
  next
    case False
    with Cons show ?thesis by simp
  qed
qed

lemma merge_stable:
  "\<forall>s \<in> set ss. \<exists>e \<in> set subs. cov e s \<Longrightarrow> merge_subjects cov subs ss ch = (subs, ch)"
  by (induction ss) (auto simp: list_ex_iff)

lemma merge_idem:
  "merge_subjects cov (fst (merge_subjects cov subs ss ch)) ss ch'
     = (fst (merge_subjects cov subs ss ch), ch')"
  by (rule merge_stable) (simp add: merge_covers_new)

lemma merge_changed_True: "snd (merge_subjects cov subs ss True)"
  by (induction ss arbitrary: subs) auto

text \<open>The change flag is exact: it is raised when some merged subject was not covered.\<close>

lemma merge_changed_iff:
  "snd (merge_subjects cov subs ss ch) \<longleftrightarrow> ch \<or> (\<exists>s \<in> set ss. \<forall>e \<in> set subs. \<not> cov e s)"
  by (induction ss) (auto simp: list_ex_iff merge_changed_True)

text \<open>Where nothing that is kept lies below an added subject, nothing new appears either.\<close>

lemma merge_elements: "set (fst (merge_subjects cov subs ss ch)) \<subseteq> set subs \<union> set ss"
proof (induction ss arbitrary: subs ch)
  case Nil
  then show ?case by simp
next
  case (Cons s ss)
  have "set (fst (merge_subjects cov (filter (\<lambda>e. \<not> cov s e) subs @ [s]) ss True))
      \<subseteq> set (filter (\<lambda>e. \<not> cov s e) subs @ [s]) \<union> set ss"
    by (rule Cons.IH)
  with Cons.IH [of subs ch] show ?case by auto
qed

end

text \<open>
  The meaning of a subject is the set of concrete subjects it matches. A covering test
  that is exact for that meaning is an order.
\<close>

locale subject_semantics =
  fixes cov :: "'a \<Rightarrow> 'a \<Rightarrow> bool"
    and matches :: "'a \<Rightarrow> 'm \<Rightarrow> bool"
    and concrete :: "'m \<Rightarrow> bool"
  assumes cov_exact: "cov w n \<longleftrightarrow> (\<forall>m. concrete m \<longrightarrow> matches n m \<longrightarrow> matches w m)"
begin

sublocale subject_order cov
  by unfold_locales (auto simp: cov_exact)

text \<open>A merge loses no message: a concrete subject that matched still matches.\<close>

lemma merge_keeps_matches:
  assumes "concrete m" and "\<exists>e \<in> set subs. matches e m"
  shows "\<exists>e \<in> set (fst (merge_subjects cov subs ss ch)). matches e m"
proof -
  from assms(2) obtain e where e: "e \<in> set subs" "matches e m" by blast
  have "\<exists>d \<in> set (fst (merge_subjects cov subs ss ch)). cov d e"
    by (rule merge_keeps_cover) (use e cov_refl in blast)
  with e assms(1) show ?thesis by (auto simp: cov_exact)
qed

text \<open>It accepts nothing beyond the old subjects and the merged ones.\<close>

lemma merge_matches_only:
  assumes "\<exists>e \<in> set (fst (merge_subjects cov subs ss ch)). matches e m"
  shows "\<exists>e \<in> set subs \<union> set ss. matches e m"
  using assms merge_elements [of subs ss ch] by blast

end

subsection \<open>Matching, token by token\<close>

text \<open>
  The NATS token rules, stated independently of the code: \<open>*\<close> matches one token, \<open>>\<close>
  one or more trailing tokens, and a literal token itself.
\<close>

fun match_tokens :: "string list \<Rightarrow> string list \<Rightarrow> bool" where
  "match_tokens [] s = (s = [])"
| "match_tokens (p # ps) s =
     (if p = ''>'' then s \<noteq> []
      else (case s of [] \<Rightarrow> False | t # ts \<Rightarrow> (p = ''*'' \<or> p = t) \<and> match_tokens ps ts))"

definition tokens :: "string \<Rightarrow> string list" where
  "tokens s = split_on CHR ''.'' s"

definition matches :: "string \<Rightarrow> string \<Rightarrow> bool" where
  "matches pattern subject = match_tokens (tokens pattern) (tokens subject)"

definition concrete :: "string \<Rightarrow> bool" where
  "concrete subject = (\<forall>t \<in> set (tokens subject). t \<noteq> ''*'' \<and> t \<noteq> ''>'')"

text \<open>The recursion that the index loop of \<open>covers\<close> computes.\<close>

fun covers_tokens :: "string list \<Rightarrow> string list \<Rightarrow> bool" where
  "covers_tokens [] n = (n = [])"
| "covers_tokens (w # ws) n =
     (if w = ''>'' then n \<noteq> []
      else (case n of [] \<Rightarrow> False
            | t # ts \<Rightarrow> t \<noteq> ''>'' \<and> (w = ''*'' \<or> w = t) \<and> covers_tokens ws ts))"

lemma covers_loop_tokens:
  "i + length toks = length w \<Longrightarrow> i \<le> length n \<Longrightarrow>
     covers_loop i toks w n \<longleftrightarrow> covers_tokens toks (drop i n)"
proof (induction toks arbitrary: i)
  case Nil
  then show ?case by auto
next
  case (Cons tok toks)
  show ?case
  proof (cases "i < length n")
    case True
    with Cons show ?thesis by (simp add: Cons_nth_drop_Suc [symmetric])
  next
    case False
    with Cons.prems show ?thesis by simp
  qed
qed

lemma covers_tokens_eq: "covers w n \<longleftrightarrow> covers_tokens (tokens w) (tokens n)"
  by (simp add: covers_def covers_loop_tokens tokens_def)

lemma covers_tokens_sound:
  "covers_tokens w n \<Longrightarrow> match_tokens n s \<Longrightarrow>
     \<forall>t \<in> set s. t \<noteq> ''*'' \<and> t \<noteq> ''>'' \<Longrightarrow> match_tokens w s"
proof (induction w n arbitrary: s rule: covers_tokens.induct)
  case (1 n)
  then show ?case by simp
next
  case (2 w ws n)
  show ?case
  proof (cases n)
    case Nil
    with 2 show ?thesis by (simp split: if_splits)
  next
    case (Cons t ts)
    with 2 show ?thesis by (cases s) (auto split: if_splits)
  qed
qed

text \<open>A concrete instance of a pattern: a token unlike \<open>x\<close> for \<open>*\<close>, and \<open>k\<close> extra tokens for \<open>>\<close>.\<close>

fun other_token :: "string \<Rightarrow> string" where
  "other_token x = (if x = ''a'' then ''b'' else ''a'')"

fun instance_of :: "string list \<Rightarrow> nat \<Rightarrow> string list \<Rightarrow> string list" where
  "instance_of [] k w = []"
| "instance_of (p # ps) k w =
     (if p = ''>'' then replicate (Suc k) ''a''
      else (if p = ''*'' then other_token (case w of [] \<Rightarrow> [] | x # _ \<Rightarrow> x) else p)
             # instance_of ps k (tl w))"

lemma instance_matches: "match_tokens n (instance_of n k w)"
  by (induction n k w rule: instance_of.induct) auto

lemma instance_tokens:
  "t \<in> set (instance_of n k w) \<Longrightarrow>
     t \<noteq> ''*'' \<and> t \<noteq> ''>'' \<and> (t \<in> set n \<or> t = ''a'' \<or> t = ''b'')"
  by (induction n k w rule: instance_of.induct) (auto split: if_splits)

lemma match_tokens_Nil_right [simp]: "match_tokens p [] \<longleftrightarrow> p = []"
  by (cases p) auto

lemma covers_tokens_complete:
  "match_tokens w (instance_of n 0 w) \<Longrightarrow> match_tokens w (instance_of n k w) \<Longrightarrow>
     length w \<le> k \<Longrightarrow> covers_tokens w n"
proof (induction w n rule: covers_tokens.induct)
  case (1 n)
  then show ?case by (cases n) (auto split: if_splits)
next
  case (2 x ws n)
  show ?case
  proof (cases n)
    case Nil
    with "2.prems" show ?thesis by (simp split: if_splits)
  next
    case (Cons t ts)
    show ?thesis
    proof (cases "x = ''>''")
      case True
      with Cons show ?thesis by simp
    next
      case False
      with "2.prems" Cons have "t \<noteq> ''>''" by (auto split: if_splits)
      with "2.prems" "2.IH" False Cons show ?thesis by (auto split: if_splits)
    qed
  qed
qed

lemma tokens_join: "ts \<noteq> [] \<Longrightarrow> \<forall>t \<in> set ts. CHR ''.'' \<notin> set t \<Longrightarrow> tokens (join_with ''.'' ts) = ts"
  by (simp add: tokens_def)

lemma tokens_no_dot: "t \<in> set (tokens s) \<Longrightarrow> CHR ''.'' \<notin> set t"
  by (simp add: tokens_def)

lemma covers_complete:
  assumes "\<forall>m. concrete m \<longrightarrow> matches n m \<longrightarrow> matches w m"
  shows "covers w n"
proof -
  have inst: "match_tokens (tokens w) (instance_of (tokens n) k (tokens w))" for k
  proof -
    let ?i = "instance_of (tokens n) k (tokens w)"
    have "?i \<noteq> []" by (cases "tokens n") (auto simp: tokens_def)
    moreover have "\<forall>t \<in> set ?i. CHR ''.'' \<notin> set t"
      using instance_tokens [of _ "tokens n" k "tokens w"] tokens_no_dot by fastforce
    ultimately have toks: "tokens (join_with ''.'' ?i) = ?i" by (rule tokens_join)
    then have "concrete (join_with ''.'' ?i)" "matches n (join_with ''.'' ?i)"
      using instance_tokens by (auto simp: concrete_def matches_def instance_matches)
    with assms toks show ?thesis by (auto simp: matches_def)
  qed
  from covers_tokens_complete [OF inst inst order_refl] show ?thesis
    by (simp add: covers_tokens_eq)
qed

lemma covers_sound: "covers w n \<Longrightarrow> concrete m \<Longrightarrow> matches n m \<Longrightarrow> matches w m"
  unfolding covers_tokens_eq matches_def concrete_def by (rule covers_tokens_sound)

interpretation nats: subject_semantics covers matches concrete
  by unfold_locales (blast intro: covers_sound covers_complete)

subsection \<open>Properties\<close>

text \<open>
  C5: \<open>covers(wide, narrow)\<close> returns true exactly when every concrete subject that
  \<open>narrow\<close> matches under the NATS token rules is also matched by \<open>wide\<close>.
\<close>

theorem covers_iff:
  "covers wide narrow \<longleftrightarrow>
     (\<forall>subject. concrete subject \<and> matches narrow subject \<longrightarrow> matches wide subject)"
  using nats.cov_exact by blast

theorem covers_iff_witness: "covers ''orders.>'' ''orders.*.eu'' \<and> \<not> covers ''orders.*'' ''orders.>''"
proof
  show "covers ''orders.>'' ''orders.*.eu''"
    by (simp add: covers_def)
  have "concrete ''orders.a.b'' \<and> matches ''orders.>'' ''orders.a.b'' \<and> \<not> matches ''orders.*'' ''orders.a.b''"
    by (simp add: concrete_def matches_def tokens_def)
  then show "\<not> covers ''orders.*'' ''orders.>''"
    using covers_iff [of "''orders.*''" "''orders.>''"] by blast
qed

text \<open>What a stream accepts, as the abstract view of its configuration.\<close>

definition stream_accepts :: "'a stream_config_scheme \<Rightarrow> string \<Rightarrow> bool" where
  "stream_accepts cfg subject = (\<exists>e \<in> set (Subjects cfg). matches e subject)"

lemma PatchStream_compatible:
  assumes "scheduleIncompatibility cfg = ''''"
  shows "PatchStream cfg topic =
    (let r = merge_subjects covers (Subjects cfg) (Subjects (StreamConfig topic)) False
     in (cfg\<lparr>AllowMsgSchedules := True, Subjects := fst r\<rparr>,
         snd r \<or> \<not> AllowMsgSchedules cfg, nil))"
  using assms by (simp add: PatchStream_def Let_def split: prod.split)

lemma PatchStream_incompatible:
  assumes "scheduleIncompatibility cfg \<noteq> ''''"
  shows "fst (PatchStream cfg topic) = cfg \<and> \<not> fst (snd (PatchStream cfg topic))
    \<and> snd (snd (PatchStream cfg topic)) \<noteq> nil"
  using assms by (simp add: PatchStream_def Let_def)

lemma scheduleIncompatibility_frame [simp]:
  "scheduleIncompatibility (cfg\<lparr>AllowMsgSchedules := b, Subjects := ss\<rparr>) = scheduleIncompatibility cfg"
  by (simp add: scheduleIncompatibility_def)

lemma PatchStream_error_and_frame_fields:
  "Name (fst (PatchStream cfg topic)) = Name cfg"
  using PatchStream_incompatible [of cfg topic]
  by (cases "scheduleIncompatibility cfg = []") (auto simp: PatchStream_compatible Let_def)

lemma PatchStream_covers:
  assumes "PatchStream cfg topic = (patched, changed, nil)"
    and "s \<in> set (Subjects (StreamConfig topic))"
  shows "\<exists>e \<in> set (Subjects patched). covers e s"
proof -
  from assms have ok: "scheduleIncompatibility cfg = []"
    using PatchStream_incompatible [of cfg topic] by auto
  with assms nats.merge_covers_new [OF assms(2)] show ?thesis
    by (auto simp: PatchStream_compatible [OF ok] Let_def)
qed

lemma PatchStream_fixpoint:
  assumes "PatchStream cfg topic = (patched, changed, nil)"
  shows "PatchStream patched topic = (patched, False, nil)"
proof -
  from assms have ok: "scheduleIncompatibility cfg = []"
    using PatchStream_incompatible [of cfg topic] by auto
  let ?m = "merge_subjects covers (Subjects cfg) (Subjects (StreamConfig topic)) False"
  from assms have patched: "patched = cfg\<lparr>AllowMsgSchedules := True, Subjects := fst ?m\<rparr>"
    by (simp add: PatchStream_compatible [OF ok] Let_def)
  with ok have "scheduleIncompatibility patched = []" by simp
  then show ?thesis
    by (simp add: PatchStream_compatible nats.merge_idem patched Let_def)
qed

lemma merge_covers_changed:
  "snd (merge_subjects covers subs ss False) \<longleftrightarrow> fst (merge_subjects covers subs ss False) \<noteq> subs"
proof
  assume "snd (merge_subjects covers subs ss False)"
  then obtain s where "s \<in> set ss" "\<forall>e \<in> set subs. \<not> covers e s"
    by (auto simp: nats.merge_changed_iff)
  then show "fst (merge_subjects covers subs ss False) \<noteq> subs"
    using nats.merge_covers_new by metis
next
  assume "fst (merge_subjects covers subs ss False) \<noteq> subs"
  then show "snd (merge_subjects covers subs ss False)"
    using nats.merge_stable by (force simp: nats.merge_changed_iff)
qed

lemma PatchStream_unchanged:
  "PatchStream cfg topic = (patched, changed, err) \<Longrightarrow> changed \<longleftrightarrow> patched \<noteq> cfg"
proof (cases "scheduleIncompatibility cfg = []")
  case True
  assume "PatchStream cfg topic = (patched, changed, err)"
  moreover have "cfg\<lparr>AllowMsgSchedules := True, Subjects := x\<rparr> = cfg \<longleftrightarrow>
      AllowMsgSchedules cfg \<and> x = Subjects cfg" for x
    by (cases cfg) auto
  ultimately show ?thesis
    by (auto simp: PatchStream_compatible [OF True] Let_def merge_covers_changed)
next
  case False
  assume "PatchStream cfg topic = (patched, changed, err)"
  then show ?thesis using PatchStream_incompatible [OF False, of topic] by auto
qed

text \<open>
  C14: on a stream that can take message schedules, \<open>PatchStream\<close> returns a
  configuration that accepts exactly what the stream accepted before or what the SDK
  layout of the topic accepts: no existing subject is lost and nothing else is added.
\<close>

theorem PatchStream_accepts:
  assumes "scheduleIncompatibility cfg = ''''" and "concrete subject"
  shows "stream_accepts (fst (PatchStream cfg topic)) subject \<longleftrightarrow>
    stream_accepts cfg subject \<or> stream_accepts (StreamConfig topic) subject"
proof -
  let ?new = "fst (merge_subjects covers (Subjects cfg) (Subjects (StreamConfig topic)) False)"
  have "\<exists>e \<in> set ?new. covers e s" if "s \<in> set (Subjects (StreamConfig topic))" for s
    using nats.merge_covers_new that by blast
  then have "stream_accepts (StreamConfig topic) subject \<Longrightarrow> \<exists>e \<in> set ?new. matches e subject"
    unfolding stream_accepts_def using assms(2) covers_sound by blast
  moreover have "stream_accepts cfg subject \<Longrightarrow> \<exists>e \<in> set ?new. matches e subject"
    unfolding stream_accepts_def using assms(2) nats.merge_keeps_matches by blast
  moreover have "\<exists>e \<in> set ?new. matches e subject \<Longrightarrow>
      stream_accepts cfg subject \<or> stream_accepts (StreamConfig topic) subject"
    unfolding stream_accepts_def using nats.merge_matches_only by blast
  ultimately show ?thesis
    by (auto simp: PatchStream_compatible [OF assms(1)] Let_def stream_accepts_def)
qed

theorem PatchStream_accepts_witness:
  "\<exists>cfg :: stream_config. scheduleIncompatibility cfg = '''' \<and> concrete ''orders.eu'' \<and>
     stream_accepts (fst (PatchStream cfg ''orders'')) ''orders.eu''"
proof -
  let ?cfg = "(StreamConfig ''orders'')\<lparr>Subjects := [''orders.eu'']\<rparr>"
  have "scheduleIncompatibility ?cfg = ''''" "concrete ''orders.eu''" "stream_accepts ?cfg ''orders.eu''"
    by (simp_all add: scheduleIncompatibility_def StreamConfig_def concrete_def tokens_def
        stream_accepts_def matches_def)
  then show ?thesis using PatchStream_accepts [of ?cfg "''orders.eu''" "''orders''"] by blast
qed

text \<open>
  A patched configuration is a fixed point: patching it again for the same topic
  returns it unchanged, reports no change and no error.
\<close>

theorem PatchStream_idempotent:
  assumes "PatchStream cfg topic = (patched, changed, nil)"
  shows "PatchStream patched topic = (patched, False, nil)"
  using assms by (rule PatchStream_fixpoint)

theorem PatchStream_idempotent_witness:
  "PatchStream (StreamConfig ''t'') ''t'' = (StreamConfig ''t'', False, nil)"
proof -
  have "PatchStream ((StreamConfig ''t'')\<lparr>Subjects := [''t'']\<rparr>) ''t'' = (StreamConfig ''t'', True, nil)"
    by (simp add: PatchStream_def scheduleIncompatibility_def StreamConfig_def DataSubjects_def
        scheduleWildcard_def covers_def)
  then show ?thesis by (rule PatchStream_idempotent)
qed

text \<open>
  The boolean of \<open>PatchStream\<close> is exact: it is true when, and only when, the
  returned configuration differs from the given one, so an unchanged stream is never
  updated on the server and a changed one always is.
\<close>

theorem PatchStream_changed_iff:
  "fst (snd (PatchStream cfg topic)) \<longleftrightarrow> fst (PatchStream cfg topic) \<noteq> cfg"
  using PatchStream_unchanged [of cfg topic] by (cases "PatchStream cfg topic") auto

text \<open>
  \<open>PatchStream\<close> fails exactly on the five settings the server rejects together with
  message schedules, and on every branch it writes no field but \<open>Subjects\<close> and
  \<open>AllowMsgSchedules\<close>.
\<close>

theorem PatchStream_error_and_frame:
  "(snd (snd (PatchStream cfg topic)) \<noteq> nil \<longleftrightarrow>
      DenyPurge cfg \<or> Discard cfg = DiscardNew \<or> Mirror cfg \<noteq> None \<or> Sources cfg \<noteq> [] \<or> AllowMsgCounter cfg)
   \<and> (fst (PatchStream cfg topic))\<lparr>Subjects := Subjects cfg, AllowMsgSchedules := AllowMsgSchedules cfg\<rparr> = cfg"
proof (cases "scheduleIncompatibility cfg = ''''")
  case True
  then show ?thesis
    by (auto simp: PatchStream_compatible [OF True] Let_def scheduleIncompatibility_def split: if_splits)
next
  case False
  then show ?thesis using PatchStream_incompatible [of cfg topic]
    by (auto simp: scheduleIncompatibility_def split: if_splits)
qed

text \<open>
  The schedule messages of a topic stay in its stream and are never delivered as
  data: the stream layout accepts every schedule subject of the topic, and the data
  subjects, on which the consumer filters, match none of them. This holds for a topic
  that is one literal token other than \<open>schedules\<close>.
\<close>

theorem schedule_isolation:
  assumes "CHR ''.'' \<notin> set topic" and "topic \<notin> {''*'', ''>'', ''schedules''}"
    and "CHR ''.'' \<notin> set nuid"
  shows "stream_accepts (StreamConfig topic) (ScheduleSubject topic nuid)
    \<and> (\<forall>s \<in> set (DataSubjects topic). \<not> matches s (ScheduleSubject topic nuid))"
proof -
  have sched: "tokens (ScheduleSubject topic nuid) = [''schedules'', topic, nuid]"
    using assms by (simp add: tokens_def ScheduleSubject_def split_on_append_sep)
  have wild: "tokens (scheduleWildcard topic) = [''schedules'', topic, ''>'']"
    using assms by (simp add: tokens_def scheduleWildcard_def split_on_append_sep)
  have data: "tokens topic = [topic]" "tokens (topic @ ''.>'') = [topic, ''>'']"
    using assms by (simp_all add: tokens_def split_on_append_sep)
  show ?thesis using assms
    by (simp add: stream_accepts_def StreamConfig_def DataSubjects_def matches_def sched wild data)
qed

theorem schedule_isolation_witness:
  "stream_accepts (StreamConfig ''orders'') (ScheduleSubject ''orders'' ''X1'')
   \<and> \<not> matches ''orders.>'' (ScheduleSubject ''orders'' ''X1'')"
  using schedule_isolation [of "''orders''" "''X1''"] by (simp add: DataSubjects_def)

text \<open>
  The topic name \<open>schedules\<close> breaks that isolation: its data subjects match its own
  schedule messages, so a consumer of that topic is delivered them as data.
\<close>

theorem schedules_topic_not_isolated:
  "\<exists>s \<in> set (DataSubjects ''schedules''). matches s (ScheduleSubject ''schedules'' nuid)"
proof -
  have "tokens (''schedules.schedules.'' @ nuid) = ''schedules'' # ''schedules'' # tokens nuid"
    by (simp add: tokens_def split_on_append_sep)
  then show ?thesis
    by (simp add: DataSubjects_def matches_def tokens_def ScheduleSubject_def)
qed

end
