(* ===== verification/Wire_Conn.thy ===== *)
theory Wire_Conn
  imports Go_Net
begin

text \<open>
  The connection half of package \<open>wire\<close>: the dial options and timeout of \<open>Connect\<close>,
  \<open>Drain\<close>, the endpoint and error-text helpers, and the \<open>error.type\<close> classification.
  The NATS client (\<open>nats.Connect\<close>, \<open>nats.NkeyOptionFromSeed\<close>, \<open>nats.DefaultTimeout\<close>)
  and \<open>url.Parse\<close> are parameters.
\<close>

record options =
  Endpoints :: "string list"
  Timeout :: duration
  Token :: string
  Username :: string
  Password :: string
  NKey :: string
  CredentialsFile :: string

definition defaultPort :: int where "defaultPort = 4222"

subsection \<open>ServerAddrPort\<close>

text \<open>\<open>urlParse s\<close> is the host name and port text of \<open>url.Parse(s)\<close>, or \<^term>\<open>None\<close> when it fails.\<close>

definition ServerAddrPort ::
  "(string \<Rightarrow> (string \<times> string) option) \<Rightarrow> string list \<Rightarrow> string \<times> int" where
  "ServerAddrPort urlParse endpoints =
     (case endpoints of
        [] \<Rightarrow> ('''', 0)
      | ep # _ \<Rightarrow>
          (case (if contains ep ''://'' then urlParse ep else None) of
             Some (hostname, portText) \<Rightarrow>
               (let port = fst (atoi portText) in
                (hostname, if port = 0 then defaultPort else port))
           | None \<Rightarrow>
               (case SplitHostPort ep of
                  None \<Rightarrow> (ep, defaultPort)
                | Some (host, portStr) \<Rightarrow>
                    (let (port, ok) = atoi portStr in
                     if \<not> ok then (host, defaultPort) else (host, port)))))"

subsection \<open>dialTimeout and Connect\<close>

text \<open>
  \<open>untilDeadline\<close> is \<open>time.Until(deadline)\<close> of the context, or \<^term>\<open>None\<close> without a deadline.
\<close>

definition dialTimeout :: "duration \<Rightarrow> duration option \<Rightarrow> options \<Rightarrow> duration" where
  "dialTimeout natsDefaultTimeout untilDeadline opts =
     (let d = (if Timeout opts = 0 then natsDefaultTimeout else Timeout opts) in
      case untilDeadline of
        None \<Rightarrow> d
      | Some left \<Rightarrow>
          (let perEndpoint = go_div left (max (int (length (Endpoints opts))) 1)
           in min d (max perEndpoint millisecond)))"

datatype nats_option =
    OptName string
  | OptTimeout duration
  | OptRetryOnFailedConnect bool
  | OptToken string
  | OptUserInfo string string
  | OptNkey string
  | OptUserCredentials string

text \<open>The redaction of \<open>userinfoRE\<close>: \<open>([a-zA-Z][a-zA-Z0-9+.-]*://)[^/\s"'@]*@\<close>.\<close>

definition is_alpha :: "char \<Rightarrow> bool" where
  "is_alpha c = (let n = (of_char c :: nat) in (97 \<le> n \<and> n \<le> 122) \<or> (65 \<le> n \<and> n \<le> 90))"

definition scheme_char :: "char \<Rightarrow> bool" where
  "scheme_char c = (is_alpha c \<or> is_digit c \<or> c \<in> set ''+.-'')"

definition userinfo_char :: "char \<Rightarrow> bool" where
  "userinfo_char c = (c \<notin> set [CHR ''/'', CHR 0x09, CHR 0x0A, CHR 0x0C, CHR 0x0D, CHR '' '',
     CHR 0x22, CHR 0x27, CHR ''@''])"

text \<open>A match that starts at the first byte: the group \<open>$1\<close> and what follows the match.\<close>

definition match_userinfo :: "string \<Rightarrow> (string \<times> string) option" where
  "match_userinfo s =
     (if s = [] \<or> \<not> is_alpha (hd s) then None
      else let scheme = takeWhile scheme_char s; r = dropWhile scheme_char s in
        if \<not> prefix ''://'' r then None
        else let rest = dropWhile userinfo_char (drop 3 r) in
          if rest \<noteq> [] \<and> hd rest = CHR ''@'' then Some (scheme @ ''://'', tl rest) else None)"

lemma match_userinfo_shorter: "match_userinfo s = Some (g, r) \<Longrightarrow> length r < length s"
proof -
  assume m: "match_userinfo s = Some (g, r)"
  let ?t = "drop 3 (dropWhile scheme_char s)"
  from m have "s \<noteq> []" and "dropWhile userinfo_char ?t \<noteq> []" and r: "r = tl (dropWhile userinfo_char ?t)"
    by (auto simp: match_userinfo_def Let_def split: if_splits)
  then have "length r < length (dropWhile userinfo_char ?t)"
    by (cases "dropWhile userinfo_char ?t") auto
  also have "\<dots> \<le> length ?t" by (rule length_dropWhile_le)
  also have "\<dots> \<le> length s" using length_dropWhile_le [of scheme_char s] by simp
  finally show ?thesis .
qed

function redactUserinfo :: "string \<Rightarrow> string" where
  "redactUserinfo [] = []"
| "redactUserinfo (c # cs) =
     (case match_userinfo (c # cs) of
        Some (g, rest) \<Rightarrow> g @ redactUserinfo rest
      | None \<Rightarrow> c # redactUserinfo cs)"
  by pat_completeness auto
termination
  by (relation "measure length") (auto dest: match_userinfo_shorter)

text \<open>
  \<open>redactEndpoint\<close> is the \<open>url.Parse\<close>, clear \<open>User\<close>, \<open>String\<close> sequence of
  \<open>redactEndpoints\<close> on one endpoint, \<^term>\<open>None\<close> when the parse fails.
\<close>

definition redactEndpoints :: "(string \<Rightarrow> string option) \<Rightarrow> string list \<Rightarrow> string" where
  "redactEndpoints redactEndpoint endpoints =
     join_with '','' (map (\<lambda>ep0.
        let ep = (if contains ep0 ''://'' then ep0 else ''nats://'' @ ep0) in
        case redactEndpoint ep of None \<Rightarrow> ''<invalid endpoint>'' | Some u \<Rightarrow> u) endpoints)"

text \<open>
  \<open>ctxErr\<close> is \<open>ctx.Err()\<close>; \<open>nkeyFromSeed\<close> and \<open>natsConnect\<close> are the client calls.
\<close>

definition Connect ::
  "error \<Rightarrow> duration \<Rightarrow> duration option \<Rightarrow> (string \<Rightarrow> gerr + nats_option)
   \<Rightarrow> (string \<Rightarrow> nats_option list \<Rightarrow> gerr + 'conn) \<Rightarrow> (string \<Rightarrow> string option)
   \<Rightarrow> string \<Rightarrow> options \<Rightarrow> gerr + 'conn" where
  "Connect ctxErr natsDefaultTimeout untilDeadline nkeyFromSeed natsConnect redactEndpoint name opts =
     (case ctxErr of
        Some e \<Rightarrow> Inl e
      | None \<Rightarrow>
          (let base = [OptName name, OptTimeout (dialTimeout natsDefaultTimeout untilDeadline opts),
                       OptRetryOnFailedConnect True]
                 @ (if Token opts \<noteq> '''' then [OptToken (Token opts)] else [])
                 @ (if Username opts \<noteq> '''' \<or> Password opts \<noteq> ''''
                    then [OptUserInfo (Username opts) (Password opts)] else []);
               withNkey = (if NKey opts \<noteq> '''' then
                  (case nkeyFromSeed (NKey opts) of
                     Inl e \<Rightarrow> Inl (errorf (''wire: nkey option: '' @ error_string e) [e])
                   | Inr o' \<Rightarrow> Inr (base @ [o']))
                  else Inr base)
           in case withNkey of
                Inl e \<Rightarrow> Inl e
              | Inr os \<Rightarrow>
                  (let all = os @ (if CredentialsFile opts \<noteq> ''''
                                   then [OptUserCredentials (CredentialsFile opts)] else [])
                   in case natsConnect (join_with '','' (Endpoints opts)) all of
                        Inl e \<Rightarrow> Inl (errorf (''wire: connect to '' @ redactEndpoints redactEndpoint (Endpoints opts)
                                    @ '': '' @ redactUserinfo (error_string e)) [])
                      | Inr nc \<Rightarrow> Inr nc)))"

subsection \<open>Drain\<close>

text \<open>
  What the wait loop of \<open>Drain\<close> sees in one iteration: the connection is closed, or it is
  open and the select picks the context or the ticker.
\<close>

datatype poll = PollClosed | PollCtxDone gerr | PollTick

text \<open>The result of a finished wait is the error and whether \<open>nc.Close()\<close> was called.\<close>

fun drain_wait :: "poll list \<Rightarrow> (error \<times> bool) option" where
  "drain_wait [] = None"
| "drain_wait (PollClosed # ps) = Some (nil, False)"
| "drain_wait (PollCtxDone e # ps) = Some (Some e, True)"
| "drain_wait (PollTick # ps) = drain_wait ps"

definition ErrConnectionClosed :: gerr where
  "ErrConnectionClosed = sentinel_error ''nats.ErrConnectionClosed'' ''nats: connection closed''"

definition Drain :: "error \<Rightarrow> poll list \<Rightarrow> (error \<times> bool) option" where
  "Drain drainErr polls =
     (case drainErr of
        Some e \<Rightarrow>
          (if errors_Is e ErrConnectionClosed then Some (nil, False)
           else Some (Some (errorf (''wire: drain: '' @ error_string e) [e]), True))
      | None \<Rightarrow> drain_wait polls)"

subsection \<open>ErrorType\<close>

definition ErrPanic :: gerr where
  "ErrPanic = sentinel_error ''wire.ErrPanic'' ''panic recovered''"

definition ErrTimeout :: gerr where
  "ErrTimeout = sentinel_error ''nats.ErrTimeout'' ''nats: timeout''"

definition ErrorType :: "error \<Rightarrow> string" where
  "ErrorType err =
     (case err of
        None \<Rightarrow> ''''
      | Some e \<Rightarrow>
          if errors_Is e ErrPanic then ''panic''
          else case errors_As err_code e of
            Some c \<Rightarrow> itoa c
          | None \<Rightarrow>
              (case errors_As api_code e of
                 Some n \<Rightarrow> if n \<noteq> 0 then utoa n else
                   (if errors_Is e context_DeadlineExceeded \<or> errors_Is e ErrTimeout then ''timeout''
                    else if errors_As net_timeout e = Some True then ''timeout''
                    else if errors_Is e context_Canceled then ''canceled'' else ''_OTHER'')
               | None \<Rightarrow>
                   (if errors_Is e context_DeadlineExceeded \<or> errors_Is e ErrTimeout then ''timeout''
                    else if errors_As net_timeout e = Some True then ''timeout''
                    else if errors_Is e context_Canceled then ''canceled'' else ''_OTHER'')))"

subsection \<open>Properties\<close>

text \<open>The classifications that are not a number.\<close>

definition fixed_types :: "string set" where
  "fixed_types = {''panic'', ''timeout'', ''canceled'', ''_OTHER''}"

lemma ErrorType_range: "ErrorType (Some e) \<in> fixed_types \<union> range itoa"
proof -
  have "utoa n \<in> range itoa" for n
    by (rule range_eqI [of _ _ "int n"]) (simp add: itoa_def)
  then show ?thesis by (auto simp: ErrorType_def fixed_types_def split: option.split)
qed

lemma ErrorType_empty_iff: "ErrorType err = [] \<longleftrightarrow> err = nil"
proof (cases err)
  case (Some e)
  then show ?thesis using ErrorType_range [of e] itoa_ne by (auto simp: fixed_types_def)
qed (simp add: ErrorType_def)

text \<open>
  The dials of \<open>Connect\<close> fit before the deadline of its context: with \<open>left\<close> to go
  and \<open>n\<close> endpoints, \<open>n\<close> dials of \<open>dialTimeout\<close> take at most \<open>left\<close>, or one
  millisecond each when that is more; and no dial takes longer than configured.
\<close>

theorem dialTimeout_fits:
  assumes "Endpoints opts \<noteq> []"
  shows "int (length (Endpoints opts)) * dialTimeout dflt (Some left) opts
      \<le> max left (int (length (Endpoints opts)) * millisecond)
    \<and> dialTimeout dflt (Some left) opts \<le> (if Timeout opts = 0 then dflt else Timeout opts)"
proof -
  let ?n = "int (length (Endpoints opts))"
  have n: "0 < ?n" using assms by simp
  let ?q = "go_div left ?n"
  have "?n * ?q \<le> max left (?n * millisecond) \<or> ?q \<le> 0"
  proof (cases "0 \<le> left")
    case True
    have "?n * (left div ?n) = left - left mod ?n" by (simp add: minus_mod_eq_mult_div)
    then have "?n * (left div ?n) \<le> left" using n by simp
    then have "?n * (left div ?n) \<le> max left (?n * millisecond)" by linarith
    with True n show ?thesis by simp
  next
    case False
    with n show ?thesis by (simp add: go_div_def sgn_if pos_imp_zdiv_nonneg_iff)
  qed
  moreover have "max ?n 1 = ?n" using n by (intro max_absorb1) linarith
  moreover have "?q \<le> 0 \<Longrightarrow> max ?q millisecond = millisecond" by (simp add: millisecond_def)
  moreover have "?n * max ?q millisecond = max (?n * ?q) (?n * millisecond)"
    using n by (simp add: max_mult_distrib_left)
  ultimately have "?n * max ?q millisecond \<le> max left (?n * millisecond)"
    by (cases "?q \<le> 0") auto
  moreover have "?n * min d (max ?q millisecond) \<le> ?n * max ?q millisecond" for d
    using n by (simp add: mult_left_mono)
  ultimately show ?thesis
    by (simp add: dialTimeout_def Let_def \<open>max ?n 1 = ?n\<close>) (meson order_trans)
qed

theorem dialTimeout_fits_witness:
  "2 * dialTimeout (2 * second) (Some second)
     \<lparr>Endpoints = [''a:1'', ''b:2''], Timeout = 0, Token = '''', Username = '''', Password = '''',
      NKey = '''', CredentialsFile = ''''\<rparr> \<le> second"
  using dialTimeout_fits [of "\<lparr>Endpoints = [''a:1'', ''b:2''], Timeout = 0, Token = '''', Username = '''',
      Password = '''', NKey = '''', CredentialsFile = ''''\<rparr>" "2 * second" second]
  by (simp add: second_def millisecond_def)

text \<open>
  \<open>redactUserinfo\<close> does not remove the whole userinfo of a URL whose password
  contains an unescaped \<open>@\<close>, which \<open>url.Parse\<close> accepts: the rest of the password stays
  in the text.
\<close>

theorem redactUserinfo_leaks:
  "redactUserinfo ''parse nats://user:p@ssword@host:x'' = ''parse nats://ssword@host:x''"
  by (simp add: match_userinfo_def is_alpha_def scheme_char_def is_digit_def userinfo_char_def)

end
