(* ===== verification/Nats_Producer.thy ===== *)
theory Nats_Producer
  imports Wire_Subjects Wire_Conn Identity Telemetry Lifecycle
begin

text \<open>
  Package \<open>producer\<close>: its configuration, the wire form of a message, the stream set-up,
  the registered topics and the Start/Shutdown cycles with their pending counters, and
  the three publish operations with their telemetry. The NATS connection, the JetStream
  calls, the trace propagator and the clock are parameters.
\<close>

subsection \<open>Configuration\<close>

record p_config =
  p_Endpoints :: "string list"
  p_Topic :: string
  p_Timeout :: duration
  p_Token :: string
  p_Username :: string
  p_Password :: string
  p_NKey :: string
  p_CredentialsFile :: string

definition p_DefaultTimeout :: duration where "p_DefaultTimeout = 10 * second"

definition p_ErrProducerExists :: gerr where
  "p_ErrProducerExists = sentinel_error ''producer.ErrProducerExists''
     ''producer: already registered for this topic''"
definition p_ErrProducerNotFound :: gerr where
  "p_ErrProducerNotFound = sentinel_error ''producer.ErrProducerNotFound''
     ''producer: not registered for this topic''"
definition p_ErrAlreadyStarted :: gerr where
  "p_ErrAlreadyStarted = sentinel_error ''producer.ErrAlreadyStarted''
     ''producer: cannot register after Start''"
definition p_ErrEndpointsRequired :: gerr where
  "p_ErrEndpointsRequired = sentinel_error ''producer.ErrEndpointsRequired''
     ''producer: endpoints is required''"
definition p_ErrTopicRequired :: gerr where
  "p_ErrTopicRequired = sentinel_error ''producer.ErrTopicRequired'' ''producer: topic is required''"
definition p_ErrInvalidTopic :: gerr where
  "p_ErrInvalidTopic = sentinel_error ''producer.ErrInvalidTopic''
     ''producer: topic must not contain dots''"
definition p_ErrInvalidTag :: gerr where
  "p_ErrInvalidTag = sentinel_error ''producer.ErrInvalidTag'' ''producer: tag must not contain dots''"
definition p_ErrInvalidAppName :: gerr where
  "p_ErrInvalidAppName = sentinel_error ''producer.ErrInvalidAppName''
     ''producer: service name must not contain dots''"

definition p_SetDefaults :: "p_config \<Rightarrow> p_config" where
  "p_SetDefaults c = (if p_Timeout c \<le> 0 then c\<lparr>p_Timeout := p_DefaultTimeout\<rparr> else c)"

definition p_Validate :: "p_config \<Rightarrow> error" where
  "p_Validate c = errors_Join
     ((if length (p_Endpoints c) = 0 then [p_ErrEndpointsRequired] else [])
      @ (if p_Topic c = '''' then [p_ErrTopicRequired]
         else if contains (p_Topic c) ''.'' then [p_ErrInvalidTopic] else []))"

lemma p_SetDefaults_Topic [simp]: "p_Topic (p_SetDefaults c) = p_Topic c"
  by (simp add: p_SetDefaults_def)

lemma p_Validate_nil_iff:
  "p_Validate c = nil \<longleftrightarrow> p_Endpoints c \<noteq> [] \<and> p_Topic c \<noteq> '''' \<and> CHR ''.'' \<notin> set (p_Topic c)"
  by (auto simp: p_Validate_def)

subsection \<open>Messages\<close>

record p_message =
  m_Topic :: string
  m_Tag :: string
  m_Key :: string
  m_Body :: bytes

type_synonym header = "string \<rightharpoonup> string list"

record nats_msg =
  Subject :: string
  Header :: header
  Data :: bytes

definition header_Get :: "header \<Rightarrow> string \<Rightarrow> string" where
  "header_Get h k = (case h k of Some (v # _) \<Rightarrow> v | _ \<Rightarrow> '''')"

definition header_Set :: "string \<Rightarrow> string \<Rightarrow> header \<Rightarrow> header" where
  "header_Set k v h = h(k \<mapsto> [v])"

lemma header_Get_Set [simp]:
  "header_Get (header_Set k v h) k' = (if k' = k then v else header_Get h k')"
  by (simp add: header_Get_def header_Set_def)

lemma header_Get_empty [simp]: "header_Get Map.empty k = ''''"
  by (simp add: header_Get_def)

definition buildSubject :: "string \<Rightarrow> string \<Rightarrow> string" where
  "buildSubject topic tag = (if tag = '''' \<or> tag = topic then topic else topic @ ''.'' @ tag)"

definition buildMsg :: "p_message \<Rightarrow> nats_msg" where
  "buildMsg msg =
     (let h0 = Map.empty;
          h1 = (if m_Key msg \<noteq> '''' then header_Set HeaderKey (m_Key msg) h0 else h0);
          h2 = (if m_Tag msg \<noteq> '''' then header_Set HeaderTag (m_Tag msg) h1 else h1)
      in \<lparr>Subject = buildSubject (m_Topic msg) (m_Tag msg), Header = h2, Data = m_Body msg\<rparr>)"

lemma HeaderKey_neq_HeaderTag [simp]: "HeaderKey \<noteq> HeaderTag" "HeaderTag \<noteq> HeaderKey"
  by (simp_all add: HeaderKey_def HeaderTag_def)

lemma buildMsg_headers [simp]:
  "header_Get (Header (buildMsg msg)) HeaderKey = m_Key msg"
  "header_Get (Header (buildMsg msg)) HeaderTag = m_Tag msg"
  by (simp_all add: buildMsg_def Let_def)

subsection \<open>ensureStream\<close>

definition ErrStreamNotFound :: gerr where
  "ErrStreamNotFound = sentinel_error ''jetstream.ErrStreamNotFound'' ''nats: stream not found''"

text \<open>The writes sent to the server.\<close>

datatype js_call = CreateStream stream_config | UpdateStream stream_config

text \<open>
  \<open>stream\<close> is \<open>js.Stream\<close> with its cached configuration; \<open>createErr\<close> and \<open>updateErr\<close>
  are the errors of the two writes.
\<close>

definition ensureStream ::
  "(string \<Rightarrow> gerr + stream_config) \<Rightarrow> (stream_config \<Rightarrow> error) \<Rightarrow> (stream_config \<Rightarrow> error)
   \<Rightarrow> string \<Rightarrow> error \<times> js_call list" where
  "ensureStream stream createErr updateErr topic =
     (case stream topic of
        Inl e \<Rightarrow>
          (if errors_Is e ErrStreamNotFound
           then (createErr (StreamConfig topic), [CreateStream (StreamConfig topic)])
           else (Some e, []))
      | Inr cfg \<Rightarrow>
          (let (patched, changed, err) = PatchStream cfg topic in
           case err of
             Some e \<Rightarrow> (Some e, [])
           | None \<Rightarrow> if \<not> changed then (nil, []) else (updateErr patched, [UpdateStream patched])))"

text \<open>
  \<open>dialProducer\<close>: connect, create the JetStream context (\<open>jsNew\<close>), ensure the stream. The
  boolean says whether the connection it opened was closed again.
\<close>

definition dialProducer ::
  "(string \<Rightarrow> options \<Rightarrow> gerr + 'conn) \<Rightarrow> ('conn \<Rightarrow> duration \<Rightarrow> error)
   \<Rightarrow> ('conn \<Rightarrow> string \<Rightarrow> error) \<Rightarrow> p_config \<Rightarrow> (gerr + 'conn) \<times> 'conn list" where
  "dialProducer connect jsNew ensure cfg =
     (case connect (p_Topic cfg)
             \<lparr>Endpoints = p_Endpoints cfg, Timeout = p_Timeout cfg, Token = p_Token cfg,
              Username = p_Username cfg, Password = p_Password cfg, NKey = p_NKey cfg,
              CredentialsFile = p_CredentialsFile cfg\<rparr> of
        Inl e \<Rightarrow> (Inl (errorf (''producer: '' @ error_string e) [e]), [])
      | Inr nc \<Rightarrow>
          (case jsNew nc (p_Timeout cfg) of
             Some e \<Rightarrow> (Inl (errorf (''producer: create jetstream: '' @ error_string e) [e]), [nc])
           | None \<Rightarrow>
               (case ensure nc (p_Topic cfg) of
                  Some e \<Rightarrow> (Inl (errorf (''producer: ensure stream '' @ p_Topic cfg @ '': ''
                               @ error_string e) [e]), [nc])
                | None \<Rightarrow> (Inr nc, []))))"

subsection \<open>The Producer and its cycles\<close>

text \<open>
  One Start/Shutdown cycle. Callbacks keep a pointer to the WaitGroup of the run that
  counted them, so runs live in a heap addressed by a run number.
\<close>

record 'conn prun =
  producers :: "string \<rightharpoonup> 'conn"
  producerMeta :: "string \<rightharpoonup> string \<times> int"
  pending :: int

record 'conn producer =
  configs :: "string \<rightharpoonup> p_config"
  run :: "nat option"
  runs :: "nat \<rightharpoonup> 'conn prun"
  nextRun :: nat

definition p_New :: "info \<Rightarrow> gerr + 'conn producer" where
  "p_New info =
     (case Validate info of
        Some e \<Rightarrow> Inl (errorf (''producer: '' @ error_string e) [e])
      | None \<Rightarrow>
          if contains (Name info) ''.'' then Inl p_ErrInvalidAppName
          else Inr \<lparr>configs = Map.empty, run = None, runs = Map.empty, nextRun = 0\<rparr>)"

definition p_Register :: "p_config \<Rightarrow> 'conn producer \<Rightarrow> 'conn producer \<times> error" where
  "p_Register cfg p =
     (if run p \<noteq> None then (p, Some p_ErrAlreadyStarted)
      else let cfg' = p_SetDefaults cfg in
        case p_Validate cfg' of
          Some e \<Rightarrow> (p, Some e)
        | None \<Rightarrow>
            if configs p (p_Topic cfg') \<noteq> None
            then (p, Some (errorf (error_string p_ErrProducerExists @ '': '' @ p_Topic cfg') [p_ErrProducerExists]))
            else (p\<lparr>configs := (configs p)(p_Topic cfg' \<mapsto> cfg')\<rparr>, nil))"

text \<open>
  What one Start meets: the order in which the map of configs is ranged over, the order
  in which the dials finish, their results, and the address of an endpoint list.
\<close>

record 'conn start_env =
  topics :: "string list"
  finishing :: "string list"
  dial :: "p_config \<Rightarrow> gerr + 'conn"
  addrPort :: "string list \<Rightarrow> string \<times> int"

definition dial_error :: "'conn start_env \<Rightarrow> p_config \<Rightarrow> error" where
  "dial_error env cfg =
     (case dial env cfg of
        Inl e \<Rightarrow> Some (errorf (''producer: start topic '' @ p_Topic cfg @ '': '' @ error_string e) [e])
      | Inr _ \<Rightarrow> nil)"

text \<open>The connections that were opened, in the order of the configs.\<close>

definition opened :: "'conn start_env \<Rightarrow> p_config list \<Rightarrow> 'conn list" where
  "opened env cfgs =
     List.map_filter (\<lambda>cfg. case dial env cfg of Inl _ \<Rightarrow> None | Inr c \<Rightarrow> Some c) cfgs"

text \<open>The run that a successful Start installs.\<close>

definition new_run :: "'conn start_env \<Rightarrow> p_config list \<Rightarrow> 'conn prun" where
  "new_run env cfgs =
     \<lparr>producers = foldl (\<lambda>m cfg. case dial env cfg of
                            Inr c \<Rightarrow> m(p_Topic cfg \<mapsto> c) | Inl _ \<Rightarrow> m) Map.empty cfgs,
      producerMeta = foldl (\<lambda>m cfg. m(p_Topic cfg \<mapsto> addrPort env (p_Endpoints cfg))) Map.empty cfgs,
      pending = 0\<rparr>"

text \<open>The new state, the error, and the connections Start closed again.\<close>

definition p_Start :: "'conn start_env \<Rightarrow> 'conn producer \<Rightarrow> 'conn producer \<times> error \<times> 'conn list" where
  "p_Start env p =
     (if run p \<noteq> None then (p, nil, [])
      else let cfgs = List.map_filter (configs p) (topics env) in
        case first_some (dial_error env) (List.map_filter (configs p) (finishing env)) of
          Some e \<Rightarrow> (p, Some e, opened env cfgs)
        | None \<Rightarrow>
            (p\<lparr>run := Some (nextRun p), runs := (runs p)(nextRun p \<mapsto> new_run env cfgs),
               nextRun := Suc (nextRun p)\<rparr>, nil, []))"

definition current_run :: "'conn producer \<Rightarrow> 'conn prun option" where
  "current_run p = (case run p of None \<Rightarrow> None | Some i \<Rightarrow> runs p i)"

definition not_found :: "string \<Rightarrow> gerr" where
  "not_found topic = errorf (error_string p_ErrProducerNotFound @ '': '' @ topic) [p_ErrProducerNotFound]"

definition producerFor :: "'conn producer \<Rightarrow> string \<Rightarrow> gerr + 'conn" where
  "producerFor p topic =
     (case current_run p of
        Some r \<Rightarrow> (case producers r topic of Some pd \<Rightarrow> Inr pd | None \<Rightarrow> Inl (not_found topic))
      | None \<Rightarrow> Inl (not_found topic))"

text \<open>\<open>acquire\<close> adds one to the pending counter of the current run and returns its number.\<close>

definition acquire :: "string \<Rightarrow> 'conn producer \<Rightarrow> gerr + ('conn producer \<times> 'conn \<times> nat)" where
  "acquire topic p =
     (case run p of
        None \<Rightarrow> Inl (not_found topic)
      | Some i \<Rightarrow>
          (case runs p i of
             None \<Rightarrow> Inl (not_found topic)
           | Some r \<Rightarrow>
               (case producers r topic of
                  None \<Rightarrow> Inl (not_found topic)
                | Some pd \<Rightarrow> Inr (p\<lparr>runs := (runs p)(i \<mapsto> r\<lparr>pending := pending r + 1\<rparr>)\<rparr>, pd, i))))"

text \<open>\<open>pending.Done()\<close> on the WaitGroup of run \<open>i\<close>; \<^term>\<open>None\<close> is its panic on a negative counter.\<close>

definition pending_Done :: "nat \<Rightarrow> 'conn producer \<Rightarrow> 'conn producer option" where
  "pending_Done i p =
     (case runs p i of
        None \<Rightarrow> None
      | Some r \<Rightarrow>
          if pending r - 1 < 0 then None
          else Some (p\<lparr>runs := (runs p)(i \<mapsto> r\<lparr>pending := pending r - 1\<rparr>)\<rparr>))"

text \<open>
  \<open>Shutdown\<close>: it clears the current run under the lock, then waits for the pending
  callbacks or the context, then drains. The environment says which came first, what
  each drain returned, and the order of the range over the connections.
\<close>

datatype shutdown_wait = PendingDone | CtxDone gerr

definition p_Shutdown ::
  "shutdown_wait \<times> (string \<Rightarrow> error) \<times> string list \<Rightarrow> 'conn producer \<Rightarrow> 'conn producer \<times> error" where
  "p_Shutdown env p =
     (let (w, drainErr, order) = env in
      if run p = None then (p, nil)
      else (p\<lparr>run := None\<rparr>,
        case w of
          CtxDone e \<Rightarrow> Some e
        | PendingDone \<Rightarrow> errors_Join (List.map_filter (\<lambda>topic.
             map_option (\<lambda>e. errorf (''producer: shutdown topic '' @ topic @ '': '' @ error_string e) [e])
               (drainErr topic)) order)))"

subsection \<open>Publishing\<close>

record p_meta =
  pm_topic :: string
  pm_serverAddr :: string
  pm_serverPort :: int

definition metaFor :: "'conn producer \<Rightarrow> string \<Rightarrow> p_meta" where
  "metaFor p topic =
     (case (case current_run p of None \<Rightarrow> None | Some r \<Rightarrow> producerMeta r topic) of
        None \<Rightarrow> \<lparr>pm_topic = topic, pm_serverAddr = '''', pm_serverPort = 0\<rparr>
      | Some (a, n) \<Rightarrow> \<lparr>pm_topic = topic, pm_serverAddr = a, pm_serverPort = n\<rparr>)"

definition p_baseAttrs :: "p_meta \<Rightarrow> attrs" where
  "p_baseAttrs m =
     (let a = [''messaging.system'' \<mapsto> VStr ''nats'', ''messaging.operation.name'' \<mapsto> VStr ''publish'',
               ''messaging.operation.type'' \<mapsto> VStr ''send'',
               ''messaging.destination.name'' \<mapsto> VStr (pm_topic m)]
      in if pm_serverAddr m \<noteq> '''' then
           a(''server.address'' \<mapsto> VStr (pm_serverAddr m), ''server.port'' \<mapsto> VInt (pm_serverPort m))
         else a)"

definition p_messageAttrs :: "p_message \<Rightarrow> string \<Rightarrow> attrs" where
  "p_messageAttrs msg subject =
     opt_attr (m_Tag msg \<noteq> '''') ''messaging.nats.message.tag'' (VStr (m_Tag msg))
       (opt_attr (m_Key msg \<noteq> '''') ''messaging.nats.message.key'' (VStr (m_Key msg))
         [''messaging.nats.subject'' \<mapsto> VStr subject,
          ''messaging.message.body.size'' \<mapsto> VInt (int (length (m_Body msg)))])"

text \<open>An acknowledged send carries the stream sequence of the ack.\<close>

type_synonym send_result = "gerr + nat"

definition send_error :: "send_result \<Rightarrow> error" where
  "send_error r = (case r of Inl e \<Rightarrow> Some e | Inr _ \<Rightarrow> nil)"

definition p_record :: "attrs \<Rightarrow> string \<Rightarrow> event list" where
  "p_record base etype =
     (let attrs = (if etype \<noteq> '''' then withAttrs base [''error.type'' \<mapsto> VStr etype] else base)
      in MetricRecord ''messaging.client.operation.duration'' attrs
         # (if etype = '''' then [MetricAdd ''messaging.client.sent.messages'' 1 attrs] else []))"

definition finish :: "attrs \<Rightarrow> send_result \<Rightarrow> event list" where
  "finish base r =
     (case r of
        Inr seq \<Rightarrow> [SpanAttrs [''messaging.message.id'' \<mapsto> VStr (utoa seq)], SpanEnd] @ p_record base ''''
      | Inl e \<Rightarrow>
          (let etype = ErrorType (Some e) in
           [SpanStatusError (error_string e), SpanAttrs [''error.type'' \<mapsto> VStr etype], SpanEnd]
           @ p_record base etype))"

text \<open>\<open>inject\<close> is the propagator's \<open>Inject\<close> of the span's trace context into the headers.\<close>

definition instrumentPublish ::
  "(header \<Rightarrow> header) \<Rightarrow> p_meta \<Rightarrow> p_message \<Rightarrow> string \<Rightarrow> nats_msg \<Rightarrow> (nats_msg \<Rightarrow> send_result)
   \<Rightarrow> send_result \<times> event list" where
  "instrumentPublish inject m msg subject nm fn =
     (let base = p_baseAttrs m;
          nm' = nm\<lparr>Header := inject (Header nm)\<rparr>;
          r = fn nm'
      in (r, SpanStart (''publish '' @ pm_topic m) (withAttrs base (p_messageAttrs msg subject))
             # finish base r))"

definition sendSync ::
  "('conn \<Rightarrow> nats_msg \<Rightarrow> send_result) \<Rightarrow> 'conn producer \<Rightarrow> string \<Rightarrow> nats_msg \<Rightarrow> send_result" where
  "sendSync publish p topic nm =
     (case producerFor p topic of
        Inl e \<Rightarrow> Inl e
      | Inr pd \<Rightarrow>
          (case publish pd nm of
             Inl e \<Rightarrow> Inl (errorf (''producer: sync send to topic '' @ topic @ '': '' @ error_string e) [e])
           | Inr ack \<Rightarrow> Inr ack))"

definition publishSync ::
  "(header \<Rightarrow> header) \<Rightarrow> ('conn \<Rightarrow> nats_msg \<Rightarrow> send_result) \<Rightarrow> 'conn producer
   \<Rightarrow> p_message \<Rightarrow> nats_msg \<Rightarrow> string \<Rightarrow> error \<times> event list" where
  "publishSync inject publish p msg nm target =
     (let (r, evs) = instrumentPublish inject (metaFor p (m_Topic msg)) msg target nm
                       (sendSync publish p (m_Topic msg))
      in (send_error r, evs))"

definition PublishSync ::
  "(header \<Rightarrow> header) \<Rightarrow> ('conn \<Rightarrow> nats_msg \<Rightarrow> send_result) \<Rightarrow> 'conn producer
   \<Rightarrow> p_message \<Rightarrow> error \<times> event list" where
  "PublishSync inject publish p msg =
     (if contains (m_Tag msg) ''.'' then (Some p_ErrInvalidTag, [])
      else let nm = buildMsg msg in publishSync inject publish p msg nm (Subject nm))"

text \<open>
  The message of a delayed send. \<open>at\<close> is the rendering of \<open>time.Now().Add(delay)\<close> in
  RFC 3339 form and \<open>nuid\<close> the value of \<open>nuid.Next()\<close>.
\<close>

definition delayedMsg :: "string \<Rightarrow> string \<Rightarrow> p_message \<Rightarrow> nats_msg" where
  "delayedMsg nuid at msg =
     (let target = buildSubject (m_Topic msg) (m_Tag msg); nm = buildMsg msg in
      nm\<lparr>Subject := ScheduleSubject (m_Topic msg) nuid,
         Header := header_Set ''Nats-Schedule-Target'' target
                     (header_Set ''Nats-Schedule'' (''@at '' @ at) (Header nm))\<rparr>)"

definition PublishSyncWithDelay ::
  "(header \<Rightarrow> header) \<Rightarrow> ('conn \<Rightarrow> nats_msg \<Rightarrow> send_result) \<Rightarrow> string \<Rightarrow> string \<Rightarrow> 'conn producer
   \<Rightarrow> p_message \<Rightarrow> duration \<Rightarrow> error \<times> event list" where
  "PublishSyncWithDelay inject publish nuid at p msg delay =
     (if contains (m_Tag msg) ''.'' then (Some p_ErrInvalidTag, [])
      else if delay \<le> 0 then PublishSync inject publish p msg
      else publishSync inject publish p msg (delayedMsg nuid at msg)
             (buildSubject (m_Topic msg) (m_Tag msg)))"

text \<open>
  An asynchronous send that was handed to the transport: its run, and the attributes its
  completion records.
\<close>

record async_send =
  as_run :: nat
  as_base :: attrs

text \<open>\<open>publishAsync\<close> is the error of \<open>js.PublishMsgAsync\<close>.\<close>

definition PublishAsync ::
  "(header \<Rightarrow> header) \<Rightarrow> ('conn \<Rightarrow> nats_msg \<Rightarrow> error) \<Rightarrow> p_message \<Rightarrow> 'conn producer
   \<Rightarrow> ('conn producer \<times> error \<times> event list \<times> async_send option) option" where
  "PublishAsync inject publishAsync msg p =
     (if contains (m_Tag msg) ''.'' then Some (p, Some p_ErrInvalidTag, [], None)
      else
       (let nm = buildMsg msg;
            m = metaFor p (m_Topic msg);
            base = p_baseAttrs m;
            nm' = nm\<lparr>Header := inject (Header nm)\<rparr>;
            opening = SpanStart (''publish '' @ pm_topic m) (withAttrs base (p_messageAttrs msg (Subject nm)))
        in case acquire (m_Topic msg) p of
             Inl e \<Rightarrow> Some (p, Some e, opening # finish base (Inl e), None)
           | Inr (p', pd, i) \<Rightarrow>
               (case publishAsync pd nm' of
                  None \<Rightarrow> Some (p', nil, [opening], Some \<lparr>as_run = i, as_base = base\<rparr>)
                | Some e \<Rightarrow>
                    (let e' = errorf (''producer: async publish to topic '' @ m_Topic msg @ '': ''
                                @ error_string e) [e] in
                     map_option (\<lambda>p''. (p'', Some e', opening # finish base (Inl e'), None))
                       (pending_Done i p')))))"

text \<open>The completion of an asynchronous send: the wrapped callback, then \<open>pending.Done()\<close>.\<close>

definition async_complete ::
  "async_send \<Rightarrow> send_result \<Rightarrow> 'conn producer \<Rightarrow> ('conn producer \<times> event list) option" where
  "async_complete a r p =
     map_option (\<lambda>p'. (p', finish (as_base a) r)) (pending_Done (as_run a) p)"

subsection \<open>Cycles as a step relation\<close>

text \<open>
  The interleavings of the producer's operations. Besides the state, a configuration
  holds the asynchronous sends whose completion has not run yet.
\<close>

inductive producer_step ::
  "'conn producer \<times> async_send list \<Rightarrow> 'conn producer \<times> async_send list \<Rightarrow> bool" where
  step_register: "producer_step (p, out) (fst (p_Register cfg p), out)"
| step_start: "producer_step (p, out) (fst (p_Start env p), out)"
| step_async: "PublishAsync inject publishAsync msg p = Some (p', err, evs, a) \<Longrightarrow>
    producer_step (p, out) (p', (case a of None \<Rightarrow> out | Some x \<Rightarrow> x # out))"
| step_complete: "a \<in> set out \<Longrightarrow> async_complete a r p = Some (p', evs) \<Longrightarrow>
    producer_step (p, out) (p', remove1 a out)"
| step_shutdown: "producer_step (p, out) (fst (p_Shutdown env p), out)"

inductive producer_reach :: "'conn producer \<times> async_send list \<Rightarrow> bool" where
  reach_new: "p_New info = Inr p \<Longrightarrow> producer_reach (p, [])"
| reach_step: "producer_reach c \<Longrightarrow> producer_step c c' \<Longrightarrow> producer_reach c'"

subsection \<open>The pending counters\<close>

definition outstanding :: "async_send list \<Rightarrow> nat \<Rightarrow> nat" where
  "outstanding out i = length (filter (\<lambda>a. as_run a = i) out)"

lemma outstanding_simps [simp]:
  "outstanding [] i = 0"
  "outstanding (a # out) i = (if as_run a = i then 1 else 0) + outstanding out i"
  by (simp_all add: outstanding_def)

lemma outstanding_pos: "a \<in> set out \<Longrightarrow> 0 < outstanding out (as_run a)"
  by (induction out) auto

lemma outstanding_remove1:
  "a \<in> set out \<Longrightarrow> outstanding (remove1 a out) i = outstanding out i - (if as_run a = i then 1 else 0)"
proof (induction out)
  case Nil
  then show ?case by simp
next
  case (Cons b out)
  then show ?case using outstanding_pos [of a out] by auto
qed

text \<open>
  The invariant: every counter equals the number of its unfinished sends, the current
  run and the runs of unfinished sends exist, run numbers are fresh, and every stored
  configuration is valid and stored under its own topic.
\<close>

definition producer_inv :: "'conn producer \<times> async_send list \<Rightarrow> bool" where
  "producer_inv c \<longleftrightarrow>
     (\<forall>i r. runs (fst c) i = Some r \<longrightarrow> i < nextRun (fst c) \<and> pending r = int (outstanding (snd c) i))
     \<and> (\<forall>a \<in> set (snd c). runs (fst c) (as_run a) \<noteq> None)
     \<and> (\<forall>i. run (fst c) = Some i \<longrightarrow> runs (fst c) i \<noteq> None)
     \<and> (\<forall>t cfg. configs (fst c) t = Some cfg \<longrightarrow> p_Topic cfg = t \<and> p_Validate cfg = nil)"

lemma producer_inv_New: "p_New info = Inr p \<Longrightarrow> producer_inv (p, [])"
  by (auto simp: p_New_def producer_inv_def split: option.splits if_splits)

lemma p_Register_cases:
  obtains "fst (p_Register cfg p) = p" "snd (p_Register cfg p) \<noteq> nil"
  | "run p = None" "snd (p_Register cfg p) = nil" "p_Validate (p_SetDefaults cfg) = nil"
    "configs p (p_Topic cfg) = None"
    "fst (p_Register cfg p) = p\<lparr>configs := (configs p)(p_Topic cfg \<mapsto> p_SetDefaults cfg)\<rparr>"
  by (cases "run p"; cases "p_Validate (p_SetDefaults cfg)"; cases "configs p (p_Topic cfg)")
    (auto simp: p_Register_def Let_def)

lemma producer_inv_register: "producer_inv (p, out) \<Longrightarrow> producer_inv (fst (p_Register cfg p), out)"
  by (cases rule: p_Register_cases [of cfg p]) (auto simp: producer_inv_def)

lemma p_Start_cases:
  obtains "run p \<noteq> None" "p_Start env p = (p, nil, [])"
  | e where "run p = None" "p_Start env p = (p, Some e, opened env (List.map_filter (configs p) (topics env)))"
    "first_some (dial_error env) (List.map_filter (configs p) (finishing env)) = Some e"
  | "run p = None"
    "first_some (dial_error env) (List.map_filter (configs p) (finishing env)) = None"
    "p_Start env p =
       (p\<lparr>run := Some (nextRun p),
          runs := (runs p)(nextRun p \<mapsto> new_run env (List.map_filter (configs p) (topics env))),
          nextRun := Suc (nextRun p)\<rparr>, nil, [])"
  by (cases "run p"; cases "first_some (dial_error env) (List.map_filter (configs p) (finishing env))")
    (auto simp: p_Start_def Let_def)

lemma producer_inv_fresh: "producer_inv (p, out) \<Longrightarrow> outstanding out (nextRun p) = 0"
proof -
  assume inv: "producer_inv (p, out)"
  then have "as_run a \<noteq> nextRun p" if "a \<in> set out" for a
    using that by (fastforce simp: producer_inv_def)
  then show ?thesis by (auto simp: outstanding_def)
qed

lemma producer_inv_start: "producer_inv (p, out) \<Longrightarrow> producer_inv (fst (p_Start env p), out)"
proof (cases rule: p_Start_cases [of p env])
  case 3
  assume inv: "producer_inv (p, out)"
  with 3 producer_inv_fresh [OF inv] show ?thesis
    by (auto simp: producer_inv_def less_Suc_eq new_run_def)
qed simp_all

lemma acquire_cases:
  assumes "acquire topic p = Inr (p', pd, i)"
  obtains r where "run p = Some i" "runs p i = Some r" "producers r topic = Some pd"
    "p' = p\<lparr>runs := (runs p)(i \<mapsto> r\<lparr>pending := pending r + 1\<rparr>)\<rparr>"
  using assms by (auto simp: acquire_def split: option.splits)

lemma producer_inv_acquire:
  assumes "producer_inv (p, out)" and "acquire topic p = Inr (p', pd, i)"
  shows "producer_inv (p', \<lparr>as_run = i, as_base = base\<rparr> # out)"
  using assms(1) by (cases rule: acquire_cases [OF assms(2)]) (auto simp: producer_inv_def)

lemma pending_Done_inv:
  assumes "producer_inv (p, out)" and "a \<in> set out"
  obtains p' where "pending_Done (as_run a) p = Some p'" and "producer_inv (p', remove1 a out)"
proof -
  from assms obtain r where r: "runs p (as_run a) = Some r"
    "pending r = int (outstanding out (as_run a))"
    by (fastforce simp: producer_inv_def)
  let ?p' = "p\<lparr>runs := (runs p)(as_run a \<mapsto> r\<lparr>pending := pending r - 1\<rparr>)\<rparr>"
  have "0 < outstanding out (as_run a)" using assms(2) by (rule outstanding_pos)
  with r have "pending_Done (as_run a) p = Some ?p'" by (simp add: pending_Done_def)
  moreover have "producer_inv (?p', remove1 a out)"
    using assms r outstanding_pos [OF assms(2)]
    by (auto simp: producer_inv_def outstanding_remove1 dest: notin_set_remove1)
  ultimately show ?thesis by (rule that)
qed

lemma PublishAsync_inv:
  assumes "producer_inv (p, out)"
  obtains p' err evs a where "PublishAsync inject publishAsync msg p = Some (p', err, evs, a)"
    and "producer_inv (p', (case a of None \<Rightarrow> out | Some x \<Rightarrow> x # out))"
proof (cases "contains (m_Tag msg) ''.''")
  case True
  with assms that show ?thesis by (simp add: PublishAsync_def)
next
  case False
  note tag = False
  show ?thesis
  proof (cases "acquire (m_Topic msg) p")
    case (Inl e)
    with assms that tag show ?thesis by (simp add: PublishAsync_def Let_def)
  next
    case (Inr q)
    obtain p' pd i where q: "acquire (m_Topic msg) p = Inr (p', pd, i)"
      using Inr by (cases q) auto
    let ?a = "\<lparr>as_run = i, as_base = p_baseAttrs (metaFor p (m_Topic msg))\<rparr>"
    have inv': "producer_inv (p', ?a # out)"
      using assms q by (rule producer_inv_acquire)
    show ?thesis
    proof (cases "publishAsync pd ((buildMsg msg)\<lparr>Header := inject (Header (buildMsg msg))\<rparr>)")
      case None
      with inv' q tag that show ?thesis by (simp add: PublishAsync_def Let_def)
    next
      case (Some e)
      obtain p'' where "pending_Done i p' = Some p''" "producer_inv (p'', out)"
        using pending_Done_inv [OF inv', of ?a] by auto
      with Some q tag that show ?thesis by (simp add: PublishAsync_def Let_def)
    qed
  qed
qed

lemma producer_inv_shutdown: "producer_inv (p, out) \<Longrightarrow> producer_inv (fst (p_Shutdown env p), out)"
  by (cases env) (auto simp: p_Shutdown_def producer_inv_def)

lemma async_complete_inv:
  assumes "producer_inv (p, out)" and "a \<in> set out"
  obtains p' evs where "async_complete a r p = Some (p', evs)" and "producer_inv (p', remove1 a out)"
  using pending_Done_inv [OF assms] by (auto simp: async_complete_def)

lemma producer_step_inv: "producer_step c c' \<Longrightarrow> producer_inv c \<Longrightarrow> producer_inv c'"
proof (induction rule: producer_step.induct)
  case (step_async inject publishAsync msg p p' err evs a out)
  from step_async.prems show ?case
    by (rule PublishAsync_inv [of p out inject publishAsync msg]) (use step_async.hyps in simp)
next
  case (step_complete a out r p p' evs)
  from step_complete.prems step_complete.hyps(1) show ?case
    by (rule async_complete_inv [of p out a r]) (use step_complete.hyps in simp)
qed (simp_all add: producer_inv_register producer_inv_start producer_inv_shutdown)

lemma producer_reach_inv: "producer_reach c \<Longrightarrow> producer_inv c"
  by (induction rule: producer_reach.induct) (blast intro: producer_inv_New producer_step_inv)+

subsection \<open>Start\<close>

lemma set_map_filter [simp]: "set (List.map_filter f xs) = {y. \<exists>x \<in> set xs. f x = Some y}"
  by (force simp: List.map_filter_def)

lemma foldl_conn_lookup:
  assumes "cfg \<in> set cfgs" and "dial env cfg = Inr conn"
    and "\<And>c. c \<in> set cfgs \<Longrightarrow> p_Topic c = p_Topic cfg \<Longrightarrow> c = cfg"
  shows "foldl (\<lambda>m cfg. case dial env cfg of Inr c \<Rightarrow> m(p_Topic cfg \<mapsto> c) | Inl _ \<Rightarrow> m)
    m0 cfgs (p_Topic cfg) = Some conn"
  using assms
proof (induction cfgs rule: rev_induct)
  case Nil
  then show ?case by simp
next
  case (snoc d cfgs)
  show ?case
  proof (cases "d = cfg")
    case True
    with snoc.prems show ?thesis by simp
  next
    case False
    with snoc.prems have "p_Topic d \<noteq> p_Topic cfg" by (auto dest: snoc.prems(3))
    with False snoc show ?thesis by (auto split: sum.split)
  qed
qed

lemma new_run_lookup:
  assumes inv: "producer_inv (p, out)" and tops: "set (topics env) = dom (configs p)"
    and cfg: "configs p t = Some cfg" and conn: "dial env cfg = Inr conn"
  shows "producers (new_run env (List.map_filter (configs p) (topics env))) t = Some conn"
proof -
  let ?cfgs = "List.map_filter (configs p) (topics env)"
  have key: "p_Topic c = s" if "configs p s = Some c" for s c
    using inv that by (simp add: producer_inv_def)
  have "cfg \<in> set ?cfgs" using tops cfg by auto
  moreover have "c = cfg" if c: "c \<in> set ?cfgs" "p_Topic c = p_Topic cfg" for c
  proof -
    from c(1) obtain s where s: "configs p s = Some c" by auto
    then have "s = t" using c(2) key [OF s] key [OF cfg] by simp
    with s cfg show ?thesis by simp
  qed
  ultimately have "producers (new_run env ?cfgs) (p_Topic cfg) = Some conn"
    unfolding new_run_def prun.select_convs by (intro foldl_conn_lookup [OF _ conn]) auto
  with key [OF cfg] show ?thesis by simp
qed

lemma dial_error_nil_iff [simp]: "dial_error env cfg = nil \<longleftrightarrow> (\<exists>conn. dial env cfg = Inr conn)"
  by (cases "dial env cfg") (simp_all add: dial_error_def)

lemma set_opened: "set (opened env cfgs) = {conn. \<exists>cfg \<in> set cfgs. dial env cfg = Inr conn}"
proof -
  have "(case dial env cfg of Inl _ \<Rightarrow> None | Inr c \<Rightarrow> Some c) = Some conn \<longleftrightarrow> dial env cfg = Inr conn"
    for cfg conn by (cases "dial env cfg") simp_all
  then show ?thesis by (simp add: opened_def)
qed

interpretation producer_lifecycle: lifecycle
  "\<lambda>p. run p \<noteq> None" "\<lambda>p. dom (configs p)" p_Register
  "\<lambda>env p. (fst (p_Start env p), fst (snd (p_Start env p)))" p_Shutdown
proof unfold_locales
  fix p :: "'a producer" and cfg
  show "run p \<noteq> None \<Longrightarrow> fst (p_Register cfg p) = p \<and> snd (p_Register cfg p) \<noteq> nil"
    by (auto simp: p_Register_def)
  show "snd (p_Register cfg p) \<noteq> nil \<Longrightarrow> fst (p_Register cfg p) = p"
    by (cases rule: p_Register_cases [of cfg p]) auto
  show "dom (configs p) \<subseteq> dom (configs (fst (p_Register cfg p)))"
    by (cases rule: p_Register_cases [of cfg p]) auto
  show "\<not> run p \<noteq> None \<Longrightarrow> \<not> run (fst (p_Register cfg p)) \<noteq> None"
    by (cases rule: p_Register_cases [of cfg p]) auto
next
  fix p :: "'a producer" and env
  let ?start = "(fst (p_Start env p), fst (snd (p_Start env p)))"
  show "run p \<noteq> None \<Longrightarrow> ?start = (p, nil)" by (auto simp: p_Start_def)
  show "snd ?start = nil \<Longrightarrow> run (fst ?start) \<noteq> None" by (cases rule: p_Start_cases [of p env]) auto
  show "snd ?start \<noteq> nil \<Longrightarrow> fst ?start = p" by (cases rule: p_Start_cases [of p env]) auto
  show "dom (configs (fst ?start)) = dom (configs p)" by (cases rule: p_Start_cases [of p env]) auto
next
  fix p :: "'a producer" and env
  show "\<not> run p \<noteq> None \<Longrightarrow> p_Shutdown env p = (p, nil)" by (cases env) (simp add: p_Shutdown_def)
  show "\<not> run (fst (p_Shutdown env p)) \<noteq> None" by (cases env) (simp add: p_Shutdown_def)
  show "dom (configs (fst (p_Shutdown env p))) = dom (configs p)"
    by (cases env) (simp add: p_Shutdown_def)
qed

subsection \<open>Properties\<close>

text \<open>
  C8: in every reachable state of the producer, under any interleaving of Register,
  Start, PublishAsync, callbacks and Shutdown, no \<open>pending.Done\<close> panics: neither a new
  asynchronous publish nor the completion of an outstanding one brings its WaitGroup
  below zero.
\<close>

theorem producer_no_panic:
  assumes "producer_reach (p, out)"
  shows "PublishAsync inject publishAsync msg p \<noteq> None
    \<and> (\<forall>a \<in> set out. async_complete a r p \<noteq> None)"
proof -
  have inv: "producer_inv (p, out)" using assms by (rule producer_reach_inv)
  then have "PublishAsync inject publishAsync msg p \<noteq> None"
    by (rule PublishAsync_inv [of p out inject publishAsync msg]) simp
  moreover have "async_complete a r p \<noteq> None" if "a \<in> set out" for a
    by (rule async_complete_inv [OF inv that]) auto
  ultimately show ?thesis by blast
qed

text \<open>A producer of the service \<open>svc\<close> with no topic, for the witnesses.\<close>

definition new_producer :: "string producer" where
  "new_producer = \<lparr>configs = Map.empty, run = None, runs = Map.empty, nextRun = 0\<rparr>"

lemma new_producer_reach: "producer_reach (new_producer, [])"
proof -
  have "trim_space ''svc'' = ''svc''"
    by (simp add: trim_space_def trim_left_def trim_right_def strip_seqs.simps space_seqs_def)
  then have "p_New \<lparr>Name = ''svc'', Version = '''', Environment = ''''\<rparr> = Inr new_producer"
    by (simp add: p_New_def Validate_def new_producer_def)
  then show ?thesis by (rule reach_new)
qed

theorem producer_no_panic_witness:
  "PublishAsync (\<lambda>h. h) (\<lambda>c m. nil) \<lparr>m_Topic = ''t'', m_Tag = '''', m_Key = '''', m_Body = ''x''\<rparr>
     new_producer \<noteq> None"
  using producer_no_panic [OF new_producer_reach] by blast


definition no_topics_env :: "string start_env" where
  "no_topics_env = \<lparr>topics = [], finishing = [], dial = (\<lambda>_. Inr ''conn''), addrPort = (\<lambda>_. ('''', 0))\<rparr>"

definition cycled_producer :: "string producer" where
  "cycled_producer = fst (p_Shutdown (PendingDone, (\<lambda>_. nil), []) (fst (p_Start no_topics_env new_producer)))"


text \<open>
  C15: Start is all or nothing. On a producer that is not running it succeeds exactly
  when every registered topic is dialled; then each topic is served by its own
  connection. Otherwise the state is unchanged and every connection that was opened is
  closed.
\<close>

theorem p_Start_all_or_nothing:
  assumes "producer_reach (p, out)" and "run p = None"
    and "set (topics env) = dom (configs p)" and "set (finishing env) = dom (configs p)"
  shows "(fst (snd (p_Start env p)) = nil \<longleftrightarrow>
           (\<forall>t cfg. configs p t = Some cfg \<longrightarrow> (\<exists>conn. dial env cfg = Inr conn)))
    \<and> (fst (snd (p_Start env p)) = nil \<longrightarrow>
         (\<forall>t cfg. configs p t = Some cfg \<longrightarrow> producerFor (fst (p_Start env p)) t = dial env cfg))
    \<and> (fst (snd (p_Start env p)) \<noteq> nil \<longrightarrow> fst (p_Start env p) = p
         \<and> set (snd (snd (p_Start env p))) = {conn. \<exists>t cfg. configs p t = Some cfg \<and> dial env cfg = Inr conn})"
proof -
  have inv: "producer_inv (p, out)" using assms(1) by (rule producer_reach_inv)
  have all: "first_some (dial_error env) (List.map_filter (configs p) (finishing env)) = None \<longleftrightarrow>
      (\<forall>t cfg. configs p t = Some cfg \<longrightarrow> (\<exists>conn. dial env cfg = Inr conn))"
    using assms(4) by (fastforce simp: first_some_None_iff)
  show ?thesis
  proof (cases rule: p_Start_cases [of p env])
    case 1
    with assms(2) show ?thesis by simp
  next
    case (2 e)
    have "set (List.map_filter (configs p) (topics env)) = {cfg. \<exists>t. configs p t = Some cfg}"
      using assms(3) by auto
    then have "set (opened env (List.map_filter (configs p) (topics env))) =
        {conn. \<exists>t cfg. configs p t = Some cfg \<and> dial env cfg = Inr conn}"
      by (simp only: set_opened) blast
    with 2 all show ?thesis by simp
  next
    case 3
    have "producerFor (fst (p_Start env p)) t = dial env cfg" if cfg: "configs p t = Some cfg" for t cfg
    proof -
      from 3 all cfg obtain conn where "dial env cfg = Inr conn" by blast
      with new_run_lookup [OF inv assms(3) cfg] 3 show ?thesis
        by (simp add: producerFor_def current_run_def)
    qed
    with 3 all show ?thesis by simp
  qed
qed

definition orders_config :: p_config where
  "orders_config = \<lparr>p_Endpoints = [''n1:4222''], p_Topic = ''orders'', p_Timeout = second, p_Token = '''',
     p_Username = '''', p_Password = '''', p_NKey = '''', p_CredentialsFile = ''''\<rparr>"

definition orders_env :: "string start_env" where
  "orders_env = \<lparr>topics = [''orders''], finishing = [''orders''], dial = (\<lambda>_. Inr ''conn''),
     addrPort = (\<lambda>_. (''n1'', 4222))\<rparr>"

definition orders_producer :: "string producer" where
  "orders_producer = fst (p_Register orders_config new_producer)"

lemma orders_producer_configs: "run orders_producer = None" "configs orders_producer = [''orders'' \<mapsto> orders_config]"
proof -
  have "p_SetDefaults orders_config = orders_config"
    by (simp add: p_SetDefaults_def orders_config_def second_def millisecond_def)
  moreover have "p_Validate orders_config = nil" "p_Topic orders_config = ''orders''"
    by (simp_all add: p_Validate_nil_iff orders_config_def)
  ultimately show "run orders_producer = None" "configs orders_producer = [''orders'' \<mapsto> orders_config]"
    by (simp_all add: orders_producer_def p_Register_def new_producer_def)
qed

lemma orders_producer_reach: "producer_reach (orders_producer, [])"
  unfolding orders_producer_def by (rule reach_step [OF new_producer_reach step_register])

theorem p_Start_all_or_nothing_witness:
  "producerFor (fst (p_Start orders_env orders_producer)) ''orders'' = Inr ''conn''"
proof -
  have "set (topics orders_env) = dom (configs orders_producer)"
    "set (finishing orders_env) = dom (configs orders_producer)"
    by (simp_all add: orders_env_def orders_producer_configs)
  from p_Start_all_or_nothing [OF orders_producer_reach orders_producer_configs(1) this] show ?thesis
    by (simp add: orders_producer_configs orders_env_def)
qed

subsection \<open>The stream of a topic\<close>

text \<open>The server's streams, what \<open>js.Stream\<close> reads, and the effect of an accepted write.\<close>

fun js_apply :: "js_call \<Rightarrow> (string \<rightharpoonup> stream_config) \<Rightarrow> (string \<rightharpoonup> stream_config)" where
  "js_apply (CreateStream cfg) srv = srv(Wire_Subjects.Name cfg \<mapsto> cfg)"
| "js_apply (UpdateStream cfg) srv = srv(Wire_Subjects.Name cfg \<mapsto> cfg)"

definition js_stream :: "(string \<rightharpoonup> stream_config) \<Rightarrow> string \<Rightarrow> gerr + stream_config" where
  "js_stream srv topic = (case srv topic of None \<Rightarrow> Inl ErrStreamNotFound | Some cfg \<Rightarrow> Inr cfg)"

lemma PatchStream_layout: "PatchStream (StreamConfig topic) topic = (StreamConfig topic, False, nil)"
proof -
  have "scheduleIncompatibility (StreamConfig topic) = ''''"
    by (simp add: scheduleIncompatibility_def StreamConfig_def)
  moreover have "merge_subjects covers (Subjects (StreamConfig topic)) (Subjects (StreamConfig topic)) False
      = (Subjects (StreamConfig topic), False)"
    by (rule nats.merge_stable) (auto intro: nats.cov_refl)
  ultimately show ?thesis
    by (simp add: PatchStream_compatible Let_def) (simp add: StreamConfig_def)
qed

text \<open>
  C28: \<open>ensureStream\<close> converges. When it succeeds against a server whose streams are
  stored under their names, it has sent at most one write, afterwards the stream exists
  and accepts every subject of the SDK layout, and a second \<open>ensureStream\<close> sends nothing.
\<close>

theorem ensureStream_converges:
  assumes "ensureStream (js_stream srv) createErr updateErr topic = (nil, calls)"
    and "\<And>t cfg. srv t = Some cfg \<Longrightarrow> Wire_Subjects.Name cfg = t"
  shows "length calls \<le> 1
    \<and> (\<exists>cfg. fold js_apply calls srv topic = Some cfg
         \<and> (\<forall>s \<in> set (Subjects (StreamConfig topic)). \<exists>e \<in> set (Subjects cfg). covers e s))
    \<and> ensureStream (js_stream (fold js_apply calls srv)) createErr updateErr topic = (nil, [])"
proof -
  have fixpoint: "length calls \<le> 1 \<and> (\<exists>cfg. fold js_apply calls srv topic = Some cfg
      \<and> PatchStream cfg topic = (cfg, False, nil))"
  proof (cases "srv topic")
    case None
    with assms(1) have "calls = [CreateStream (StreamConfig topic)]"
      by (simp add: ensureStream_def js_stream_def ErrStreamNotFound_def)
    then show ?thesis by (simp add: PatchStream_layout) (simp add: StreamConfig_def)
  next
    case (Some cfg)
    obtain patched changed err where ps: "PatchStream cfg topic = (patched, changed, err)"
      by (cases "PatchStream cfg topic")
    with assms(1) Some have err: "err = nil"
      by (auto simp: ensureStream_def js_stream_def split: option.splits)
    have "Wire_Subjects.Name patched = topic"
      using PatchStream_error_and_frame_fields [of cfg topic] ps assms(2) [OF Some] by simp
    moreover have "PatchStream patched topic = (patched, False, nil)"
      using ps err PatchStream_fixpoint by metis
    moreover have "\<not> changed \<Longrightarrow> patched = cfg"
      using PatchStream_unchanged ps by metis
    ultimately show ?thesis
      using assms(1) Some ps err
      by (cases changed) (auto simp: ensureStream_def js_stream_def)
  qed
  then obtain cfg where len: "length calls \<le> 1" and cfg: "fold js_apply calls srv topic = Some cfg"
    and fp: "PatchStream cfg topic = (cfg, False, nil)" by blast
  have "\<forall>s \<in> set (Subjects (StreamConfig topic)). \<exists>e \<in> set (Subjects cfg). covers e s"
    using fp PatchStream_covers by metis
  then show ?thesis using len cfg fp by (auto simp: ensureStream_def js_stream_def)
qed

theorem ensureStream_converges_witness:
  "ensureStream (js_stream (fold js_apply [CreateStream (StreamConfig ''orders'')] Map.empty))
     (\<lambda>_. nil) (\<lambda>_. nil) ''orders'' = (nil, [])"
proof -
  have "ensureStream (js_stream Map.empty) (\<lambda>_. nil) (\<lambda>_. nil) ''orders''
      = (nil, [CreateStream (StreamConfig ''orders'')])"
    by (simp add: ensureStream_def js_stream_def ErrStreamNotFound_def)
  from ensureStream_converges [OF this] show ?thesis by simp
qed

subsection \<open>Telemetry of a publish\<close>

lemma finish_counts [simp]:
  "spans_opened (finish base r) = 0" "spans_ended (finish base r) = 1"
  "recorded ''messaging.client.operation.duration'' (finish base r) = 1"
  "added ''messaging.client.sent.messages'' (finish base r) = (if send_error r = nil then 1 else 0)"
  by (cases r; simp add: finish_def p_record_def send_error_def ErrorType_empty_iff Let_def)+

text \<open>What one send must emit, whatever its outcome.\<close>

definition one_send :: "error \<Rightarrow> event list \<Rightarrow> bool" where
  "one_send err evs \<longleftrightarrow>
     spans_opened evs = 1 \<and> spans_ended evs = 1
     \<and> recorded ''messaging.client.operation.duration'' evs = 1
     \<and> added ''messaging.client.sent.messages'' evs = (if err = nil then 1 else 0)"

text \<open>
  Every synchronous publish that passes the tag check, on success and on every
  failure, opens one span, ends it once, records one duration, and counts a sent message
  exactly when it returns nil.
\<close>

theorem PublishSync_telemetry:
  assumes "CHR ''.'' \<notin> set (m_Tag msg)"
  shows "one_send (fst (PublishSync inject publish p msg)) (snd (PublishSync inject publish p msg))
    \<and> one_send (fst (PublishSyncWithDelay inject publish nuid at p msg delay))
        (snd (PublishSyncWithDelay inject publish nuid at p msg delay))"
proof -
  have sync: "one_send (fst (publishSync inject publish p msg nm target))
      (snd (publishSync inject publish p msg nm target))" for nm target
    by (simp add: publishSync_def instrumentPublish_def Let_def one_send_def)
  with assms show ?thesis by (simp add: PublishSync_def PublishSyncWithDelay_def Let_def)
qed

theorem PublishSync_telemetry_witness:
  "one_send (fst (PublishSync (\<lambda>h. h) (\<lambda>c m. Inr 7) new_producer \<lparr>m_Topic = ''t'', m_Tag = ''a'', m_Key = '''', m_Body = ''''\<rparr>))
     (snd (PublishSync (\<lambda>h. h) (\<lambda>c m. Inr 7) new_producer \<lparr>m_Topic = ''t'', m_Tag = ''a'', m_Key = '''', m_Body = ''''\<rparr>))"
  by (rule PublishSync_telemetry [THEN conjunct1]) simp

text \<open>
  An asynchronous publish emits the same telemetry exactly once in total: when it
  returns an error, or without an outstanding send, its own events are complete; when it
  returns an outstanding send, they are complete together with those of its completion.
\<close>

theorem PublishAsync_telemetry:
  assumes "CHR ''.'' \<notin> set (m_Tag msg)"
    and "PublishAsync inject publishAsync msg p = Some (p', err, evs, a)"
  shows "case a of
      None \<Rightarrow> err \<noteq> nil \<and> one_send err evs
    | Some x \<Rightarrow> err = nil \<and> (\<forall>r q q' evs'. async_complete x r q = Some (q', evs') \<longrightarrow>
        one_send (send_error r) (evs @ evs'))"
proof -
  have fin: "one_send (Some e) (SpanStart n b # finish base (Inl e))" for e n b base
    by (simp add: one_send_def send_error_def)
  have comp: "one_send (send_error r) (SpanStart n b # evs')"
    if "async_complete x r q = Some (q', evs')" for n b r q q' evs' x
    using that by (auto simp: async_complete_def one_send_def)
  show ?thesis
    using assms fin comp
    by (auto simp: PublishAsync_def Let_def split: sum.splits option.splits)
qed

theorem PublishAsync_telemetry_witness:
  "\<exists>p' err evs. PublishAsync (\<lambda>h. h) (\<lambda>c m. nil) \<lparr>m_Topic = ''t'', m_Tag = '''', m_Key = '''', m_Body = ''''\<rparr>
      new_producer = Some (p', err, evs, None) \<and> err \<noteq> nil \<and> one_send err evs"
proof -
  let ?m = "\<lparr>m_Topic = ''t'', m_Tag = '''', m_Key = '''', m_Body = ''''\<rparr>"
  obtain p' err evs where "PublishAsync (\<lambda>h. h) (\<lambda>c m. nil) ?m new_producer = Some (p', err, evs, None)"
    by (simp add: PublishAsync_def Let_def acquire_def new_producer_def)
  with PublishAsync_telemetry [OF _ this] show ?thesis by auto
qed

text \<open>
  The wire form of a delayed message: it is published on a subject that the
  schedule subject of the topic's stream layout covers, its schedule target is the very
  subject an immediate publish would use, and body, key and tag are those of the message.
\<close>

theorem delayedMsg_faithful:
  assumes "CHR ''.'' \<notin> set (m_Topic msg)" and "CHR ''.'' \<notin> set nuid"
  shows "covers (scheduleWildcard (m_Topic msg)) (Subject (delayedMsg nuid at msg))
    \<and> header_Get (Header (delayedMsg nuid at msg)) ''Nats-Schedule-Target'' = Subject (buildMsg msg)
    \<and> header_Get (Header (delayedMsg nuid at msg)) HeaderKey = m_Key msg
    \<and> header_Get (Header (delayedMsg nuid at msg)) HeaderTag = m_Tag msg
    \<and> Data (delayedMsg nuid at msg) = m_Body msg"
proof -
  have "tokens (scheduleWildcard (m_Topic msg)) = [''schedules'', m_Topic msg, ''>'']"
    "tokens (ScheduleSubject (m_Topic msg) nuid) = [''schedules'', m_Topic msg, nuid]"
    using assms by (simp_all add: tokens_def scheduleWildcard_def ScheduleSubject_def split_on_append_sep)
  moreover have "HeaderKey \<noteq> ''Nats-Schedule-Target''" "HeaderKey \<noteq> ''Nats-Schedule''"
    "HeaderTag \<noteq> ''Nats-Schedule-Target''" "HeaderTag \<noteq> ''Nats-Schedule''"
    by (simp_all add: HeaderKey_def HeaderTag_def)
  ultimately show ?thesis
    by (auto simp: delayedMsg_def Let_def covers_tokens_eq) (simp_all add: buildMsg_def Let_def)
qed

theorem delayedMsg_faithful_witness:
  "header_Get (Header (delayedMsg ''X1'' ''2026-01-01T00:00:00Z''
      \<lparr>m_Topic = ''orders'', m_Tag = ''eu'', m_Key = ''k'', m_Body = ''x''\<rparr>)) ''Nats-Schedule-Target'' = ''orders.eu''"
  using delayedMsg_faithful [of "\<lparr>m_Topic = ''orders'', m_Tag = ''eu'', m_Key = ''k'', m_Body = ''x''\<rparr>"
      "''X1''" "''2026-01-01T00:00:00Z''"]
  by (simp add: buildMsg_def buildSubject_def Let_def)

end
