(* ===== verification/Nats_Consumer.thy ===== *)
theory Nats_Consumer
  imports Nats_Producer "HOL-Library.List_Lexorder" "HOL-Library.Char_ord"
begin

text \<open>
  Package \<open>consumer\<close>: its configuration and the subjects it filters on, the parsing and
  settling of one delivered message through the middleware chain, the delivery slots of
  one stream consumer, and the Register/Start/Shutdown cycle. The JetStream message and
  consumer, \<open>time.Parse\<close>, the handler and the clock are parameters.
\<close>

subsection \<open>Configuration\<close>

record c_config =
  c_Endpoints :: "string list"
  c_Topic :: string
  c_Group :: string
  c_Tags :: "string list"
  c_Timeout :: duration
  c_HandlerTimeout :: duration
  c_MaxRetryAttempts :: int
  c_MaxConcurrent :: int
  c_ConsumeFromWhere :: string
  c_ConsumeTimestamp :: string
  c_RetryBackoff :: duration
  c_Token :: string
  c_Username :: string
  c_Password :: string
  c_NKey :: string
  c_CredentialsFile :: string

definition c_DefaultTimeout :: duration where "c_DefaultTimeout = 60 * second"
definition DefaultMaxRetryAttempts :: int where "DefaultMaxRetryAttempts = 5"
definition DefaultMaxConcurrent :: int where "DefaultMaxConcurrent = 10"
definition DefaultTags :: string where "DefaultTags = ''*''"
definition MinTimeout :: duration where "MinTimeout = 100 * millisecond"
definition ConsumeFromLast :: string where "ConsumeFromLast = ''last''"
definition ConsumeFromFirst :: string where "ConsumeFromFirst = ''first''"
definition ConsumeFromTimestamp :: string where "ConsumeFromTimestamp = ''timestamp''"

lemmas consumer_consts = c_DefaultTimeout_def DefaultMaxRetryAttempts_def DefaultMaxConcurrent_def
  DefaultTags_def MinTimeout_def ConsumeFromLast_def ConsumeFromFirst_def ConsumeFromTimestamp_def
  second_def millisecond_def

definition c_ErrConsumerExists :: gerr where
  "c_ErrConsumerExists = sentinel_error ''consumer.ErrConsumerExists''
     ''consumer: already registered for this topic and group''"
definition c_ErrAlreadyStarted :: gerr where
  "c_ErrAlreadyStarted = sentinel_error ''consumer.ErrAlreadyStarted'' ''consumer: cannot register after Start''"
definition c_ErrInvalidAppName :: gerr where
  "c_ErrInvalidAppName = sentinel_error ''consumer.ErrInvalidAppName''
     ''consumer: service name must not contain dots''"
definition ErrNoRetry :: gerr where
  "ErrNoRetry = sentinel_error ''consumer.ErrNoRetry'' ''consumer: do not retry''"

text \<open>The sentinel of a configuration problem, by its variable name and text.\<close>

definition c_err :: "string \<Rightarrow> string \<Rightarrow> gerr" where
  "c_err name txt = sentinel_error (''consumer.'' @ name) (''consumer: '' @ txt)"

definition c_SetDefaults :: "c_config \<Rightarrow> c_config" where
  "c_SetDefaults c0 =
     (let c1 = (if c_Timeout c0 \<le> 0 then c0\<lparr>c_Timeout := c_DefaultTimeout\<rparr> else c0);
          c2 = (if c_HandlerTimeout c1 = 0 then c1\<lparr>c_HandlerTimeout := c_Timeout c1\<rparr> else c1);
          c3 = (if c_MaxRetryAttempts c2 \<le> 0 then c2\<lparr>c_MaxRetryAttempts := DefaultMaxRetryAttempts\<rparr> else c2);
          c4 = (if c_MaxConcurrent c3 \<le> 0 then c3\<lparr>c_MaxConcurrent := DefaultMaxConcurrent\<rparr> else c3);
          c5 = (if length (c_Tags c4) = 0 then c4\<lparr>c_Tags := [DefaultTags]\<rparr> else c4)
      in if c_ConsumeFromWhere c5 = '''' then c5\<lparr>c_ConsumeFromWhere := ConsumeFromLast\<rparr> else c5)"

text \<open>The tag loop of \<open>Validate\<close>, which stops at the first bad tag.\<close>

fun tag_errors :: "string list \<Rightarrow> gerr list" where
  "tag_errors [] = []"
| "tag_errors (tag # tags) =
     (if tag = '''' then [c_err ''ErrEmptyTag'' ''tag must not be empty'']
      else if contains tag ''.'' then [c_err ''ErrInvalidTag'' ''tag must not contain dots'']
      else tag_errors tags)"

text \<open>\<open>parseTime\<close> is \<open>time.Parse(time.RFC3339, _)\<close>.\<close>

definition c_Validate :: "(string \<Rightarrow> 'time option) \<Rightarrow> c_config \<Rightarrow> error" where
  "c_Validate parseTime c = errors_Join
     ((if length (c_Endpoints c) = 0 then [c_err ''ErrEndpointsRequired'' ''endpoints is required''] else [])
      @ (if c_Topic c = '''' then [c_err ''ErrTopicRequired'' ''topic is required'']
         else if contains (c_Topic c) ''.'' then [c_err ''ErrInvalidTopic'' ''topic must not contain dots''] else [])
      @ (if c_Group c = '''' then [c_err ''ErrGroupRequired'' ''group is required'']
         else if contains (c_Group c) ''.'' then [c_err ''ErrInvalidGroup'' ''group must not contain dots''] else [])
      @ tag_errors (c_Tags c)
      @ (if c_ConsumeFromWhere c \<in> {ConsumeFromLast, ConsumeFromFirst, ConsumeFromTimestamp} then []
         else [c_err ''ErrInvalidConsumeFromWhere'' ''consume_from_where must be \"last\", \"first\", or \"timestamp\"''])
      @ (if c_ConsumeFromWhere c = ConsumeFromTimestamp \<and> parseTime (c_ConsumeTimestamp c) = None
         then [c_err ''ErrInvalidConsumeTimestamp''
           ''consume_timestamp must be an RFC3339 timestamp when consume_from_where is \"timestamp\"''] else [])
      @ (if c_RetryBackoff c < 0
         then [c_err ''ErrNegativeRetryBackoff'' ''retry_backoff must not be negative''] else [])
      @ (if c_HandlerTimeout c \<le> 0
         then [c_err ''ErrInvalidHandlerTimeout'' ''handler_timeout must be positive''] else [])
      @ (if c_Timeout c < MinTimeout
         then [c_err ''ErrInvalidTimeout'' ''timeout must be at least MinTimeout (100ms)''] else []))"

definition buildFilterSubjects :: "c_config \<Rightarrow> string list" where
  "buildFilterSubjects c =
     (if length (c_Tags c) = 0 \<or> (length (c_Tags c) = 1 \<and> c_Tags c ! 0 = DefaultTags)
      then DataSubjects (c_Topic c)
      else map (\<lambda>tag. if tag = DefaultTags then c_Topic c @ ''.>''
                      else if tag = '''' \<or> tag = c_Topic c then c_Topic c
                      else c_Topic c @ ''.'' @ tag) (c_Tags c))"

datatype deliver_policy = DeliverAll | DeliverByStartTime | DeliverNew

record 'time consumer_config =
  Durable :: string
  ConsumerName :: string
  AckWait :: duration
  MaxDeliver :: int
  MaxAckPending :: int
  FilterSubject :: string
  FilterSubjects :: "string list"
  DeliverPolicy :: deliver_policy
  OptStartTime :: "'time option"

definition buildConsumerConfig ::
  "(string \<Rightarrow> 'time option) \<Rightarrow> c_config \<Rightarrow> string \<Rightarrow> 'time consumer_config" where
  "buildConsumerConfig parseTime c durableName =
     (let filters = buildFilterSubjects c in
      \<lparr>Durable = durableName, ConsumerName = durableName, AckWait = c_Timeout c,
       MaxDeliver = c_MaxRetryAttempts c, MaxAckPending = c_MaxConcurrent c,
       FilterSubject = (if length filters = 1 then filters ! 0 else ''''),
       FilterSubjects = (if length filters > 1 then filters else []),
       DeliverPolicy = (if c_ConsumeFromWhere c = ConsumeFromFirst then DeliverAll
                        else if c_ConsumeFromWhere c = ConsumeFromTimestamp then DeliverByStartTime
                        else DeliverNew),
       OptStartTime = (if c_ConsumeFromWhere c = ConsumeFromTimestamp
                       then parseTime (c_ConsumeTimestamp c) else None)\<rparr>)"

subsection \<open>Delivered messages\<close>

record metadata =
  md_Stream :: nat
  md_NumDelivered :: nat
  md_Timestamp :: int

record raw_msg =
  raw_Headers :: header
  raw_Subject :: string
  raw_Data :: bytes
  raw_Metadata :: "gerr + metadata option"

record cmessage =
  key :: string
  tag :: string
  msg_id :: string
  subject :: string
  body :: bytes
  msg_sequence :: nat
  deliveryCount :: nat
  timestamp :: int

definition newMessage :: "raw_msg \<Rightarrow> string \<Rightarrow> gerr + cmessage" where
  "newMessage raw topic =
     (case raw_Metadata raw of
        Inl e \<Rightarrow> Inl (errorf (''consumer: message metadata: '' @ error_string e) [e])
      | Inr None \<Rightarrow> Inl (errors_New ''consumer: message has no metadata'')
      | Inr (Some md) \<Rightarrow>
          (let t = header_Get (raw_Headers raw) HeaderTag;
               t' = (case cut_prefix (raw_Subject raw) (topic @ ''.'') of
                       Some after \<Rightarrow> if t = '''' then after else t
                     | None \<Rightarrow> t)
           in Inr \<lparr>key = header_Get (raw_Headers raw) HeaderKey, tag = t',
                   msg_id = utoa (md_Stream md), subject = raw_Subject raw, body = raw_Data raw,
                   msg_sequence = md_Stream md, deliveryCount = md_NumDelivered md,
                   timestamp = md_Timestamp md\<rparr>))"

subsection \<open>Settling and the middleware chain\<close>

datatype settle_op = Ack | Nak | NakWithDelay duration | Term | InProgress

text \<open>What handling one message does: telemetry, and settle calls on the message.\<close>

datatype cevent = Tel event | Settle settle_op

datatype houtcome = Returned error | Panicked anyval

record c_meta =
  cm_topic :: string
  cm_group :: string
  cm_serverAddr :: string
  cm_serverPort :: int
  cm_retryBackoff :: duration

text \<open>\<open>settleErr\<close> is the error the message's settle call returns.\<close>

definition settle :: "(settle_op \<Rightarrow> error) \<Rightarrow> settle_op \<Rightarrow> cevent list" where
  "settle settleErr op =
     Settle op # (case settleErr op of
        None \<Rightarrow> []
      | Some e \<Rightarrow> [Tel (Log LWarn ''message settle failed''),
                   Tel (SpanEvent ''messaging.settle.error'' [''error.message'' \<mapsto> VStr (error_string e)])])"

definition outcome_op :: "c_meta \<Rightarrow> error \<Rightarrow> settle_op" where
  "outcome_op m err =
     (case err of
        None \<Rightarrow> Ack
      | Some e \<Rightarrow>
          if errors_Is e ErrNoRetry then Term
          else if cm_retryBackoff m > 0 then NakWithDelay (cm_retryBackoff m)
          else Nak)"

definition settleOutcome :: "(settle_op \<Rightarrow> error) \<Rightarrow> c_meta \<Rightarrow> error \<Rightarrow> cevent list" where
  "settleOutcome settleErr m err = settle settleErr (outcome_op m err)"

type_synonym chandler = "cmessage \<Rightarrow> houtcome \<times> cevent list"

definition c_baseAttrs :: "c_meta \<Rightarrow> attrs" where
  "c_baseAttrs m =
     (let a = [''messaging.system'' \<mapsto> VStr ''nats'', ''messaging.operation.name'' \<mapsto> VStr ''process'',
               ''messaging.operation.type'' \<mapsto> VStr ''process'',
               ''messaging.destination.name'' \<mapsto> VStr (cm_topic m)];
          b = opt_attr (cm_group m \<noteq> '''') ''messaging.consumer.group.name'' (VStr (cm_group m)) a
      in if cm_serverAddr m \<noteq> '''' then
           b(''server.address'' \<mapsto> VStr (cm_serverAddr m), ''server.port'' \<mapsto> VInt (cm_serverPort m))
         else b)"

definition c_messageAttrs :: "cmessage \<Rightarrow> attrs" where
  "c_messageAttrs msg =
     opt_attr (tag msg \<noteq> '''') ''messaging.nats.message.tag'' (VStr (tag msg))
       (opt_attr (key msg \<noteq> '''') ''messaging.nats.message.key'' (VStr (key msg))
         [''messaging.nats.subject'' \<mapsto> VStr (subject msg),
          ''messaging.message.id'' \<mapsto> VStr (msg_id msg),
          ''messaging.message.body.size'' \<mapsto> VInt (int (length (body msg))),
          ''messaging.nats.message.delivery_count'' \<mapsto> VInt (int (deliveryCount msg))])"

text \<open>
  \<open>call\<close>: the handler, with one InProgress settle per heartbeat tick that falls into its
  run; \<open>beats\<close> lists the errors of these calls, and a non-positive interval means no
  heartbeat.
\<close>

definition call ::
  "duration \<Rightarrow> error list \<Rightarrow> (cmessage \<Rightarrow> houtcome) \<Rightarrow> chandler" where
  "call heartbeatEvery beats handlerFunc =
     (\<lambda>msg. (handlerFunc msg,
        if heartbeatEvery > 0 then concat (map (\<lambda>e. settle (\<lambda>_. e) InProgress) beats) else []))"

definition c_panicRecovery :: "chandler \<Rightarrow> chandler" where
  "c_panicRecovery next =
     (\<lambda>msg. let (o', evs) = next msg in
        case o' of
          Returned err \<Rightarrow> (Returned err, evs)
        | Panicked r \<Rightarrow> (Returned (Some (errorf (error_string ErrPanic @ '': '' @ sprint_v r) [ErrPanic])),
            evs @ [Tel (Log LError ''panic recovered'')]))"

definition c_metricsMW :: "c_meta \<Rightarrow> chandler \<Rightarrow> chandler" where
  "c_metricsMW m next =
     (\<lambda>msg. let (o', evs) = next msg in
        case o' of
          Panicked r \<Rightarrow> (Panicked r, evs)
        | Returned err \<Rightarrow>
            (Returned err, evs
               @ [Tel (MetricRecord ''messaging.process.duration''
                    (case err of None \<Rightarrow> c_baseAttrs m
                     | Some e \<Rightarrow> withAttrs (c_baseAttrs m) [''error.type'' \<mapsto> VStr (ErrorType (Some e))])),
                  Tel (MetricAdd ''messaging.client.consumed.messages'' 1 (c_baseAttrs m))]))"

definition c_logger :: "chandler \<Rightarrow> chandler" where
  "c_logger next =
     (\<lambda>msg. let (o', evs) = next msg in
        case o' of
          Panicked r \<Rightarrow> (Panicked r, evs)
        | Returned err \<Rightarrow>
            (Returned err, evs @ [Tel (if err \<noteq> nil then Log LError ''consume message error''
                                       else Log LInfo ''message consumed'')]))"

definition c_tracerMW :: "(settle_op \<Rightarrow> error) \<Rightarrow> c_meta \<Rightarrow> chandler \<Rightarrow> chandler" where
  "c_tracerMW settleErr m next =
     (\<lambda>msg. let opening = Tel (SpanStart (''process '' @ cm_topic m)
                              (withAttrs (c_baseAttrs m) (c_messageAttrs msg)));
                (o', evs) = next msg in
        case o' of
          Panicked r \<Rightarrow> (Panicked r, opening # evs @ [Tel SpanEnd])
        | Returned err \<Rightarrow>
            (Returned err, opening # evs @ settleOutcome settleErr m err
               @ (case err of None \<Rightarrow> []
                  | Some e \<Rightarrow> [Tel (SpanStatusError (error_string e)),
                               Tel (SpanAttrs [''error.type'' \<mapsto> VStr (ErrorType (Some e))])])
               @ [Tel SpanEnd]))"

record handler_adapter =
  h_meta :: c_meta
  h_handlerFunc :: "cmessage \<Rightarrow> houtcome"
  h_handlerTimeout :: duration
  h_heartbeatEvery :: duration

definition newHandlerAdapter ::
  "c_meta \<Rightarrow> c_config \<Rightarrow> (cmessage \<Rightarrow> houtcome) option \<Rightarrow> gerr + handler_adapter" where
  "newHandlerAdapter m cfg handlerFunc =
     (case handlerFunc of
        None \<Rightarrow> Inl (errors_New ''handler function is nil'')
      | Some f \<Rightarrow> Inr \<lparr>h_meta = m\<lparr>cm_retryBackoff := c_RetryBackoff cfg\<rparr>, h_handlerFunc = f,
                       h_handlerTimeout = c_HandlerTimeout cfg,
                       h_heartbeatEvery = go_div (c_Timeout cfg) 2\<rparr>)"

definition consume_chain :: "(settle_op \<Rightarrow> error) \<Rightarrow> error list \<Rightarrow> handler_adapter \<Rightarrow> chandler" where
  "consume_chain settleErr beats h =
     c_tracerMW settleErr (h_meta h) (c_logger (c_metricsMW (h_meta h)
       (c_panicRecovery (call (h_heartbeatEvery h) beats (h_handlerFunc h)))))"

text \<open>\<open>ctxErr\<close> is the error of the run context when the message arrives.\<close>

definition HandleMsg ::
  "(settle_op \<Rightarrow> error) \<Rightarrow> error list \<Rightarrow> error \<Rightarrow> handler_adapter \<Rightarrow> raw_msg \<Rightarrow> houtcome \<times> cevent list" where
  "HandleMsg settleErr beats ctxErr h raw =
     (case newMessage raw (cm_topic (h_meta h)) of
        Inl e \<Rightarrow> (Returned (Some e),
                  Tel (Log LWarn ''message without JetStream metadata'') # settle settleErr Nak)
      | Inr msg \<Rightarrow>
          (case ctxErr of
             Some e \<Rightarrow> (Returned (Some e), settle settleErr Nak)
           | None \<Rightarrow> consume_chain settleErr beats h msg))"

subsection \<open>Delivery slots\<close>

text \<open>
  The concurrency of \<open>consume\<close> and \<open>quiesce\<close>: the semaphore channel, the WaitGroup, the
  handler goroutines that run, those that have released their slot but not yet called
  \<open>wg.Done\<close>, whether a delivery callback sits between the channel send and \<open>wg.Add\<close>,
  and whether the consume context is closed. The channel has \<open>MaxConcurrent\<close> slots.
\<close>

record slots =
  sem :: nat
  wg :: nat
  handling :: nat
  releasing :: nat
  in_callback :: bool
  closed :: bool

definition no_slots :: slots where
  "no_slots = \<lparr>sem = 0, wg = 0, handling = 0, releasing = 0, in_callback = False, closed = False\<rparr>"

text \<open>
  Callbacks run one at a time and not after the consume context is closed, which happens
  only between callbacks (\<open>ConsumeContext.Closed\<close>).
\<close>

inductive slot_step :: "nat \<Rightarrow> slots \<Rightarrow> slots \<Rightarrow> bool" for cap where
  take_slot: "\<not> closed s \<Longrightarrow> \<not> in_callback s \<Longrightarrow> sem s < cap \<Longrightarrow>
    slot_step cap s (s\<lparr>sem := Suc (sem s), in_callback := True\<rparr>)"
| spawn: "in_callback s \<Longrightarrow>
    slot_step cap s (s\<lparr>wg := Suc (wg s), handling := Suc (handling s), in_callback := False\<rparr>)"
| free_slot: "0 < handling s \<Longrightarrow> 0 < sem s \<Longrightarrow>
    slot_step cap s (s\<lparr>sem := sem s - 1, handling := handling s - 1, releasing := Suc (releasing s)\<rparr>)"
| wg_done: "0 < releasing s \<Longrightarrow>
    slot_step cap s (s\<lparr>wg := wg s - 1, releasing := releasing s - 1\<rparr>)"
| close_intake: "\<not> in_callback s \<Longrightarrow> slot_step cap s (s\<lparr>closed := True\<rparr>)"

inductive_cases slot_stepE: "slot_step cap s t"

definition slots_inv :: "nat \<Rightarrow> slots \<Rightarrow> bool" where
  "slots_inv cap s \<longleftrightarrow> sem s = handling s + (if in_callback s then 1 else 0)
     \<and> wg s = handling s + releasing s \<and> sem s \<le> cap \<and> (closed s \<longrightarrow> \<not> in_callback s)"

lemma slots_inv_init: "slots_inv cap no_slots"
  by (simp add: slots_inv_def no_slots_def)

lemma slot_step_inv: "slot_step cap s t \<Longrightarrow> slots_inv cap s \<Longrightarrow> slots_inv cap t"
  by (erule slot_stepE) (auto simp: slots_inv_def)

lemma slots_reach_inv: "(slot_step cap)\<^sup>*\<^sup>* no_slots s \<Longrightarrow> slots_inv cap s"
  by (induction rule: rtranclp_induct) (auto intro: slots_inv_init slot_step_inv)

lemma slots_quiet_step:
  "slot_step cap s t \<Longrightarrow> slots_inv cap s \<Longrightarrow> closed s \<Longrightarrow> wg s = 0 \<Longrightarrow> closed t \<and> wg t = 0"
  by (erule slot_stepE) (auto simp: slots_inv_def)

lemma slots_quiet:
  "(slot_step cap)\<^sup>*\<^sup>* s t \<Longrightarrow> slots_inv cap s \<Longrightarrow> closed s \<Longrightarrow> wg s = 0 \<Longrightarrow>
     closed t \<and> wg t = 0 \<and> slots_inv cap t"
  by (induction rule: rtranclp_induct) (auto dest: slots_quiet_step slot_step_inv)

text \<open>
  \<open>quiesce\<close> and \<open>streamConsumer.shutdown\<close>: \<open>closedErr\<close> and \<open>waitErr\<close> are nil when the
  consume context closes, and the handlers finish, before \<open>ctx\<close> is done, and its error
  otherwise; \<open>drain\<close> is \<open>wire.Drain\<close>. The boolean says that the connection was closed
  without draining.
\<close>

definition quiesce :: "bool \<Rightarrow> error \<Rightarrow> error \<Rightarrow> error" where
  "quiesce hasConsumeCtx closedErr waitErr =
     (if hasConsumeCtx \<and> closedErr \<noteq> nil then closedErr else waitErr)"

definition sc_shutdown :: "bool \<Rightarrow> error \<Rightarrow> error \<Rightarrow> error \<Rightarrow> error \<times> bool" where
  "sc_shutdown hasConsumeCtx closedErr waitErr drain =
     (case quiesce hasConsumeCtx closedErr waitErr of
        Some e \<Rightarrow> (Some e, True)
      | None \<Rightarrow> (drain, False))"

text \<open>
  \<open>dialConsumer\<close>: connect, the JetStream context, the stream, which is created when it is
  missing and otherwise left as it is, and the durable consumer. The results are the
  connection, the writes sent, and the connections closed again.
\<close>

definition dialConsumer ::
  "(string \<Rightarrow> options \<Rightarrow> gerr + 'conn) \<Rightarrow> ('conn \<Rightarrow> error) \<Rightarrow> (string \<Rightarrow> gerr + stream_config)
   \<Rightarrow> (stream_config \<Rightarrow> error) \<Rightarrow> ('time consumer_config \<Rightarrow> error) \<Rightarrow> (string \<Rightarrow> 'time option)
   \<Rightarrow> c_config \<Rightarrow> string \<Rightarrow> (gerr + 'conn) \<times> js_call list \<times> 'conn list" where
  "dialConsumer connect jsNew stream createErr consumerErr parseTime cfg durableName =
     (case connect durableName
             \<lparr>Endpoints = c_Endpoints cfg, Timeout = 0, Token = c_Token cfg,
              Username = c_Username cfg, Password = c_Password cfg, NKey = c_NKey cfg,
              CredentialsFile = c_CredentialsFile cfg\<rparr> of
        Inl e \<Rightarrow> (Inl (errorf (''consumer: '' @ error_string e) [e]), [], [])
      | Inr nc \<Rightarrow>
          (case jsNew nc of
             Some e \<Rightarrow> (Inl (errorf (''consumer: create jetstream: '' @ error_string e) [e]), [], [nc])
           | None \<Rightarrow>
               (let (err, calls) =
                      (case stream (c_Topic cfg) of
                         Inr _ \<Rightarrow> (nil, [])
                       | Inl e \<Rightarrow>
                           if errors_Is e ErrStreamNotFound
                           then (createErr (StreamConfig (c_Topic cfg)), [CreateStream (StreamConfig (c_Topic cfg))])
                           else (Some e, []))
                in case err of
                     Some e \<Rightarrow> (Inl (errorf (''consumer: ensure stream '' @ c_Topic cfg @ '': ''
                                 @ error_string e) [e]), calls, [nc])
                   | None \<Rightarrow>
                       (case consumerErr (buildConsumerConfig parseTime cfg durableName) of
                          Some e \<Rightarrow> (Inl (errorf (''consumer: create consumer '' @ durableName @ '': ''
                                      @ error_string e) [e]), calls, [nc])
                        | None \<Rightarrow> (Inr nc, calls, [])))))"

text \<open>What a dial owes for the outcome of connecting: an error closes what was opened.\<close>

definition settled :: "gerr + 'conn \<Rightarrow> gerr + 'conn \<Rightarrow> 'conn list \<Rightarrow> bool" where
  "settled c r closed' =
     (case c of
        Inl _ \<Rightarrow> isl r \<and> closed' = []
      | Inr nc \<Rightarrow> if isl r then closed' = [nc] else r = Inr nc \<and> closed' = [])"

text \<open>
  \<open>dialConsumer\<close> and \<open>dialProducer\<close> never leak a connection: for every outcome \<open>c\<close> of
  connecting, an error closes the connection that was opened, and success returns it
  open. The consumer never updates a stream: its only write to it is creating a missing
  one with the layout of the topic.
\<close>

theorem dial_no_leak:
  "(case dialConsumer (\<lambda>_ _. c) jsNew stream createErr consumerErr parseTime cfg durableName of
      (r, calls, closed') \<Rightarrow> settled c r closed' \<and> set calls \<subseteq> {CreateStream (StreamConfig (c_Topic cfg))})
   \<and> (case dialProducer (\<lambda>_ _. c) jsNewP ensure pcfg of (r, closed') \<Rightarrow> settled c r closed')"
  by (auto simp: dialConsumer_def dialProducer_def settled_def split: sum.splits option.splits)

subsection \<open>The Consumer\<close>

record registration =
  reg_cfg :: c_config
  reg_handler :: handler_adapter

record 'conn consumer =
  appName :: string
  regs :: "string \<rightharpoonup> registration"
  running :: "'conn list"
  c_started :: bool

definition c_New :: "info \<Rightarrow> gerr + 'conn consumer" where
  "c_New info =
     (case Validate info of
        Some e \<Rightarrow> Inl (errorf (''consumer: '' @ error_string e) [e])
      | None \<Rightarrow>
          if contains (Name info) ''.'' then Inl c_ErrInvalidAppName
          else Inr \<lparr>appName = Name info, regs = Map.empty, running = [], c_started = False\<rparr>)"

definition buildGroupName :: "string \<Rightarrow> string \<Rightarrow> string \<Rightarrow> string" where
  "buildGroupName name topic grp = name @ ''_'' @ topic @ ''_'' @ grp"

text \<open>A registration request: the two library calls, the configuration and the handler.\<close>

record 'time c_request =
  rq_parseTime :: "string \<Rightarrow> 'time option"
  rq_addrPort :: "string list \<Rightarrow> string \<times> int"
  rq_cfg :: c_config
  rq_handler :: "(cmessage \<Rightarrow> houtcome) option"

definition new_registration :: "'time c_request \<Rightarrow> c_config \<Rightarrow> gerr + registration" where
  "new_registration rq cfg =
     (let (addr, port) = rq_addrPort rq (c_Endpoints cfg) in
      case newHandlerAdapter \<lparr>cm_topic = c_Topic cfg, cm_group = c_Group cfg, cm_serverAddr = addr,
             cm_serverPort = port, cm_retryBackoff = 0\<rparr> cfg (rq_handler rq) of
        Inl e \<Rightarrow> Inl (errorf (''consumer: create handler adapter: '' @ error_string e) [e])
      | Inr adapter \<Rightarrow> Inr \<lparr>reg_cfg = cfg, reg_handler = adapter\<rparr>)"

definition c_Register :: "'time c_request \<Rightarrow> 'conn consumer \<Rightarrow> 'conn consumer \<times> error" where
  "c_Register rq c =
     (if c_started c then (c, Some c_ErrAlreadyStarted)
      else if rq_handler rq = None then (c, Some (errors_New ''consumer: handler function is nil''))
      else let cfg = c_SetDefaults (rq_cfg rq) in
        case c_Validate (rq_parseTime rq) cfg of
          Some e \<Rightarrow> (c, Some (errorf (''consumer: register config invalid: '' @ error_string e) [e]))
        | None \<Rightarrow>
            (let name = buildGroupName (appName c) (c_Topic cfg) (c_Group cfg) in
             if regs c name \<noteq> None
             then (c, Some (errorf (error_string c_ErrConsumerExists @ '': '' @ name) [c_ErrConsumerExists]))
             else (case new_registration rq cfg of
                     Inl e \<Rightarrow> (c, Some e)
                   | Inr reg \<Rightarrow> (c\<lparr>regs := (regs c)(name \<mapsto> reg)\<rparr>, nil))))"

lemma new_registration_cfg: "new_registration rq cfg = Inr reg \<Longrightarrow> reg_cfg reg = cfg"
  by (auto simp: new_registration_def split: prod.splits sum.splits)

text \<open>
  What Start meets: the result of \<open>dialConsumer\<close> for a name, of starting delivery on a
  connection, and of shutting a connection down. What it does, in order, is a list of
  effects.
\<close>

record 'conn c_env =
  c_dial :: "string \<Rightarrow> c_config \<Rightarrow> gerr + 'conn"
  consumeErr :: "'conn \<Rightarrow> error"
  shutdownErr :: "'conn \<Rightarrow> error"

datatype 'conn c_effect = Started 'conn | CancelRun | ShutConn 'conn

definition shutdownAll :: "('conn \<Rightarrow> error) \<Rightarrow> 'conn list \<Rightarrow> error \<times> 'conn c_effect list" where
  "shutdownAll err cns =
     (errors_Join (List.map_filter err cns), map ShutConn cns)"

definition startOne ::
  "'conn c_env \<Rightarrow> string \<Rightarrow> registration \<Rightarrow> (gerr + 'conn) \<times> 'conn c_effect list" where
  "startOne env name reg =
     (case c_dial env name (reg_cfg reg) of
        Inl e \<Rightarrow> (Inl (errorf (''consumer: create '' @ name @ '': '' @ error_string e) [e]), [])
      | Inr cn \<Rightarrow>
          (case consumeErr env cn of
             None \<Rightarrow> (Inr cn, [Started cn])
           | Some e \<Rightarrow>
               (Inl (the (errors_Join
                  (errorf (''consumer: subscribe '' @ name @ '': '' @ error_string e) [e]
                   # (case shutdownErr env cn of None \<Rightarrow> [] | Some d \<Rightarrow> [d])))), [ShutConn cn])))"

text \<open>The loop of Start over the names, with the consumers started so far.\<close>

fun start_loop ::
  "'conn c_env \<Rightarrow> (string \<rightharpoonup> registration) \<Rightarrow> string list \<Rightarrow> 'conn list
   \<Rightarrow> (gerr + 'conn list) \<times> 'conn c_effect list" where
  "start_loop env rs [] cns = (Inr cns, [])"
| "start_loop env rs (name # names) cns =
     (case rs name of
        None \<Rightarrow> start_loop env rs names cns
      | Some reg \<Rightarrow>
          (let (r, effs) = startOne env name reg in
           case r of
             Inl e \<Rightarrow>
               (let (serr, seffs) = shutdownAll (shutdownErr env) cns in
                (Inl (the (errors_Join (e # (case serr of None \<Rightarrow> [] | Some d \<Rightarrow> [d])))),
                 effs @ [CancelRun] @ seffs))
           | Inr cn \<Rightarrow>
               (let (r', effs') = start_loop env rs names (cns @ [cn]) in (r', effs @ effs'))))"

text \<open>The names in sorted order, as \<open>slices.Sorted(maps.Keys(regs))\<close> gives them.\<close>

definition c_Start ::
  "'conn c_env \<Rightarrow> 'conn consumer \<Rightarrow> 'conn consumer \<times> error \<times> 'conn c_effect list" where
  "c_Start env c =
     (if c_started c then (c, nil, [])
      else
       (case start_loop env (regs c) (sorted_list_of_set (dom (regs c))) [] of
          (Inl e, effs) \<Rightarrow> (c, Some e, effs)
        | (Inr cns, effs) \<Rightarrow> (c\<lparr>running := cns, c_started := True\<rparr>, nil, effs)))"

definition c_Shutdown ::
  "('conn \<Rightarrow> error) \<Rightarrow> 'conn consumer \<Rightarrow> 'conn consumer \<times> error \<times> 'conn c_effect list" where
  "c_Shutdown serr c =
     (if \<not> c_started c then (c, nil, [])
      else let (e, effs) = shutdownAll serr (running c) in
        (c\<lparr>running := [], c_started := False\<rparr>, e, CancelRun # effs))"

lemma c_Register_cases:
  obtains "fst (c_Register rq c) = c" "snd (c_Register rq c) \<noteq> nil"
  | name reg where "\<not> c_started c" "snd (c_Register rq c) = nil"
    "reg_cfg reg = c_SetDefaults (rq_cfg rq)"
    "c_Validate (rq_parseTime rq) (c_SetDefaults (rq_cfg rq)) = nil"
    "name = buildGroupName (appName c) (c_Topic (c_SetDefaults (rq_cfg rq))) (c_Group (c_SetDefaults (rq_cfg rq)))"
    "regs c name = None" "fst (c_Register rq c) = c\<lparr>regs := (regs c)(name \<mapsto> reg)\<rparr>"
    "new_registration rq (c_SetDefaults (rq_cfg rq)) = Inr reg"
proof (cases "fst (c_Register rq c) = c \<and> snd (c_Register rq c) \<noteq> nil")
  case False
  then obtain reg where "new_registration rq (c_SetDefaults (rq_cfg rq)) = Inr reg" "\<not> c_started c"
    "rq_handler rq \<noteq> None" "c_Validate (rq_parseTime rq) (c_SetDefaults (rq_cfg rq)) = nil"
    "regs c (buildGroupName (appName c) (c_Topic (c_SetDefaults (rq_cfg rq)))
       (c_Group (c_SetDefaults (rq_cfg rq)))) = None"
    by (auto simp: c_Register_def Let_def split: if_splits option.splits sum.splits)
  moreover from this have "c_Register rq c = (c\<lparr>regs := (regs c)(buildGroupName (appName c)
       (c_Topic (c_SetDefaults (rq_cfg rq))) (c_Group (c_SetDefaults (rq_cfg rq))) \<mapsto> reg)\<rparr>, nil)"
    by (simp add: c_Register_def Let_def)
  ultimately show ?thesis
    using new_registration_cfg [of rq _ reg] by (intro that(2)) (simp_all (no_asm_simp))
qed (use that in blast)

interpretation consumer_lifecycle: lifecycle
  c_started "\<lambda>c. dom (regs c)" c_Register
  "\<lambda>env c. (fst (c_Start env c), fst (snd (c_Start env c)))"
  "\<lambda>serr c. (fst (c_Shutdown serr c), fst (snd (c_Shutdown serr c)))"
proof (unfold_locales, goal_cases)
  case (1 c rq)
  then show ?case by (simp add: c_Register_def)
next
  case (2 rq c)
  then show ?case by (cases rule: c_Register_cases [of rq c]) auto
next
  case (3 c rq)
  then show ?case by (cases rule: c_Register_cases [of rq c]) auto
next
  case (4 c rq)
  then show ?case by (cases rule: c_Register_cases [of rq c]) auto
qed (auto simp: c_Start_def c_Shutdown_def shutdownAll_def Let_def
    split: sum.splits prod.splits if_splits)

subsection \<open>Settling: one final settle per delivery\<close>

text \<open>The settle calls of a run, and its telemetry.\<close>

definition settles :: "cevent list \<Rightarrow> settle_op list" where
  "settles evs = List.map_filter (\<lambda>e. case e of Settle op \<Rightarrow> Some op | Tel _ \<Rightarrow> None) evs"

definition telemetry :: "cevent list \<Rightarrow> event list" where
  "telemetry evs = List.map_filter (\<lambda>e. case e of Settle _ \<Rightarrow> None | Tel t \<Rightarrow> Some t) evs"

lemma settles_simps [simp]:
  "settles [] = []" "settles (Settle op # evs) = op # settles evs" "settles (Tel t # evs) = settles evs"
  "settles (evs @ evs') = settles evs @ settles evs'"
  by (simp_all add: settles_def List.map_filter_def)

lemma telemetry_simps [simp]:
  "telemetry [] = []" "telemetry (Settle op # evs) = telemetry evs"
  "telemetry (Tel t # evs) = t # telemetry evs"
  "telemetry (evs @ evs') = telemetry evs @ telemetry evs'"
  by (simp_all add: telemetry_def List.map_filter_def)

lemma settles_settle [simp]: "settles (settle f op) = [op]"
  by (simp add: settle_def split: option.split)

lemma telemetry_settle [simp]:
  "spans_opened (telemetry (settle f op)) = 0" "spans_ended (telemetry (settle f op)) = 0"
  "recorded n (telemetry (settle f op)) = 0" "added n (telemetry (settle f op)) = 0"
  by (simp_all add: settle_def trace_defs split: option.split)

lemma settles_beats [simp]:
  "settles (concat (map (\<lambda>e. settle (\<lambda>_. e) op) es)) = replicate (length es) op"
  by (induction es) simp_all

lemma telemetry_beats [simp]:
  "spans_opened (telemetry (concat (map (\<lambda>e. settle (\<lambda>_. e) op) es))) = 0"
  "spans_ended (telemetry (concat (map (\<lambda>e. settle (\<lambda>_. e) op) es))) = 0"
  "recorded n (telemetry (concat (map (\<lambda>e. settle (\<lambda>_. e) op) es))) = 0"
  "added n (telemetry (concat (map (\<lambda>e. settle (\<lambda>_. e) op) es))) = 0"
  by (induction es) simp_all

lemmas chain_defs = consume_chain_def c_tracerMW_def c_logger_def c_metricsMW_def c_panicRecovery_def
  call_def settleOutcome_def Let_def

text \<open>What the handler's run amounts to for the layers above it: a panic is an error that is retried.\<close>

definition handler_error :: "houtcome \<Rightarrow> error" where
  "handler_error o' = (case o' of Returned err \<Rightarrow> err
     | Panicked r \<Rightarrow> Some (errorf (error_string ErrPanic @ '': '' @ sprint_v r) [ErrPanic]))"

lemma panic_is_retried: "handler_error (Panicked r) = Some e \<Longrightarrow> \<not> errors_Is e ErrNoRetry"
  by (auto simp: handler_error_def ErrPanic_def ErrNoRetry_def)

lemma outcome_op_handler:
  "outcome_op m (handler_error o') =
     (let retry = (if cm_retryBackoff m > 0 then NakWithDelay (cm_retryBackoff m) else Nak) in
      case o' of Panicked _ \<Rightarrow> retry | Returned None \<Rightarrow> Ack
      | Returned (Some e) \<Rightarrow> if errors_Is e ErrNoRetry then Term else retry)"
  using panic_is_retried by (auto simp: outcome_op_def handler_error_def split: houtcome.split option.split)

lemma consume_chain_settles:
  "settles (snd (consume_chain settleErr beats h msg)) =
     replicate (if h_heartbeatEvery h > 0 then length beats else 0) InProgress
       @ [outcome_op (h_meta h) (handler_error (h_handlerFunc h msg))]"
  "fst (consume_chain settleErr beats h msg) = Returned (handler_error (h_handlerFunc h msg))"
  by (auto simp: chain_defs handler_error_def split: houtcome.splits option.splits)

lemma consume_chain_telemetry:
  "spans_opened (telemetry (snd (consume_chain settleErr beats h msg))) = 1"
  "spans_ended (telemetry (snd (consume_chain settleErr beats h msg))) = 1"
  "recorded ''messaging.process.duration'' (telemetry (snd (consume_chain settleErr beats h msg))) = 1"
  "added ''messaging.client.consumed.messages'' (telemetry (snd (consume_chain settleErr beats h msg))) = 1"
  by (auto simp: chain_defs split: houtcome.splits option.splits)


text \<open>
  A message that reaches the handler chain opens one process span and ends it,
  records one duration and counts one consumed message, whatever the handler does,
  panics included; a message turned back before the chain records nothing.
\<close>

theorem HandleMsg_telemetry:
  "let evs = telemetry (snd (HandleMsg settleErr beats ctxErr h raw));
       n = (if isl (newMessage raw (cm_topic (h_meta h))) \<or> ctxErr \<noteq> nil then 0 else 1)
   in spans_opened evs = n \<and> spans_ended evs = n
      \<and> recorded ''messaging.process.duration'' evs = n
      \<and> added ''messaging.client.consumed.messages'' evs = n"
  by (auto simp: HandleMsg_def consume_chain_telemetry Let_def split: sum.splits option.splits)

subsection \<open>Slots: the bound and the quiet shutdown\<close>

text \<open>
  C3: no schedule of deliveries, completions and shutdown runs more than
  \<open>MaxConcurrent\<close> handlers at once, the WaitGroup counter never goes below the
  goroutines that still have to call Done, and a slot is never lost: when no callback
  and no handler runs, the semaphore is empty.
\<close>

theorem slots_bounded:
  assumes "(slot_step cap)\<^sup>*\<^sup>* no_slots s"
  shows "handling s \<le> cap \<and> handling s + releasing s \<le> wg s
    \<and> (handling s = 0 \<and> \<not> in_callback s \<longleftrightarrow> sem s = 0)"
  using slots_reach_inv [OF assms] by (auto simp: slots_inv_def)

lemma one_slot_reach: "(slot_step 1)\<^sup>*\<^sup>* no_slots (no_slots\<lparr>sem := 1, wg := 1, handling := 1\<rparr>)"
  using take_slot [of no_slots 1] spawn [of "no_slots\<lparr>sem := 1, in_callback := True\<rparr>" 1]
  by (simp add: no_slots_def rtranclp.rtrancl_into_rtrancl)

theorem slots_bounded_witness: "handling (no_slots\<lparr>sem := 1, wg := 1, handling := 1\<rparr>) \<le> 1"
  using slots_bounded [OF one_slot_reach] by blast

text \<open>
  \<open>quiesce\<close> is sound: once the consume context is closed and \<open>wg.Wait\<close> returned,
  no handler runs and none ever starts again, so the connection can be drained.
\<close>

theorem quiesce_final:
  assumes "(slot_step cap)\<^sup>*\<^sup>* no_slots s" and "closed s" and "wg s = 0"
    and "(slot_step cap)\<^sup>*\<^sup>* s t"
  shows "handling t = 0 \<and> releasing t = 0 \<and> \<not> in_callback t"
  using slots_quiet [OF assms(4) slots_reach_inv [OF assms(1)] assms(2,3)] by (simp add: slots_inv_def)

theorem quiesce_final_witness: "handling (no_slots\<lparr>closed := True\<rparr>) = 0"
proof -
  have "(slot_step 1)\<^sup>*\<^sup>* no_slots (no_slots\<lparr>closed := True\<rparr>)"
    using close_intake [of no_slots 1] by (simp add: no_slots_def)
  then show ?thesis
    using quiesce_final [of 1 "no_slots\<lparr>closed := True\<rparr>" "no_slots\<lparr>closed := True\<rparr>"]
    by (simp add: no_slots_def)
qed

text \<open>
  The slots never deadlock: a full semaphore always has a handler that can release it.
\<close>

lemma slots_live: "slots_inv cap s \<Longrightarrow> sem s = cap \<Longrightarrow> 0 < cap \<Longrightarrow> \<exists>t. slot_step cap s t"
  using spawn [of s cap] free_slot [of s cap] by (cases "in_callback s") (auto simp: slots_inv_def)

subsection \<open>Filters against published subjects\<close>

lemma tag_errors_nil_iff: "tag_errors tags = [] \<longleftrightarrow> (\<forall>t \<in> set tags. t \<noteq> '''' \<and> CHR ''.'' \<notin> set t)"
  by (induction tags) auto

text \<open>What a valid configuration gives, after the defaults.\<close>

lemma c_Validate_nil_iff:
  "c_Validate parseTime c = nil \<longleftrightarrow>
     c_Endpoints c \<noteq> [] \<and> c_Topic c \<noteq> '''' \<and> CHR ''.'' \<notin> set (c_Topic c)
     \<and> c_Group c \<noteq> '''' \<and> CHR ''.'' \<notin> set (c_Group c) \<and> tag_errors (c_Tags c) = []
     \<and> c_ConsumeFromWhere c \<in> {ConsumeFromLast, ConsumeFromFirst, ConsumeFromTimestamp}
     \<and> \<not> (c_ConsumeFromWhere c = ConsumeFromTimestamp \<and> parseTime (c_ConsumeTimestamp c) = None)
     \<and> 0 \<le> c_RetryBackoff c \<and> 0 < c_HandlerTimeout c \<and> MinTimeout \<le> c_Timeout c"
  by (simp add: c_Validate_def if_Nil_simps not_less not_le)

lemma c_SetDefaults_simps [simp]:
  "c_Topic (c_SetDefaults c) = c_Topic c" "c_Group (c_SetDefaults c) = c_Group c"
  "c_Endpoints (c_SetDefaults c) = c_Endpoints c" "c_RetryBackoff (c_SetDefaults c) = c_RetryBackoff c"
  "c_Tags (c_SetDefaults c) = (if c_Tags c = [] then [DefaultTags] else c_Tags c)"
  "c_Timeout (c_SetDefaults c) = (if c_Timeout c \<le> 0 then c_DefaultTimeout else c_Timeout c)"
  "c_MaxConcurrent (c_SetDefaults c) = (if c_MaxConcurrent c \<le> 0 then DefaultMaxConcurrent else c_MaxConcurrent c)"
  "c_MaxRetryAttempts (c_SetDefaults c) =
     (if c_MaxRetryAttempts c \<le> 0 then DefaultMaxRetryAttempts else c_MaxRetryAttempts c)"
  by (auto simp: c_SetDefaults_def Let_def)

text \<open>The subjects the server filters on: the one subject, or the list.\<close>

definition delivers :: "'time consumer_config \<Rightarrow> string \<Rightarrow> bool" where
  "delivers cc subj \<longleftrightarrow>
     (\<exists>f \<in> set (if FilterSubject cc \<noteq> '''' then [FilterSubject cc] else FilterSubjects cc). matches f subj)"

lemma delivers_config:
  assumes "c_Topic c \<noteq> ''''"
  shows "delivers (buildConsumerConfig parseTime c durable) subj \<longleftrightarrow>
    (\<exists>f \<in> set (buildFilterSubjects c). matches f subj)"
proof -
  have "f \<noteq> ''''" if "f \<in> set (buildFilterSubjects c)" for f
    using that assms by (auto simp: buildFilterSubjects_def DataSubjects_def split: if_splits)
  then show ?thesis
    by (cases "buildFilterSubjects c"; cases "tl (buildFilterSubjects c)")
      (auto simp: delivers_def buildConsumerConfig_def Let_def)
qed

lemma tokens_subject:
  assumes "CHR ''.'' \<notin> set topic" and "CHR ''.'' \<notin> set t"
  shows "tokens topic = [topic]" "tokens (topic @ ''.'' @ t) = [topic, t]"
    "tokens (buildSubject topic t) = (if t = '''' \<or> t = topic then [topic] else [topic, t])"
  using assms by (auto simp: tokens_def split_on_append_sep buildSubject_def)


definition orders_consumer :: "string list \<Rightarrow> c_config" where
  "orders_consumer tags = c_SetDefaults \<lparr>c_Endpoints = [''127.0.0.1:4222''], c_Topic = ''orders'',
     c_Group = ''billing'', c_Tags = tags, c_Timeout = 0, c_HandlerTimeout = 0, c_MaxRetryAttempts = 0,
     c_MaxConcurrent = 0, c_ConsumeFromWhere = '''', c_ConsumeTimestamp = '''', c_RetryBackoff = 0,
     c_Token = '''', c_Username = '''', c_Password = '''', c_NKey = '''', c_CredentialsFile = ''''\<rparr>"

lemma orders_consumer_valid:
  "tag_errors tags = [] \<Longrightarrow> c_Validate parseTime (orders_consumer tags) = nil"
  by (auto simp: c_Validate_nil_iff orders_consumer_def c_SetDefaults_def consumer_consts Let_def)

lemma orders_consumer_fields [simp]:
  "c_Topic (orders_consumer tags) = ''orders''" "c_Group (orders_consumer tags) = ''billing''"
  "c_Tags (orders_consumer tags) = (if tags = [] then [''*''] else tags)"
  by (simp_all add: orders_consumer_def DefaultTags_def)


text \<open>
  The tag \<open>*\<close> stands for every message of the topic only when it is the whole list.
  Beside another tag it loses the untagged messages, although the configuration says it
  selects every message of the topic.
\<close>

theorem star_beside_tag_misses_untagged:
  "c_Validate parseTime (orders_consumer [''*'', ''eu'']) = nil
   \<and> \<not> delivers (buildConsumerConfig parseTime (orders_consumer [''*'', ''eu'']) durable) (buildSubject ''orders'' '''')
   \<and> delivers (buildConsumerConfig parseTime (orders_consumer [''*'']) durable) (buildSubject ''orders'' '''')"
  by (auto simp: orders_consumer_valid delivers_def buildConsumerConfig_def buildFilterSubjects_def
      DefaultTags_def buildSubject_def matches_def tokens_def DataSubjects_def Let_def)

text \<open>
  Whatever configuration Register accepts, the consumer it stores can run: the
  heartbeat ticker gets a positive interval that beats at least twice per AckWait, the
  handler deadline, the concurrency and the delivery limit are positive, the backoff is
  not negative, and a start by timestamp has its time.
\<close>

theorem c_Register_runnable:
  assumes "c_Register rq c = (c', nil)"
  shows "\<exists>name reg. regs c name = None \<and> c' = c\<lparr>regs := (regs c)(name \<mapsto> reg)\<rparr>
    \<and> (let cc = buildConsumerConfig (rq_parseTime rq) (reg_cfg reg) name; h = reg_handler reg in
       0 < h_heartbeatEvery h \<and> 2 * h_heartbeatEvery h \<le> AckWait cc \<and> 0 < h_handlerTimeout h
       \<and> 0 < MaxAckPending cc \<and> 0 < MaxDeliver cc \<and> 0 \<le> cm_retryBackoff (h_meta h)
       \<and> (DeliverPolicy cc = DeliverByStartTime \<longleftrightarrow> OptStartTime cc \<noteq> None))"
proof (cases rule: c_Register_cases [of rq c])
  case 1
  then show ?thesis using assms by simp
next
  case (2 name reg)
  let ?cfg = "c_SetDefaults (rq_cfg rq)"
  have h: "h_heartbeatEvery (reg_handler reg) = go_div (c_Timeout ?cfg) 2"
    "h_handlerTimeout (reg_handler reg) = c_HandlerTimeout ?cfg"
    "cm_retryBackoff (h_meta (reg_handler reg)) = c_RetryBackoff ?cfg"
    using 2(8) by (auto simp: new_registration_def newHandlerAdapter_def split: prod.splits option.splits)
  have valid: "MinTimeout \<le> c_Timeout ?cfg" "0 < c_HandlerTimeout ?cfg" "0 \<le> c_RetryBackoff ?cfg"
    "\<not> (c_ConsumeFromWhere ?cfg = ConsumeFromTimestamp \<and> rq_parseTime rq (c_ConsumeTimestamp ?cfg) = None)"
    using 2(4) by (simp_all add: c_Validate_nil_iff del: c_SetDefaults_simps)
  then have "0 < go_div (c_Timeout ?cfg) 2" "2 * go_div (c_Timeout ?cfg) 2 \<le> c_Timeout ?cfg"
    by (auto simp: consumer_consts simp del: c_SetDefaults_simps)
  with valid h 2 assms show ?thesis
    by (intro exI [of _ name] exI [of _ reg])
      (auto simp: buildConsumerConfig_def Let_def consumer_consts)
qed

theorem c_Register_runnable_witness:
  "\<exists>(c' :: nat consumer) name reg. regs c' name = Some reg \<and> 0 < h_heartbeatEvery (reg_handler reg)"
proof -
  define rq where "rq = \<lparr>rq_parseTime = \<lambda>_. None :: int option, rq_addrPort = \<lambda>_. (''127.0.0.1'', 4222),
    rq_cfg = orders_consumer [], rq_handler = Some (\<lambda>_. Returned nil)\<rparr>"
  define c where "c = (\<lparr>appName = ''app'', regs = Map.empty, running = [], c_started = False\<rparr> :: nat consumer)"
  have "c_SetDefaults (orders_consumer []) = orders_consumer []"
    by (simp add: orders_consumer_def c_SetDefaults_def consumer_consts Let_def)
  then have "snd (c_Register rq c) = nil"
    using orders_consumer_valid [of "[]" "\<lambda>_. None :: int option"]
    by (simp add: c_Register_def new_registration_def newHandlerAdapter_def rq_def c_def Let_def)
  then have "c_Register rq c = (fst (c_Register rq c), nil)" by (metis prod.collapse)
  from c_Register_runnable [OF this] obtain name reg
    where "fst (c_Register rq c) = c\<lparr>regs := (regs c)(name \<mapsto> reg)\<rparr>" "0 < h_heartbeatEvery (reg_handler reg)"
    by (auto simp: Let_def)
  then show ?thesis
    by (intro exI [of _ "fst (c_Register rq c)"] exI [of _ name] exI [of _ reg]) simp
qed

subsection \<open>Start, Shutdown and the registrations\<close>

text \<open>A registration that starts: its connection is dialled and delivery begins on it.\<close>

definition starts :: "'conn c_env \<Rightarrow> (string \<rightharpoonup> registration) \<Rightarrow> string \<Rightarrow> 'conn \<Rightarrow> bool" where
  "starts env rs name cn \<longleftrightarrow>
     (\<exists>reg. rs name = Some reg \<and> c_dial env name (reg_cfg reg) = Inr cn \<and> consumeErr env cn = nil)"

lemma startOne_ok: "startOne env name reg = (Inr cn, effs) \<Longrightarrow> rs name = Some reg \<Longrightarrow>
    effs = [Started cn] \<and> starts env rs name cn"
  by (auto simp: startOne_def starts_def split: sum.splits option.splits)

lemma startOne_fail: "startOne env name reg = (Inl e, effs) \<Longrightarrow> rs name = Some reg \<Longrightarrow>
    length effs \<le> 1 \<and> set effs \<subseteq> range ShutConn \<and> (\<nexists>cn. starts env rs name cn)"
  by (auto simp: startOne_def starts_def split: sum.splits option.splits)

lemma start_loop_spec:
  assumes "set names \<subseteq> dom rs"
  shows "(\<exists>new. start_loop env rs names cns = (Inr (cns @ new), map Started new) \<and> list_all2 (starts env rs) names new)
    \<or> (\<exists>e new pre. start_loop env rs names cns = (Inl e, map Started new @ pre @ CancelRun # map ShutConn (cns @ new))
        \<and> length pre \<le> 1 \<and> set pre \<subseteq> range ShutConn \<and> (\<exists>name \<in> set names. \<nexists>cn. starts env rs name cn))"
  using assms
proof (induction names arbitrary: cns)
  case (Cons name names)
  then obtain reg where reg: "rs name = Some reg" by auto
  obtain r effs where one: "startOne env name reg = (r, effs)" by (cases "startOne env name reg")
  show ?case
  proof (cases r)
    case (Inl e)
    obtain e' where "start_loop env rs (name # names) cns = (Inl e', effs @ CancelRun # map ShutConn cns)"
      using one Inl reg by (simp add: shutdownAll_def)
    then show ?thesis
      using startOne_fail [of env name reg e effs rs] one Inl reg
      by (intro disjI2 exI [of _ e'] exI [of _ "[]"] exI [of _ effs]) simp
  next
    case (Inr cn)
    with one reg have cn: "effs = [Started cn]" "starts env rs name cn"
      using startOne_ok [of env name reg cn effs rs] by simp_all
    from Cons.prems have "set names \<subseteq> dom rs" by simp
    from Cons.IH [OF this, of "cns @ [cn]"] show ?thesis
    proof (elim disjE exE conjE)
      fix new
      assume "start_loop env rs names (cns @ [cn]) = (Inr ((cns @ [cn]) @ new), map Started new)"
        "list_all2 (starts env rs) names new"
      then show ?thesis using reg one Inr cn by (intro disjI1 exI [of _ "cn # new"]) simp
    next
      fix e new pre
      assume "start_loop env rs names (cns @ [cn]) =
          (Inl e, map Started new @ pre @ CancelRun # map ShutConn ((cns @ [cn]) @ new))"
        "length pre \<le> 1" "set pre \<subseteq> range ShutConn" "\<exists>name \<in> set names. \<nexists>cn. starts env rs name cn"
      then show ?thesis
        using reg one Inr cn by (intro disjI2 exI [of _ e] exI [of _ "cn # new"] exI [of _ pre]) auto
    qed
  qed
qed simp

text \<open>
  Start is all or nothing. If every registered consumer can start, Start returns nil,
  has started exactly one connection per registration in the order of the sorted names,
  and keeps them as running. Otherwise it returns an error, leaves the Consumer as it was,
  and first cancels the run and then shuts down every connection it had started, in order.
\<close>

theorem c_Start_all_or_nothing:
  assumes "\<not> c_started c" and "finite (dom (regs c))"
  shows "if \<forall>name \<in> dom (regs c). \<exists>cn. starts env (regs c) name cn
    then \<exists>cns. c_Start env c = (c\<lparr>running := cns, c_started := True\<rparr>, nil, map Started cns)
           \<and> list_all2 (starts env (regs c)) (sorted_list_of_set (dom (regs c))) cns
    else \<exists>e cns pre. c_Start env c = (c, Some e, map Started cns @ pre @ CancelRun # map ShutConn cns)
           \<and> length pre \<le> 1 \<and> set pre \<subseteq> range ShutConn"
proof -
  let ?names = "sorted_list_of_set (dom (regs c))"
  have names: "set ?names = dom (regs c)" using assms(2) by simp
  then have "set ?names \<subseteq> dom (regs c)" by simp
  from start_loop_spec [OF this, of env "[]"] show ?thesis
  proof (elim disjE exE conjE)
    fix new
    assume loop: "start_loop env (regs c) ?names [] = (Inr ([] @ new), map Started new)"
      and all: "list_all2 (starts env (regs c)) ?names new"
    from all have "\<exists>cn. starts env (regs c) name cn" if "name \<in> set ?names" for name
      using that by (metis in_set_conv_nth list_all2_conv_all_nth)
    with loop all names assms(1) show ?thesis by (auto simp: c_Start_def)
  next
    fix e new pre
    assume "start_loop env (regs c) ?names [] = (Inl e, map Started new @ pre @ CancelRun # map ShutConn ([] @ new))"
      "length pre \<le> 1" "set pre \<subseteq> range ShutConn" "\<exists>name \<in> set ?names. \<nexists>cn. starts env (regs c) name cn"
    with names assms(1) show ?thesis by (auto simp: c_Start_def)
  qed
qed

definition one_registered :: "nat consumer" where
  "one_registered = \<lparr>appName = ''app'',
     regs = [''app_orders_billing'' \<mapsto> \<lparr>reg_cfg = orders_consumer [],
       reg_handler = \<lparr>h_meta = \<lparr>cm_topic = ''orders'', cm_group = ''billing'', cm_serverAddr = '''',
           cm_serverPort = 0, cm_retryBackoff = 0\<rparr>, h_handlerFunc = \<lambda>_. Returned nil,
         h_handlerTimeout = minute, h_heartbeatEvery = second\<rparr>\<rparr>],
     running = [], c_started = False\<rparr>"

theorem c_Start_all_or_nothing_witness:
  "fst (snd (c_Start \<lparr>c_dial = \<lambda>_ _. Inr 7, consumeErr = \<lambda>_. nil, shutdownErr = \<lambda>_. nil\<rparr> one_registered)) = nil
   \<and> fst (snd (c_Start \<lparr>c_dial = \<lambda>_ _. Inl ErrPanic, consumeErr = \<lambda>_. nil, shutdownErr = \<lambda>_. nil\<rparr> one_registered)) \<noteq> nil"
proof -
  have c: "\<not> c_started one_registered" "finite (dom (regs one_registered))"
    by (simp_all add: one_registered_def)
  show ?thesis
    using c_Start_all_or_nothing [OF c, of "\<lparr>c_dial = \<lambda>_ _. Inr 7, consumeErr = \<lambda>_. nil, shutdownErr = \<lambda>_. nil\<rparr>"]
      c_Start_all_or_nothing [OF c, of "\<lparr>c_dial = \<lambda>_ _. Inl ErrPanic, consumeErr = \<lambda>_. nil, shutdownErr = \<lambda>_. nil\<rparr>"]
    by (auto simp: starts_def one_registered_def split: if_splits)
qed

text \<open>
  The durable name does not separate topic and group: two different topic and group
  pairs give the same name, so the second Register fails as a duplicate although no
  consumer is registered for its topic and group.
\<close>

theorem buildGroupName_collides:
  assumes "regs c (buildGroupName (appName c) ''a_b'' ''c'') \<noteq> None" and "\<not> c_started c"
    and "rq_handler rq \<noteq> None" and "c_Topic (rq_cfg rq) = ''a''" and "c_Group (rq_cfg rq) = ''b_c''"
    and "c_Validate (rq_parseTime rq) (c_SetDefaults (rq_cfg rq)) = nil"
  shows "\<exists>e. c_Register rq c = (c, Some e) \<and> errors_Is e c_ErrConsumerExists"
proof -
  have "buildGroupName (appName c) ''a'' ''b_c'' = buildGroupName (appName c) ''a_b'' ''c''"
    by (simp add: buildGroupName_def)
  then show ?thesis
    using assms by (simp add: c_Register_def Let_def c_ErrConsumerExists_def)
qed

theorem buildGroupName_collides_witness:
  "\<exists>(c :: nat consumer) rq :: int c_request. \<exists>e. c_Register rq c = (c, Some e) \<and> errors_Is e c_ErrConsumerExists"
proof -
  let ?c = "one_registered\<lparr>regs := [''app_a_b_c'' \<mapsto> undefined]\<rparr>"
  let ?rq = "\<lparr>rq_parseTime = \<lambda>_. None :: int option, rq_addrPort = \<lambda>_. ('''', 0),
    rq_cfg = (orders_consumer [])\<lparr>c_Topic := ''a'', c_Group := ''b_c''\<rparr>, rq_handler = Some (\<lambda>_. Returned nil)\<rparr>"
  have "c_Validate (\<lambda>_. None :: int option) (c_SetDefaults ((orders_consumer [])\<lparr>c_Topic := ''a'', c_Group := ''b_c''\<rparr>)) = nil"
    by (simp add: c_Validate_nil_iff orders_consumer_def c_SetDefaults_def consumer_consts Let_def)
  then show ?thesis
    using buildGroupName_collides [of ?c ?rq] by (fastforce simp: one_registered_def buildGroupName_def)
qed

end
