(* ===== verification/Nats_Trace.thy ===== *)
theory Nats_Trace
  imports Nats_Producer Nats_Consumer
begin

text \<open>
  The trace context of a message: the header carriers of \<open>nats/producer/telemetry.go\<close> and
  \<open>nats/consumer/middleware.go\<close>, through which the propagator writes into a message that is published
  and reads from a message that is delivered. The propagator is a parameter: the keys and values its
  \<open>Inject\<close> sets on a carrier. The locale \<open>text_map_carrier\<close> is the contract of a carrier, interpreted
  on both; a nil header is \<^term>\<open>None\<close>, and \<open>order\<close> is the order in which Go ranges over a map.
\<close>

definition p_carrier_Get :: "header \<Rightarrow> string \<Rightarrow> string" where
  "p_carrier_Get h k = header_Get h k"

definition p_carrier_Set :: "string \<Rightarrow> string \<Rightarrow> header \<Rightarrow> header" where
  "p_carrier_Set k v h = header_Set k v h"

definition p_carrier_Keys :: "(header \<Rightarrow> string list) \<Rightarrow> header \<Rightarrow> string list" where
  "p_carrier_Keys order h = order h"

definition c_carrier_Get :: "header option \<Rightarrow> string \<Rightarrow> string" where
  "c_carrier_Get h k = (case h of None \<Rightarrow> '''' | Some m \<Rightarrow> header_Get m k)"

definition c_carrier_Set :: "string \<Rightarrow> string \<Rightarrow> header option \<Rightarrow> header option" where
  "c_carrier_Set k v h = map_option (header_Set k v) h"

definition c_carrier_Keys :: "(header \<Rightarrow> string list) \<Rightarrow> header option \<Rightarrow> string list" where
  "c_carrier_Keys order h = (case h of None \<Rightarrow> [] | Some m \<Rightarrow> order m)"

text \<open>
  A carrier that can be written (\<open>live\<close>) returns what was set last, and setting a key leaves the
  others alone.
\<close>

locale text_map_carrier =
  fixes Get :: "'h \<Rightarrow> string \<Rightarrow> string"
    and Set :: "string \<Rightarrow> string \<Rightarrow> 'h \<Rightarrow> 'h"
    and live :: "'h \<Rightarrow> bool"
  assumes get_set: "live h \<Longrightarrow> Get (Set k v h) k' = (if k' = k then v else Get h k')"
    and set_live: "live h \<Longrightarrow> live (Set k v h)"
begin

lemma get_writes_other: "live h \<Longrightarrow> k \<notin> fst ` set ws \<Longrightarrow> Get (fold (\<lambda>(k, v). Set k v) ws h) k = Get h k"
  by (induction ws arbitrary: h) (auto simp: get_set set_live)

lemma get_writes: "live h \<Longrightarrow> distinct (map fst ws) \<Longrightarrow> (k, v) \<in> set ws \<Longrightarrow> Get (fold (\<lambda>(k, v). Set k v) ws h) k = v"
proof (induction ws arbitrary: h)
  case (Cons w ws)
  obtain k' v' where w: "w = (k', v')" by (cases w)
  show ?case
  proof (cases "(k, v) \<in> set ws")
    case True
    with Cons show ?thesis by (simp add: w set_live)
  next
    case False
    with Cons.prems have "k = k'" "v = v'" "k' \<notin> fst ` set ws" by (auto simp: w)
    with Cons.prems(1) show ?thesis by (simp add: w get_writes_other set_live get_set)
  qed
qed simp

end

interpretation p_carrier: text_map_carrier p_carrier_Get p_carrier_Set "\<lambda>_. True"
  by unfold_locales (simp_all add: p_carrier_Get_def p_carrier_Set_def)

interpretation c_carrier: text_map_carrier c_carrier_Get c_carrier_Set "\<lambda>h. h \<noteq> None"
  by unfold_locales (auto simp: c_carrier_Get_def c_carrier_Set_def)

text \<open>The message headers made when there are none, and the propagator's writes on the carrier.\<close>

definition injectTraceContext :: "(string \<times> string) list \<Rightarrow> header option \<Rightarrow> header" where
  "injectTraceContext writes h =
     fold (\<lambda>(k, v). p_carrier_Set k v) writes (case h of None \<Rightarrow> Map.empty | Some m \<Rightarrow> m)"

text \<open>What the producer injects is what the consumer's carrier reads, and no other header changes.\<close>

lemma injected_read:
  "distinct (map fst writes) \<Longrightarrow> (k, v) \<in> set writes \<Longrightarrow> c_carrier_Get (Some (injectTraceContext writes h)) k = v"
  using p_carrier.get_writes [where ws = writes and k = k and v = v]
  by (simp add: c_carrier_Get_def injectTraceContext_def p_carrier_Get_def)

lemma injected_other:
  "k \<notin> fst ` set writes \<Longrightarrow> header_Get (injectTraceContext writes (Some m)) k = header_Get m k"
  using p_carrier.get_writes_other [where ws = writes and k = k and h = m]
  by (simp add: injectTraceContext_def p_carrier_Get_def)

end
