(* ===== verification/Db_Scan.thy ===== *)
theory Db_Scan
  imports Go_Prelude
begin

text \<open>
  The SQL scanner of package \<open>db\<close> (\<open>bind.go\<close>): the index-based functions that skip
  literals, quoted identifiers, comments and dollar-quoted strings, and the scan for
  placeholders. The second half gives the specification they implement, a tokenisation
  of the query into literals and bytes, and shows that each scanner computes it.
\<close>

subsection \<open>Byte classes\<close>

datatype dialect = dialectMySQL | dialectPostgres | dialectGeneric

definition isNameStart :: "char \<Rightarrow> bool" where
  "isNameStart c \<longleftrightarrow> c = CHR ''_'' \<or> byte_between CHR ''a'' CHR ''z'' c
     \<or> byte_between CHR ''A'' CHR ''Z'' c \<or> high_byte c"

definition isDollarTagChar :: "char \<Rightarrow> bool" where
  "isDollarTagChar c \<longleftrightarrow> c = CHR ''_'' \<or> byte_between CHR ''0'' CHR ''9'' c
     \<or> byte_between CHR ''a'' CHR ''z'' c \<or> byte_between CHR ''A'' CHR ''Z'' c \<or> high_byte c"

definition isIdentChar :: "char \<Rightarrow> bool" where
  "isIdentChar c \<longleftrightarrow> c = CHR ''_'' \<or> c = CHR ''$'' \<or> byte_between CHR ''0'' CHR ''9'' c
     \<or> byte_between CHR ''a'' CHR ''z'' c \<or> byte_between CHR ''A'' CHR ''Z'' c \<or> high_byte c"

definition newline :: char where "newline = CHR 0x0A"

definition isSpaceByte :: "char \<Rightarrow> bool" where
  "isSpaceByte c \<longleftrightarrow> c \<in> {CHR '' '', CHR 0x09, newline, CHR 0x0D, CHR 0x0C, CHR 0x0B}"

definition backslash :: char where "backslash = CHR 0x5C"
definition squote :: char where "squote = CHR 0x27"
definition dquote :: char where "dquote = CHR 0x22"
definition backtick :: char where "backtick = CHR 0x60"

lemmas special_chars = backslash_def squote_def dquote_def backtick_def newline_def

subsection \<open>The scanners, by index\<close>

function skipQuoted_loop :: "string \<Rightarrow> char \<Rightarrow> bool \<Rightarrow> nat \<Rightarrow> nat" where
  "skipQuoted_loop query quote bs i =
     (if i < length query then
        if bs \<and> query ! i = backslash then skipQuoted_loop query quote bs (i + 2)
        else if query ! i = quote then
          if i + 1 < length query \<and> query ! (i + 1) = quote then skipQuoted_loop query quote bs (i + 2)
          else i + 1
        else skipQuoted_loop query quote bs (i + 1)
      else length query)"
  by pat_completeness auto
termination by (relation "measure (\<lambda>(query, _, _, i). length query - i)") auto

declare skipQuoted_loop.simps [simp del]

definition skipQuoted :: "string \<Rightarrow> nat \<Rightarrow> char \<Rightarrow> bool \<Rightarrow> nat" where
  "skipQuoted query start quote bs = skipQuoted_loop query quote bs (start + 1)"

definition skipLineComment :: "string \<Rightarrow> nat \<Rightarrow> nat" where
  "skipLineComment query start =
     (case str_index (drop start query) [newline] of Some i \<Rightarrow> start + i + 1 | None \<Rightarrow> length query)"

function skipBlockComment_loop :: "string \<Rightarrow> bool \<Rightarrow> nat \<Rightarrow> nat \<Rightarrow> nat" where
  "skipBlockComment_loop query nested depth i =
     (if i < length query then
        if i + 1 < length query \<and> query ! i = CHR ''*'' \<and> query ! (i + 1) = CHR ''/'' then
          if depth - 1 = 0 then i + 2 else skipBlockComment_loop query nested (depth - 1) (i + 2)
        else if nested \<and> i + 1 < length query \<and> query ! i = CHR ''/'' \<and> query ! (i + 1) = CHR ''*'' then
          skipBlockComment_loop query nested (depth + 1) (i + 2)
        else skipBlockComment_loop query nested depth (i + 1)
      else length query)"
  by pat_completeness auto
termination by (relation "measure (\<lambda>(query, _, _, i). length query - i)") auto

declare skipBlockComment_loop.simps [simp del]

definition skipBlockComment :: "string \<Rightarrow> nat \<Rightarrow> bool \<Rightarrow> nat" where
  "skipBlockComment query start nested = skipBlockComment_loop query nested 1 start"

function dollar_tag_end :: "string \<Rightarrow> nat \<Rightarrow> nat" where
  "dollar_tag_end query j =
     (if j < length query \<and> isDollarTagChar (query ! j) then dollar_tag_end query (j + 1) else j)"
  by pat_completeness auto
termination by (relation "measure (\<lambda>(query, j). length query - j)") auto

declare dollar_tag_end.simps [simp del]

definition skipDollarQuoted :: "string \<Rightarrow> nat \<Rightarrow> nat option" where
  "skipDollarQuoted query start =
     (if start > 0 \<and> isIdentChar (query ! (start - 1)) then None
      else let j = dollar_tag_end query (start + 1) in
        if j \<ge> length query \<or> query ! j \<noteq> CHR ''$'' then None
        else let t = take (j - (start + 1)) (drop (start + 1) query) in
          if t \<noteq> '''' \<and> byte_between CHR ''0'' CHR ''9'' (t ! 0) then None
          else let delim = take (j + 1 - start) (drop start query) in
            case str_index (drop (j + 1) query) delim of
              Some k \<Rightarrow> Some (j + 1 + k + length delim)
            | None \<Rightarrow> Some (length query))"

definition isEscapeString :: "string \<Rightarrow> nat \<Rightarrow> dialect \<Rightarrow> bool" where
  "isEscapeString query i d =
     (if d \<noteq> dialectPostgres \<or> i = 0 then False
      else if query ! (i - 1) \<noteq> CHR ''E'' \<and> query ! (i - 1) \<noteq> CHR ''e'' then False
      else if i = 1 then True
      else \<not> isIdentChar (query ! (i - 2)))"

definition isLineComment :: "string \<Rightarrow> nat \<Rightarrow> dialect \<Rightarrow> bool" where
  "isLineComment query i d =
     (if d \<noteq> dialectMySQL then True else i + 2 \<ge> length query \<or> isSpaceByte (query ! (i + 2)))"

definition literalEnd :: "string \<Rightarrow> nat \<Rightarrow> dialect \<Rightarrow> nat" where
  "literalEnd query i d =
     (let c = query ! i in
      if c = squote then skipQuoted query i squote (d = dialectMySQL \<or> isEscapeString query i d)
      else if c = dquote then skipQuoted query i dquote (d = dialectMySQL)
      else if c = backtick \<and> d = dialectMySQL then skipQuoted query i backtick False
      else if c = CHR ''#'' \<and> d = dialectMySQL then skipLineComment query (i + 1)
      else if c = CHR ''-'' \<and> i + 1 < length query \<and> query ! (i + 1) = CHR ''-'' \<and> isLineComment query i d
        then skipLineComment query (i + 2)
      else if c = CHR ''/'' \<and> i + 1 < length query \<and> query ! (i + 1) = CHR ''*''
        then skipBlockComment query (i + 2) (d = dialectPostgres)
      else if c = CHR ''$'' \<and> d = dialectPostgres then
        (case skipDollarQuoted query i of Some end' \<Rightarrow> end' | None \<Rightarrow> i)
      else i)"


subsection \<open>The same skips as lengths on the rest of the query\<close>

fun quoted_len :: "char \<Rightarrow> bool \<Rightarrow> string \<Rightarrow> nat" where
  "quoted_len quote bs [] = 0"
| "quoted_len quote bs [c] = 1"
| "quoted_len quote bs (c # c' # cs) =
     (if bs \<and> c = backslash then 2 + quoted_len quote bs cs
      else if c = quote then if c' = quote then 2 + quoted_len quote bs cs else 1
      else 1 + quoted_len quote bs (c' # cs))"

fun line_len :: "string \<Rightarrow> nat" where
  "line_len [] = 0"
| "line_len (c # cs) = (if c = newline then 1 else 1 + line_len cs)"

fun block_len :: "bool \<Rightarrow> nat \<Rightarrow> string \<Rightarrow> nat" where
  "block_len nested depth [] = 0"
| "block_len nested depth [c] = 1"
| "block_len nested depth (c # c' # cs) =
     (if c = CHR ''*'' \<and> c' = CHR ''/'' then if depth - 1 = 0 then 2 else 2 + block_len nested (depth - 1) cs
      else if nested \<and> c = CHR ''/'' \<and> c' = CHR ''*'' then 2 + block_len nested (depth + 1) cs
      else 1 + block_len nested depth (c' # cs))"

definition dollar_len :: "string \<Rightarrow> string \<Rightarrow> nat option" where
  "dollar_len p s =
     (let t = takeWhile isDollarTagChar s; rest = dropWhile isDollarTagChar s in
      if (p \<noteq> [] \<and> isIdentChar (hd p)) \<or> rest = [] \<or> hd rest \<noteq> CHR ''$''
         \<or> (t \<noteq> [] \<and> byte_between CHR ''0'' CHR ''9'' (hd t)) then None
      else (let delim = CHR ''$'' # t @ ''$'' in
            case str_index (tl rest) delim of
              Some k \<Rightarrow> Some (2 * length delim + k)
            | None \<Rightarrow> Some (1 + length s)))"

lemma drop_cases:
  obtains "length q \<le> i" "drop i q = []"
  | "Suc i = length q" "drop i q = [q ! i]"
  | "Suc i < length q" "drop i q = q ! i # q ! Suc i # drop (Suc (Suc i)) q"
    "drop (Suc i) q = q ! Suc i # drop (Suc (Suc i)) q"
  by (metis Cons_nth_drop_Suc Suc_lessD Suc_lessI drop_all not_less order_refl)

lemma skipQuoted_loop_len:
  "i \<le> length q \<Longrightarrow> skipQuoted_loop q quote bs i = i + quoted_len quote bs (drop i q)"
proof (induction q quote bs i rule: skipQuoted_loop.induct)
  case (1 q quote bs i)
  have over: "skipQuoted_loop q quote bs (Suc (Suc i)) = length q" if "Suc i = length q"
    using that by (subst skipQuoted_loop.simps) simp
  have past: "skipQuoted_loop q quote bs (Suc i) = length q" if "Suc i = length q"
    using that by (subst skipQuoted_loop.simps) simp
  show ?case
    by (cases rule: drop_cases [of q i])
      (use 1 over past in \<open>auto simp: skipQuoted_loop.simps [of q quote bs i]\<close>)
qed

lemma skipBlockComment_loop_len:
  "i \<le> length q \<Longrightarrow> skipBlockComment_loop q nested depth i = i + block_len nested depth (drop i q)"
proof (induction q nested depth i rule: skipBlockComment_loop.induct)
  case (1 q nested depth i)
  have past: "skipBlockComment_loop q nested depth (Suc i) = length q" if "Suc i = length q"
    using that by (subst skipBlockComment_loop.simps) simp
  show ?case
    by (cases rule: drop_cases [of q i])
      (use 1 past in \<open>auto simp: skipBlockComment_loop.simps [of q nested depth i]\<close>)
qed

lemma line_len_index:
  "line_len s = (case str_index s [newline] of Some k \<Rightarrow> k + 1 | None \<Rightarrow> length s)"
  by (induction s) (auto split: option.splits)

lemma skipLineComment_len: "i \<le> length q \<Longrightarrow> skipLineComment q i = i + line_len (drop i q)"
  by (auto simp: skipLineComment_def line_len_index split: option.split)

lemma dollar_tag_end_len: "dollar_tag_end q j = j + length (takeWhile isDollarTagChar (drop j q))"
proof (induction q j rule: dollar_tag_end.induct)
  case (1 q j)
  show ?case
    by (cases rule: drop_cases [of q j]) (use 1 in \<open>auto simp: dollar_tag_end.simps [of q j]\<close>)
qed

text \<open>What has been read before the rest, most recent byte first.\<close>

definition escape_ctx :: "dialect \<Rightarrow> string \<Rightarrow> bool" where
  "escape_ctx d p \<longleftrightarrow> d = dialectPostgres \<and> p \<noteq> [] \<and> hd p \<in> {CHR ''E'', CHR ''e''}
     \<and> (tl p = [] \<or> \<not> isIdentChar (hd (tl p)))"

definition lit_len :: "dialect \<Rightarrow> string \<Rightarrow> string \<Rightarrow> nat" where
  "lit_len d p s =
     (let c = hd s; cs = tl s in
      if s = [] then 0
      else if c = squote then 1 + quoted_len squote (d = dialectMySQL \<or> escape_ctx d p) cs
      else if c = dquote then 1 + quoted_len dquote (d = dialectMySQL) cs
      else if c = backtick \<and> d = dialectMySQL then 1 + quoted_len backtick False cs
      else if c = CHR ''#'' \<and> d = dialectMySQL then 1 + line_len cs
      else if c = CHR ''-'' \<and> cs \<noteq> [] \<and> hd cs = CHR ''-''
          \<and> (d \<noteq> dialectMySQL \<or> tl cs = [] \<or> isSpaceByte (hd (tl cs))) then 2 + line_len (tl cs)
      else if c = CHR ''/'' \<and> cs \<noteq> [] \<and> hd cs = CHR ''*'' then 2 + block_len (d = dialectPostgres) 1 (tl cs)
      else if c = CHR ''$'' \<and> d = dialectPostgres then
        (case dollar_len p cs of Some n \<Rightarrow> n | None \<Rightarrow> 0)
      else 0)"

lemma escape_ctx_index: "i < length q \<Longrightarrow> escape_ctx d (rev (take i q)) \<longleftrightarrow> isEscapeString q i d"
proof -
  assume len: "i < length q"
  consider "i = 0" | "i = 1" | j where "i = Suc (Suc j)" by (metis One_nat_def not0_implies_Suc)
  then show ?thesis
  proof cases
    case 2
    then show ?thesis using len by (cases q) (auto simp: escape_ctx_def isEscapeString_def)
  next
    case 3
    then show ?thesis using len by (auto simp: escape_ctx_def isEscapeString_def take_Suc_conv_app_nth)
  qed (simp add: escape_ctx_def isEscapeString_def)
qed

lemma hd_rev_take: "0 < i \<Longrightarrow> i < length q \<Longrightarrow> hd (rev (take i q)) = q ! (i - 1)"
  by (cases i) (simp_all add: take_Suc_conv_app_nth)

lemma takeWhile_split: "drop (length (takeWhile P s)) s = dropWhile P s" "take (length (takeWhile P s)) s = takeWhile P s"
  by (metis append_eq_conv_conj takeWhile_dropWhile_id)+

lemma skipDollarQuoted_len:
  assumes "i < length q" and "q ! i = CHR ''$''"
  shows "skipDollarQuoted q i = map_option ((+) i) (dollar_len (rev (take i q)) (drop (Suc i) q))"
proof -
  let ?s = "drop (Suc i) q"
  let ?t = "takeWhile isDollarTagChar ?s"
  let ?rest = "dropWhile isDollarTagChar ?s"
  define j where "j = dollar_tag_end q (i + 1)"
  have j: "j = Suc i + length ?t" by (simp add: j_def dollar_tag_end_len)
  have rest: "drop j q = ?rest" using takeWhile_split(1) [of isDollarTagChar ?s] by (simp add: j add.commute)
  have tag: "take (j - (i + 1)) (drop (i + 1) q) = ?t" by (simp add: j takeWhile_split)
  have prev: "0 < i \<and> isIdentChar (q ! (i - 1)) \<longleftrightarrow> rev (take i q) \<noteq> [] \<and> isIdentChar (hd (rev (take i q)))"
    using assms hd_rev_take [of i q] by auto
  have stop: "j \<ge> length q \<or> q ! j \<noteq> CHR ''$'' \<longleftrightarrow> ?rest = [] \<or> hd ?rest \<noteq> CHR ''$''"
    using rest by (metis drop_eq_Nil hd_drop_conv_nth not_less)
  have delim: "take (j + 1 - i) (drop i q) = CHR ''$'' # ?t @ ''$''"
    if "\<not> (?rest = [] \<or> hd ?rest \<noteq> CHR ''$'')"
  proof -
    have "drop i q = CHR ''$'' # ?t @ ?rest" using assms by (simp flip: Cons_nth_drop_Suc)
    then show ?thesis using that by (cases ?rest) (simp_all add: j)
  qed
  have after: "drop (j + 1) q = tl ?rest" using rest by (metis Suc_eq_plus1 drop_Suc tl_drop)
  show ?thesis
  proof (cases "(rev (take i q) \<noteq> [] \<and> isIdentChar (hd (rev (take i q)))) \<or> ?rest = [] \<or> hd ?rest \<noteq> CHR ''$''
      \<or> (?t \<noteq> [] \<and> byte_between CHR ''0'' CHR ''9'' (hd ?t))")
    case True
    then show ?thesis
      unfolding skipDollarQuoted_def dollar_len_def Let_def j_def [symmetric] prev stop tag
      by (auto simp: hd_conv_nth)
  next
    case False
    then have d: "take (j + 1 - i) (drop i q) = CHR ''$'' # ?t @ ''$''" using delim by blast
    from False have ok: "\<not> (rev (take i q) \<noteq> [] \<and> isIdentChar (hd (rev (take i q))))"
      "\<not> (?rest = [] \<or> hd ?rest \<noteq> CHR ''$'')" "\<not> (?t \<noteq> [] \<and> byte_between CHR ''0'' CHR ''9'' (?t ! 0))"
      by (auto simp: hd_conv_nth)
    have "skipDollarQuoted q i = (case str_index (tl ?rest) (CHR ''$'' # ?t @ ''$'') of
        Some k \<Rightarrow> Some (j + 1 + k + length (CHR ''$'' # ?t @ ''$'')) | None \<Rightarrow> Some (length q))"
      unfolding skipDollarQuoted_def Let_def j_def [symmetric] prev stop tag d after
      using ok by (simp only: if_False)
    moreover have "dollar_len (rev (take i q)) ?s = (case str_index (tl ?rest) (CHR ''$'' # ?t @ ''$'') of
        Some k \<Rightarrow> Some (2 * length (CHR ''$'' # ?t @ ''$'') + k) | None \<Rightarrow> Some (1 + length ?s))"
      unfolding dollar_len_def Let_def using False by (simp only: if_False)
    ultimately show ?thesis
      using assms(1) by (cases "str_index (tl ?rest) (CHR ''$'' # ?t @ ''$'')") (simp_all add: j)
  qed
qed

lemma literalEnd_len:
  assumes "i < length q"
  shows "literalEnd q i d = i + lit_len d (rev (take i q)) (drop i q)"
proof -
  have hd: "hd (drop i q) = q ! i" "tl (drop i q) = drop (Suc i) q" "drop i q \<noteq> []"
    using assms by (simp_all add: hd_drop_conv_nth drop_Suc tl_drop)
  have hd1: "drop (Suc i) q \<noteq> [] \<longleftrightarrow> Suc i < length q" "tl (drop (Suc i) q) = drop (Suc (Suc i)) q"
    "Suc i < length q \<Longrightarrow> hd (drop (Suc i) q) = q ! Suc i"
    by (auto simp: hd_drop_conv_nth tl_drop simp flip: drop_Suc)
  have com: "isLineComment q i d \<longleftrightarrow> d \<noteq> dialectMySQL \<or> drop (Suc (Suc i)) q = [] \<or> isSpaceByte (hd (drop (Suc (Suc i)) q))"
    by (cases "Suc (Suc i) < length q") (auto simp: isLineComment_def hd_drop_conv_nth)
  show ?thesis
    using assms hd1
    by (cases "Suc i < length q") (auto simp: literalEnd_def lit_len_def Let_def hd com special_chars skipQuoted_def
        skipBlockComment_def skipQuoted_loop_len skipLineComment_len skipBlockComment_loop_len
        skipDollarQuoted_len escape_ctx_index split: option.split)
qed

lemma quoted_len_bound: "quoted_len quote bs s \<le> length s"
  by (induction quote bs s rule: quoted_len.induct) auto

lemma line_len_bound: "line_len s \<le> length s"
  by (induction s) auto

lemma block_len_bound: "block_len nested depth s \<le> length s"
  by (induction nested depth s rule: block_len.induct) auto

lemma dollar_len_bound: "dollar_len p s = Some n \<Longrightarrow> 0 < n \<and> n \<le> 1 + length s"
proof -
  assume n: "dollar_len p s = Some n"
  let ?t = "takeWhile isDollarTagChar s"
  let ?rest = "dropWhile isDollarTagChar s"
  have len: "length s = length ?t + length ?rest" by (metis length_append takeWhile_dropWhile_id)
  from n have rest: "?rest \<noteq> []" by (auto simp: dollar_len_def Let_def split: if_splits)
  show ?thesis
  proof (cases "str_index (tl ?rest) (CHR ''$'' # ?t @ ''$'')")
    case None
    then show ?thesis using n by (auto simp: dollar_len_def Let_def split: if_splits)
  next
    case (Some k)
    then show ?thesis
      using n rest str_index_bound [OF Some] len
      by (auto simp: dollar_len_def Let_def split: if_splits)
  qed
qed

lemma lit_len_bound: "lit_len d p s \<le> length s"
proof (cases s)
  case (Cons c cs)
  then show ?thesis
    using quoted_len_bound [of _ _ cs] line_len_bound [of cs] line_len_bound [of "tl cs"]
      block_len_bound [of _ _ "tl cs"] dollar_len_bound [of p cs]
    by (cases cs) (auto simp: lit_len_def Let_def split: option.split)
qed (simp add: lit_len_def)

lemma literalEnd_bounds:
  "i < length q \<Longrightarrow> i \<le> literalEnd q i d \<and> literalEnd q i d \<le> length q"
  using lit_len_bound [of d "rev (take i q)" "drop i q"] by (simp add: literalEnd_len)

text \<open>Each case of the scan for placeholders moves forward.\<close>

lemma skip_progress:
  "i < length q \<Longrightarrow> i < skipQuoted q i quote bs" "i < length q \<Longrightarrow> i < skipLineComment q (Suc i)"
  "Suc i < length q \<Longrightarrow> i < skipLineComment q (Suc (Suc i))"
  "Suc i < length q \<Longrightarrow> i < skipBlockComment q (Suc (Suc i)) nested"
  "i < length q \<Longrightarrow> q ! i = CHR ''$'' \<Longrightarrow> skipDollarQuoted q i = Some e \<Longrightarrow> i < e"
  using dollar_len_bound
  by (auto simp: skipQuoted_def skipQuoted_loop_len skipLineComment_len skipBlockComment_def
      skipBlockComment_loop_len skipDollarQuoted_len)

function placeholder_loop :: "string \<Rightarrow> dialect \<Rightarrow> nat \<Rightarrow> nat list" where
  "placeholder_loop query d i =
     (if i < length query then
        let c = query ! i in
        if c = squote then
          placeholder_loop query d (skipQuoted query i squote (d = dialectMySQL \<or> isEscapeString query i d))
        else if c = dquote then placeholder_loop query d (skipQuoted query i dquote (d = dialectMySQL))
        else if c = backtick \<and> d = dialectMySQL then placeholder_loop query d (skipQuoted query i backtick False)
        else if c = CHR ''#'' \<and> d = dialectMySQL then placeholder_loop query d (skipLineComment query (i + 1))
        else if c = CHR ''-'' \<and> i + 1 < length query \<and> query ! (i + 1) = CHR ''-'' \<and> isLineComment query i d
          then placeholder_loop query d (skipLineComment query (i + 2))
        else if c = CHR ''/'' \<and> i + 1 < length query \<and> query ! (i + 1) = CHR ''*''
          then placeholder_loop query d (skipBlockComment query (i + 2) (d = dialectPostgres))
        else if c = CHR ''$'' \<and> d = dialectPostgres then
          (case skipDollarQuoted query i of
             Some end' \<Rightarrow> placeholder_loop query d end'
           | None \<Rightarrow> placeholder_loop query d (i + 1))
        else if c = CHR ''?'' then i # placeholder_loop query d (i + 1)
        else placeholder_loop query d (i + 1)
      else [])"
  by pat_completeness auto
termination
  by (relation "measure (\<lambda>(query, _, i). length query - i)") (simp_all add: diff_less_mono2 skip_progress)

declare placeholder_loop.simps [simp del]

definition placeholderIndexes :: "string \<Rightarrow> dialect \<Rightarrow> nat list" where
  "placeholderIndexes query d = placeholder_loop query d 0"

subsection \<open>The tokens of a query\<close>

datatype tok = Lit string | Byte char

fun text_of :: "tok list \<Rightarrow> string" where
  "text_of [] = []"
| "text_of (Lit l # ts) = l @ text_of ts"
| "text_of (Byte c # ts) = c # text_of ts"

function tokenise :: "dialect \<Rightarrow> string \<Rightarrow> string \<Rightarrow> tok list" where
  "tokenise d p s =
     (if s = [] then []
      else let n = lit_len d p s in
        if n > 0 then Lit (take n s) # tokenise d (rev (take n s) @ p) (drop n s)
        else Byte (hd s) # tokenise d (hd s # p) (tl s))"
  by pat_completeness auto
termination by (relation "measure (\<lambda>(_, _, s). length s)") auto

declare tokenise.simps [simp del]

lemma tokenise_Nil [simp]: "tokenise d p [] = []"
  by (simp add: tokenise.simps)

text \<open>The offsets of the placeholder tokens.\<close>

fun offsets :: "nat \<Rightarrow> tok list \<Rightarrow> nat list" where
  "offsets i [] = []"
| "offsets i (Lit l # ts) = offsets (i + length l) ts"
| "offsets i (Byte c # ts) = (if c = CHR ''?'' then i # offsets (i + 1) ts else offsets (i + 1) ts)"

lemma text_of_append [simp]: "text_of (ts @ us) = text_of ts @ text_of us"
  by (induction ts rule: text_of.induct) auto

lemma text_of_tokenise [simp]: "text_of (tokenise d p s) = s"
proof (induction d p s rule: tokenise.induct)
  case (1 d p s)
  then show ?case by (subst tokenise.simps) (auto simp: Let_def)
qed

lemma placeholder_loop_step:
  assumes "i < length q"
  shows "placeholder_loop q d i =
    (if literalEnd q i d > i then placeholder_loop q d (literalEnd q i d)
     else if q ! i = CHR ''?'' then i # placeholder_loop q d (i + 1) else placeholder_loop q d (i + 1))"
  using assms
  by (subst placeholder_loop.simps)
    (auto simp: literalEnd_def Let_def skip_progress special_chars split: option.split)

lemma placeholder_loop_tokens:
  "i \<le> length q \<Longrightarrow> placeholder_loop q d i = offsets i (tokenise d (rev (take i q)) (drop i q))"
proof (induction "length q - i" arbitrary: i rule: less_induct)
  case less
  show ?case
  proof (cases "i < length q")
    case True
    let ?n = "lit_len d (rev (take i q)) (drop i q)"
    have n: "literalEnd q i d = i + ?n" "i + ?n \<le> length q"
      using True literalEnd_len literalEnd_bounds by metis+
    have next1: "rev (take (Suc i) q) = q ! i # rev (take i q)" "hd (drop i q) = q ! i" "drop i q \<noteq> []"
      "tl (drop i q) = drop (Suc i) q"
      using True by (simp_all add: take_Suc_conv_app_nth hd_drop_conv_nth tl_drop drop_Suc)
    show ?thesis
    proof (cases "?n > 0")
      case True
      then show ?thesis
        using less.hyps [of "i + ?n"] n next1(3) \<open>i < length q\<close>
        by (simp add: placeholder_loop_step tokenise.simps [of d "rev (take i q)"] take_add Let_def min_def add.commute)
    next
      case False
      then show ?thesis
        using less.hyps [of "Suc i"] n next1 \<open>i < length q\<close>
        by (simp add: placeholder_loop_step tokenise.simps [of d "rev (take i q)"] Let_def)
    qed
  qed (use less.prems in \<open>simp add: placeholder_loop.simps\<close>)
qed

lemma placeholderIndexes_tokens: "placeholderIndexes q d = offsets 0 (tokenise d [] q)"
  by (simp add: placeholderIndexes_def placeholder_loop_tokens)

subsection \<open>A literal is recognised from its own text and the byte after it\<close>

lemma take1_cases: "take 1 r = take 1 t \<Longrightarrow> (r = [] \<and> t = []) \<or> (\<exists>c r' t'. r = c # r' \<and> t = c # t')"
  by (cases r; cases t) auto

lemma take1_single: "take (Suc 0) r = [c] \<longleftrightarrow> (\<exists>r'. r = c # r')"
  by (cases r) auto

lemma quoted_len_pos [simp]: "0 < quoted_len quote bs (c # cs)"
  by (cases cs) auto

lemma quoted_len_local:
  "take 1 r = take 1 (drop (quoted_len quote bs s) s) \<Longrightarrow>
   quoted_len quote bs (take (quoted_len quote bs s) s @ r) = quoted_len quote bs s"
proof (induction quote bs s rule: quoted_len.induct)
  case (3 quote bs c c' cs)
  show ?case
  proof (cases "\<not> (bs \<and> c = backslash) \<and> c \<noteq> quote")
    case True
    obtain m where m: "quoted_len quote bs (c' # cs) = Suc m"
      using quoted_len_pos [of quote bs c' cs] by (metis gr0_implies_Suc)
    then show ?thesis using 3 True by auto
  next
    case False
    then show ?thesis using 3 by (auto simp: take1_single dest!: take1_cases)
  qed
qed (auto dest!: take1_cases)

lemma line_len_pos [simp]: "0 < line_len (c # cs)"
  by simp

lemma line_len_local:
  "take 1 r = take 1 (drop (line_len s) s) \<Longrightarrow> line_len (take (line_len s) s @ r) = line_len s"
  by (induction s) (auto dest!: take1_cases)

lemma block_len_pos [simp]: "0 < block_len nested depth (c # cs)"
  by (cases cs) auto

lemma block_len_local:
  "take 1 r = take 1 (drop (block_len nested depth s) s) \<Longrightarrow>
   block_len nested depth (take (block_len nested depth s) s @ r) = block_len nested depth s"
proof (induction nested depth s rule: block_len.induct)
  case (3 nested depth c c' cs)
  obtain m where m: "block_len nested depth (c' # cs) = Suc m"
    using block_len_pos [of nested depth c' cs] by (metis gr0_implies_Suc)
  then show ?case using 3 by (auto dest!: take1_cases)
qed (auto dest!: take1_cases)

lemma prefix_take_local: "length sub \<le> n \<Longrightarrow> n \<le> length s \<Longrightarrow> prefix sub (take n s @ r) \<longleftrightarrow> prefix sub s"
proof -
  assume n: "length sub \<le> n" "n \<le> length s"
  then have "take (length sub) (take n s @ r) = take (length sub) s" by (simp add: min_def)
  then show ?thesis by (metis prefix_order.eq_iff prefix_def append_eq_conv_conj take_is_prefix)
qed

lemma str_index_local:
  "str_index s sub = Some k \<Longrightarrow> str_index (take (k + length sub) s @ r) sub = Some k"
proof (induction s arbitrary: k)
  case (Cons x s)
  show ?case
  proof (cases "prefix sub (x # s)")
    case True
    then have "prefix sub (take (length sub) (x # s) @ r)"
      by (metis append_eq_conv_conj prefixE prefixI)
    with True Cons.prems show ?thesis
      by (cases "take (length sub) (x # s) @ r") simp_all
  next
    case False
    then obtain j where j: "str_index s sub = Some j" "k = Suc j" using Cons.prems by auto
    then have "j + length sub \<le> length s" by (metis str_index_bound)
    then have "\<not> prefix sub (x # take (j + length sub) s @ r)"
      using False prefix_take_local [of sub "Suc (j + length sub)" "x # s" r] by simp
    with j Cons.IH [OF j(1)] show ?thesis by simp
  qed
qed (cases r; simp split: if_splits)

lemma takeWhile_local: "take 1 r = take 1 (dropWhile P s) \<Longrightarrow>
    takeWhile P (takeWhile P s @ r) = takeWhile P s \<and> dropWhile P (takeWhile P s @ r) = r"
proof (induction s)
  case (Cons x s)
  then show ?case by (auto simp: take1_single)
qed simp

lemma dollar_len_local:
  assumes "dollar_len p s = Some n" and "take 1 r = take 1 (drop (n - 1) s)"
  shows "dollar_len p (take (n - 1) s @ r) = Some n"
proof -
  let ?t = "takeWhile isDollarTagChar s"
  let ?rest = "dropWhile isDollarTagChar s"
  let ?delim = "CHR ''$'' # ?t @ ''$''"
  have s: "s = ?t @ ?rest" by simp
  from assms(1) obtain rest' where rest: "?rest = CHR ''$'' # rest'"
    by (cases ?rest) (auto simp: dollar_len_def Let_def split: if_splits)
  show ?thesis
  proof (cases "str_index rest' ?delim")
    case None
    then have "n = 1 + length s" using assms(1) rest by (auto simp: dollar_len_def Let_def split: if_splits)
    then show ?thesis using assms by simp
  next
    case (Some k)
    then have n: "n = Suc (length ?t + Suc (k + length ?delim))" using assms(1) rest by (auto simp: dollar_len_def Let_def split: if_splits)
    have "take (n - 1) s = ?t @ CHR ''$'' # take (k + length ?delim) rest'"
      by (subst s, subst rest) (simp add: n numeral_3_eq_3)
    then have eq: "take (n - 1) s @ r = ?t @ CHR ''$'' # take (k + length ?delim) rest' @ r" by simp
    have tw: "takeWhile isDollarTagChar (take (n - 1) s @ r) = ?t"
      "dropWhile isDollarTagChar (take (n - 1) s @ r) = CHR ''$'' # take (k + length ?delim) rest' @ r"
      using takeWhile_local [of "CHR ''$'' # take (k + length ?delim) rest' @ r" isDollarTagChar s] rest
      unfolding eq by simp_all
    show ?thesis
      using assms(1) rest str_index_local [OF Some, of r] n
      unfolding dollar_len_def tw by (auto simp: Let_def split: if_splits)
  qed
qed

lemma lit_len_simps:
  "lit_len d p [] = 0"
  "lit_len d p (squote # cs) = 1 + quoted_len squote (d = dialectMySQL \<or> escape_ctx d p) cs"
  "lit_len d p (dquote # cs) = 1 + quoted_len dquote (d = dialectMySQL) cs"
  "lit_len d p (backtick # cs) = (if d = dialectMySQL then 1 + quoted_len backtick False cs else 0)"
  "lit_len d p (CHR ''#'' # cs) = (if d = dialectMySQL then 1 + line_len cs else 0)"
  "lit_len d p (CHR ''-'' # cs) =
     (if cs \<noteq> [] \<and> hd cs = CHR ''-'' \<and> (d \<noteq> dialectMySQL \<or> tl cs = [] \<or> isSpaceByte (hd (tl cs)))
      then 2 + line_len (tl cs) else 0)"
  "lit_len d p (CHR ''/'' # cs) =
     (if cs \<noteq> [] \<and> hd cs = CHR ''*'' then 2 + block_len (d = dialectPostgres) 1 (tl cs) else 0)"
  "lit_len d p (CHR ''$'' # cs) =
     (if d = dialectPostgres then (case dollar_len p cs of Some n \<Rightarrow> n | None \<Rightarrow> 0) else 0)"
  by (auto simp: lit_len_def special_chars Let_def)

definition opens_literal :: "char \<Rightarrow> bool" where
  "opens_literal c \<longleftrightarrow> c \<in> {squote, dquote, backtick, CHR ''#'', CHR ''-'', CHR ''/'', CHR ''$''}"

lemma lit_len_plain: "\<not> opens_literal c \<Longrightarrow> lit_len d p (c # cs) = 0"
  by (simp add: lit_len_def opens_literal_def)

lemma lit_len_local:
  assumes "0 < lit_len d p s" and "take 1 r = take 1 (drop (lit_len d p s) s)"
  shows "lit_len d p (take (lit_len d p s) s @ r) = lit_len d p s"
proof -
  obtain c cs where s: "s = c # cs" using assms(1) by (cases s) (auto simp: lit_len_simps)
  have "opens_literal c" using assms(1) lit_len_plain s by fastforce
  then consider "c \<in> {squote, dquote, backtick}" | "c = CHR ''#''" | "c = CHR ''-''" | "c = CHR ''/''" | "c = CHR ''$''"
    by (auto simp: opens_literal_def)
  then show ?thesis
  proof cases
    case 1
    then show ?thesis
      using assms quoted_len_local [of r c _ cs] by (auto simp: s lit_len_simps split: if_splits)
  next
    case 2
    then show ?thesis using assms line_len_local [of r cs] by (auto simp: s lit_len_simps split: if_splits)
  next
    case 3
    then obtain cs' where cs: "cs = CHR ''-'' # cs'" and com: "d \<noteq> dialectMySQL \<or> cs' = [] \<or> isSpaceByte (hd cs')"
      using assms(1) by (cases cs) (auto simp: s lit_len_simps split: if_splits)
    then have n: "lit_len d p s = 2 + line_len cs'" by (simp add: s 3 lit_len_simps)
    have loc: "line_len (take (line_len cs') cs' @ r) = line_len cs'"
      using line_len_local [of r cs'] assms n by (simp add: s cs)
    have "r = []" if "cs' = []" using that assms(2) n by (auto simp: s cs dest!: take1_cases)
    moreover have "hd (take (line_len cs') cs' @ r) = hd cs'" if "cs' \<noteq> []" using that by (cases cs') auto
    ultimately show ?thesis using com loc n by (cases "cs' = []") (auto simp: s 3 cs lit_len_simps)
  next
    case 4
    then obtain cs' where cs: "cs = CHR ''*'' # cs'"
      using assms(1) by (cases cs) (auto simp: s lit_len_simps split: if_splits)
    then show ?thesis
      using assms block_len_local [of r "d = dialectPostgres" 1 cs'] by (simp add: s 4 lit_len_simps)
  next
    case 5
    then obtain n where n: "d = dialectPostgres" "dollar_len p cs = Some n"
      using assms(1) by (auto simp: s lit_len_simps split: if_splits option.splits)
    then have "0 < n" using dollar_len_bound by blast
    then show ?thesis
      using assms dollar_len_local [OF n(2), of r] n by (cases n) (simp_all add: s 5 lit_len_simps)
  qed
qed

subsection \<open>Replacing placeholders by lists of placeholders\<close>

text \<open>The tokens \<open>?, ?, ...\<close> that stand for one placeholder, and the expansion of a query.\<close>

definition qmarks :: "nat \<Rightarrow> tok list" where
  "qmarks n = Byte CHR ''?'' # concat (replicate (n - 1) [Byte CHR '','', Byte CHR '' '', Byte CHR ''?''])"

fun expand :: "nat list \<Rightarrow> tok list \<Rightarrow> tok list" where
  "expand ns [] = []"
| "expand ns (Lit l # ts) = Lit l # expand ns ts"
| "expand [] (Byte c # ts) = Byte c # expand [] ts"
| "expand (n # ns) (Byte c # ts) =
     (if c = CHR ''?'' then qmarks n @ expand ns ts else Byte c # expand (n # ns) ts)"

text \<open>The two facts about the bytes read so far that the scanner looks at.\<close>

definition same_ctx :: "dialect \<Rightarrow> string \<Rightarrow> string \<Rightarrow> bool" where
  "same_ctx d p p' \<longleftrightarrow> escape_ctx d p = escape_ctx d p'
     \<and> (p \<noteq> [] \<and> isIdentChar (hd p) \<longleftrightarrow> p' \<noteq> [] \<and> isIdentChar (hd p'))"

lemma same_ctx_refl [simp]: "same_ctx d p p"
  by (simp add: same_ctx_def)

lemma same_ctx_Cons: "same_ctx d p p' \<Longrightarrow> same_ctx d (c # p) (c # p')"
  by (auto simp: same_ctx_def escape_ctx_def)

lemma same_ctx_append: "same_ctx d p p' \<Longrightarrow> same_ctx d (w @ p) (w @ p')"
  by (induction w) (auto intro: same_ctx_Cons)

lemma same_ctx_qmark: "same_ctx d (CHR ''?'' # p) (CHR ''?'' # p')"
  by (auto simp: same_ctx_def escape_ctx_def isIdentChar_def byte_between_def high_byte_def)

lemma lit_len_ctx: "same_ctx d p p' \<Longrightarrow> lit_len d p s = lit_len d p' s"
  by (auto simp: same_ctx_def lit_len_def dollar_len_def Let_def)

lemma tokenise_plain:
  "\<forall>c \<in> set w. \<not> opens_literal c \<Longrightarrow> tokenise d p (w @ s) = map Byte w @ tokenise d (rev w @ p) s"
  by (induction w arbitrary: p) (simp_all add: tokenise.simps [of d _ "_ # _"] lit_len_plain Let_def)

lemma tokenise_cases:
  obtains (nil) "s = []" "tokenise d p s = []"
  | (lit) n where "0 < n" "n = lit_len d p s" "s \<noteq> []"
      "tokenise d p s = Lit (take n s) # tokenise d (rev (take n s) @ p) (drop n s)"
  | (byte) c cs where "s = c # cs" "lit_len d p s = 0" "tokenise d p s = Byte c # tokenise d (c # p) cs"
proof (cases "s = []")
  case False
  then show ?thesis
  proof (cases "lit_len d p s = 0")
    case True
    obtain c cs where s: "s = c # cs" using False by (cases s) auto
    with True have "tokenise d p s = Byte c # tokenise d (c # p) cs" by (subst tokenise.simps) simp
    with s True show ?thesis by (rule byte)
  qed (auto intro!: lit simp: tokenise.simps [of d p s] Let_def)
qed (simp add: nil)

lemma expand_head: "take 1 (text_of (expand ns (tokenise d p s))) = take 1 s"
proof (cases rule: tokenise_cases [of s d p])
  case (lit n)
  then show ?thesis by (cases s; cases n) simp_all
next
  case (byte c cs)
  then show ?thesis by (cases ns) (auto simp: qmarks_def)
qed simp

lemma expand_head2:
  assumes "s = [] \<or> hd s \<noteq> CHR ''?''"
  shows "take 2 (text_of (expand ns (tokenise d p s))) = take 2 s"
proof (cases rule: tokenise_cases [of s d p])
  case (lit n)
  define w where "w = take n s"
  with lit have "w \<noteq> []" by simp
  then obtain c w' where w: "w = c # w'" by (auto simp: neq_Nil_conv)
  let ?r = "text_of (expand ns (tokenise d (rev w @ p) (drop n s)))"
  have "take 2 (w @ ?r) = take 2 (w @ drop n s)"
    using expand_head [of ns d "rev w @ p" "drop n s"] by (cases w') (simp_all add: w numeral_2_eq_2)
  then show ?thesis using lit by (simp add: w_def)
next
  case (byte c cs)
  then show ?thesis
    using assms expand_head [of ns d "c # p" cs] by (cases ns) (simp_all add: numeral_2_eq_2)
qed simp

lemma expand_plain:
  "CHR ''?'' \<notin> set w \<Longrightarrow> text_of (expand ns (map Byte w @ ts)) = w @ text_of (expand ns ts)"
  by (induction w; cases ns) auto

lemma tag_char_plain: "isDollarTagChar c \<Longrightarrow> \<not> opens_literal c \<and> c \<noteq> CHR ''?''"
  by (auto simp: isDollarTagChar_def opens_literal_def byte_between_def high_byte_def special_chars)

lemma dollar_len_None:
  "dollar_len p s = None \<longleftrightarrow> (p \<noteq> [] \<and> isIdentChar (hd p)) \<or> dropWhile isDollarTagChar s = []
     \<or> hd (dropWhile isDollarTagChar s) \<noteq> CHR ''$''
     \<or> (takeWhile isDollarTagChar s \<noteq> [] \<and> byte_between CHR ''0'' CHR ''9'' (hd (takeWhile isDollarTagChar s)))"
  by (simp add: dollar_len_def Let_def split: option.split)

lemma expand_no_literal:
  assumes "lit_len d p (c # cs) = 0"
  shows "lit_len d p (c # text_of (expand ns (tokenise d (c # p) cs))) = 0"
proof (cases "opens_literal c")
  case True
  let ?cs' = "text_of (expand ns (tokenise d (c # p) cs))"
  have one: "take 1 ?cs' = take 1 cs" by (rule expand_head)
  consider "c \<in> {squote, dquote, backtick, CHR ''#''}" | "c = CHR ''-''" | "c = CHR ''/''" | "c = CHR ''$''"
    using True by (auto simp: opens_literal_def)
  then show ?thesis
  proof cases
    case 1
    then show ?thesis using assms by (auto simp: lit_len_simps split: if_splits)
  next
    case 2
    have "take 2 ?cs' = take 2 cs" if "cs \<noteq> []" "hd cs = CHR ''-''"
      using that by (intro expand_head2) simp
    then show ?thesis
      using 2 assms one
      by (cases cs; cases "tl cs"; cases ?cs'; cases "tl ?cs'")
        (auto simp: lit_len_simps numeral_2_eq_2 split: if_splits)
  next
    case 3
    then show ?thesis using assms one take1_cases [OF one] by (auto simp: lit_len_simps split: if_splits)
  next
    case 4
    let ?t = "takeWhile isDollarTagChar cs"
    let ?rest = "dropWhile isDollarTagChar cs"
    have tag: "\<forall>c \<in> set ?t. \<not> opens_literal c" "CHR ''?'' \<notin> set ?t"
      using tag_char_plain by (auto dest: set_takeWhileD)
    define rest' where "rest' = text_of (expand ns (tokenise d (rev ?t @ c # p) ?rest))"
    have cs': "?cs' = ?t @ rest'"
      using tokenise_plain [OF tag(1), of d "c # p" ?rest] expand_plain [OF tag(2)] by (simp add: rest'_def)
    have rest: "take 1 rest' = take 1 ?rest" unfolding rest'_def by (rule expand_head)
    from takeWhile_local [OF rest] have tw: "takeWhile isDollarTagChar ?cs' = ?t" "dropWhile isDollarTagChar ?cs' = rest'"
      unfolding cs' by simp_all
    have "dollar_len p cs = None" if "d = dialectPostgres"
      using assms 4 that dollar_len_bound [of p cs] by (fastforce simp: lit_len_simps split: option.splits)
    then have "dollar_len p ?cs' = None" if "d = dialectPostgres"
      using that take1_cases [OF rest] unfolding dollar_len_None tw
      by (auto simp del: dropWhile_eq_Nil_conv takeWhile_eq_Nil_iff)
    then show ?thesis using 4 by (simp add: lit_len_simps)
  qed
qed (simp add: lit_len_plain)

lemma qmarks_text: "text_of (qmarks n @ ts) = CHR ''?'' # concat (replicate (n - 1) '', ?'') @ text_of ts"
proof -
  have "text_of (concat (replicate m [Byte CHR '','', Byte CHR '' '', Byte CHR ''?'']) @ ts)
      = concat (replicate m '', ?'') @ text_of ts" for m
    by (induction m) auto
  then show ?thesis by (simp add: qmarks_def)
qed

lemma not_opens [simp]: "\<not> opens_literal CHR ''?''" "\<not> opens_literal CHR '',''" "\<not> opens_literal CHR '' ''"
  by (auto simp: opens_literal_def special_chars)

text \<open>After the placeholders of one argument the context is that of a single one.\<close>

lemma tokenise_qmarks:
  "\<exists>p'. tokenise d p (text_of (qmarks n @ ts)) = qmarks n @ tokenise d (CHR ''?'' # p') (text_of ts)"
proof -
  have tail: "\<exists>p''. tokenise d (CHR ''?'' # p') (concat (replicate m '', ?'') @ text_of ts) =
      concat (replicate m [Byte CHR '','', Byte CHR '' '', Byte CHR ''?''])
        @ tokenise d (CHR ''?'' # p'') (text_of ts)" for p' m
  proof (induction m arbitrary: p')
    case (Suc m)
    then show ?case
      using tokenise_plain [of "'', ?''" d "CHR ''?'' # p'" "concat (replicate m '', ?'') @ text_of ts"] by simp
  qed auto
  show ?thesis
    using tokenise_plain [of "''?''" d p "concat (replicate (n - 1) '', ?'') @ text_of ts"] tail
    unfolding qmarks_text by (simp add: qmarks_def)
qed

lemma tokenise_expand:
  "same_ctx d p p' \<Longrightarrow> tokenise d p' (text_of (expand ns (tokenise d p s))) = expand ns (tokenise d p s)"
proof (induction d p s arbitrary: p' ns rule: tokenise.induct)
  case (1 d p s)
  show ?case
  proof (cases rule: tokenise_cases [of s d p])
    case (lit n)
    let ?w = "take n s"
    define ts where "ts = expand ns (tokenise d (rev ?w @ p) (drop n s))"
    have "take 1 (text_of ts) = take 1 (drop n s)" unfolding ts_def by (rule expand_head)
    then have "lit_len d p (?w @ text_of ts) = n"
      using lit_len_local [of d p s "text_of ts"] lit by simp
    then have "lit_len d p' (?w @ text_of ts) = n" using lit_len_ctx [OF 1(3)] by simp
    moreover have "n \<le> length s" using lit lit_len_bound by metis
    ultimately have "tokenise d p' (?w @ text_of ts) = Lit ?w # tokenise d (rev ?w @ p') (text_of ts)"
      using lit by (subst tokenise.simps) (simp add: Let_def)
    moreover have "tokenise d (rev ?w @ p') (text_of ts) = ts"
      using 1(1) [of n "rev ?w @ p'" ns] lit same_ctx_append [OF 1(3)] by (simp add: ts_def)
    ultimately show ?thesis using lit by (simp add: ts_def)
  next
    case (byte c cs)
    note IH = 1(2) [OF _ refl, simplified byte list.sel]
    show ?thesis
    proof (cases "c = CHR ''?'' \<and> ns \<noteq> []")
      case True
      then obtain n ns' where ns: "ns = n # ns'" by (cases ns) auto
      define ts where "ts = expand ns' (tokenise d (c # p) cs)"
      obtain p'' where "tokenise d p' (text_of (qmarks n @ ts)) = qmarks n @ tokenise d (c # p'') (text_of ts)"
        using tokenise_qmarks True by blast
      moreover have "tokenise d (c # p'') (text_of ts) = ts"
        unfolding ts_def using IH [of "c # p''" ns'] byte same_ctx_qmark True by simp
      ultimately show ?thesis using byte ns True by (simp add: ts_def del: text_of_append)
    next
      case False
      define ts where "ts = expand ns (tokenise d (c # p) cs)"
      have "lit_len d p (c # text_of ts) = 0"
        unfolding ts_def using byte by (intro expand_no_literal) simp
      then have "lit_len d p' (c # text_of ts) = 0" using lit_len_ctx [OF 1(3)] by simp
      then have "tokenise d p' (c # text_of ts) = Byte c # tokenise d (c # p') (text_of ts)"
        by (subst tokenise.simps) simp
      moreover have "tokenise d (c # p') (text_of ts) = ts"
        unfolding ts_def using IH [of "c # p'" ns] byte same_ctx_Cons [OF 1(3)] by simp
      moreover have "expand ns (tokenise d p s) = Byte c # ts"
        using byte False by (cases ns) (auto simp: ts_def)
      ultimately show ?thesis by simp
    qed
  qed simp
qed

end
