(* ===== verification/Db_Bind.thy ===== *)
theory Db_Bind
  imports Db_Scan Go_Errors
begin

text \<open>
  The binding pipeline of package \<open>db\<close> (\<open>bind.go\<close>): protecting the colons that are not
  placeholders, expanding slices for IN lists, and rewriting placeholders to the
  driver's syntax. \<open>sqlx.Named\<close> is a parameter.
\<close>

subsection \<open>Driver specifications\<close>

datatype bindType = bindQuestion | bindDollar | bindNamed | bindAt

record driverSpec =
  ds_name :: string
  ds_systemName :: string
  ds_port :: int
  ds_dialect :: dialect
  ds_bindType :: bindType

subsection \<open>Protecting colons\<close>

definition castSentinel :: string where "castSentinel = [CHR 0x00]"
definition colonSentinel :: string where "colonSentinel = [CHR 0x01]"

definition protectCasts :: "string \<Rightarrow> string" where
  "protectCasts query = replace_all query ''::'' castSentinel"

fun protectStrayColons :: "string \<Rightarrow> string" where
  "protectStrayColons [] = []"
| "protectStrayColons (c # cs) =
     (if c = CHR '':'' \<and> (cs = [] \<or> \<not> isNameStart (hd cs)) then colonSentinel else [c]) @ protectStrayColons cs"

function protectColons_loop :: "string \<Rightarrow> dialect \<Rightarrow> nat \<Rightarrow> string" where
  "protectColons_loop query d i =
     (if i < length query then
        let end' = literalEnd query i d in
        if end' > i then
          replace_all (take (end' - i) (drop i query)) '':'' colonSentinel @ protectColons_loop query d end'
        else query ! i # protectColons_loop query d (i + 1)
      else [])"
  by pat_completeness auto
termination by (relation "measure (\<lambda>(query, _, i). length query - i)") auto

declare protectColons_loop.simps [simp del]

definition protectColons :: "string \<Rightarrow> dialect \<Rightarrow> string" where
  "protectColons query d = protectColons_loop query d 0"

subsection \<open>Slices\<close>

text \<open>
  A bound value, by what \<open>sliceValue\<close> and \<open>callValuer\<close> ask of it: a pointer, a slice
  other than \<open>[]byte\<close>, a \<open>driver.Valuer\<close> (whether it is a nil pointer to a type whose
  Value method has a value receiver, and what Value returns), or anything else.
\<close>

datatype goval = GNil | GPtr "goval option" | GSlice "goval list" | GBytes string | GScalar string
  | GValuer bool "gerr + goval"

definition callValuer :: "bool \<Rightarrow> gerr + goval \<Rightarrow> gerr + goval" where
  "callValuer nilPtr value = (if nilPtr then Inr GNil else value)"

fun sliceValue :: "goval \<Rightarrow> goval list option" where
  "sliceValue (GPtr (Some v)) = sliceValue v"
| "sliceValue (GSlice vs) = Some vs"
| "sliceValue _ = None"

text \<open>The first loop of \<open>expandSlices\<close>.\<close>

fun call_valuers :: "goval list \<Rightarrow> gerr + goval list" where
  "call_valuers [] = Inr []"
| "call_valuers (arg # args) =
     (case (case arg of GValuer nilPtr value \<Rightarrow> callValuer nilPtr value | _ \<Rightarrow> Inr arg) of
        Inl e \<Rightarrow> Inl e
      | Inr v \<Rightarrow> (case call_valuers args of Inl e \<Rightarrow> Inl e | Inr vs \<Rightarrow> Inr (v # vs)))"

text \<open>The second loop: an error on an empty slice, else whether there is a slice.\<close>

fun any_slice :: "goval list \<Rightarrow> bool \<Rightarrow> gerr + bool" where
  "any_slice [] expanded = Inr expanded"
| "any_slice (arg # args) expanded =
     (case sliceValue arg of
        Some vs \<Rightarrow> if length vs = 0 then Inl (errors_New ''db: empty slice passed to IN expansion'')
                   else any_slice args True
      | None \<Rightarrow> any_slice args expanded)"

text \<open>The inner loop over one slice, from its element \<open>j\<close>.\<close>

fun slice_marks :: "nat \<Rightarrow> goval list \<Rightarrow> string" where
  "slice_marks j [] = ''''"
| "slice_marks j (v # vs) = (if j > 0 then '', '' else '''') @ ''?'' @ slice_marks (Suc j) vs"

text \<open>The last loop, from the placeholder at hand: the query text and the flat arguments.\<close>

fun expand_loop :: "string \<Rightarrow> nat \<Rightarrow> nat list \<Rightarrow> goval list \<Rightarrow> string \<times> goval list" where
  "expand_loop query prev (idx # idxs) (arg # args) =
     (let (b, flat) = expand_loop query (idx + 1) idxs args;
          (marks, vs) = (case sliceValue arg of
              Some vs \<Rightarrow> (slice_marks 0 vs, vs)
            | None \<Rightarrow> (''?'', [arg]))
      in (take (idx - prev) (drop prev query) @ marks @ b, vs @ flat))"
| "expand_loop query prev _ _ = (drop prev query, [])"

definition expandSlices :: "string \<Rightarrow> goval list \<Rightarrow> dialect \<Rightarrow> gerr + (string \<times> goval list)" where
  "expandSlices query args0 d =
     (case call_valuers args0 of
        Inl e \<Rightarrow> Inl e
      | Inr args \<Rightarrow>
          (case any_slice args False of
             Inl e \<Rightarrow> Inl e
           | Inr False \<Rightarrow> Inr (query, args)
           | Inr True \<Rightarrow>
               (let placeholders = placeholderIndexes query d in
                if length placeholders < length args
                then Inl (errors_New ''db: number of bind vars less than arguments'')
                else if length placeholders > length args
                then Inl (errors_New ''db: number of bind vars exceeds arguments'')
                else Inr (expand_loop query 0 placeholders args))))"

subsection \<open>Placeholders of the driver\<close>

definition bind_text :: "bindType \<Rightarrow> nat \<Rightarrow> string" where
  "bind_text bt k =
     (case bt of bindDollar \<Rightarrow> ''$'' @ utoa k | bindAt \<Rightarrow> ''@p'' @ utoa k
      | bindNamed \<Rightarrow> '':arg'' @ utoa k | bindQuestion \<Rightarrow> ''?'')"

fun rebind_loop :: "bindType \<Rightarrow> string \<Rightarrow> nat \<Rightarrow> nat \<Rightarrow> nat list \<Rightarrow> string" where
  "rebind_loop bt query prev i [] = drop prev query"
| "rebind_loop bt query prev i (idx # idxs) =
     take (idx - prev) (drop prev query) @ bind_text bt (i + 1) @ rebind_loop bt query (idx + 1) (i + 1) idxs"

definition rebind :: "string \<Rightarrow> driverSpec \<Rightarrow> string" where
  "rebind query d =
     (if ds_bindType d = bindQuestion then query
      else let placeholders = placeholderIndexes query (ds_dialect d) in
        if length placeholders = 0 then query
        else rebind_loop (ds_bindType d) query 0 0 placeholders)"

text \<open>The restoring step of \<open>bindQuery\<close>; \<open>named\<close> is \<open>sqlx.Named\<close>, \<open>None\<close> a nil arg.\<close>

definition restore :: "string \<Rightarrow> string" where
  "restore bound = replace_all (replace_all bound castSentinel ''::'') colonSentinel '':''"

definition protect :: "string \<Rightarrow> dialect \<Rightarrow> string" where
  "protect query d = protectStrayColons (protectColons (protectCasts query) d)"

definition bindQuery ::
  "(string \<Rightarrow> 'arg \<Rightarrow> gerr + (string \<times> goval list)) \<Rightarrow> driverSpec \<Rightarrow> string \<Rightarrow> 'arg option
   \<Rightarrow> gerr + (string \<times> goval list)" where
  "bindQuery named d query arg =
     (case arg of
        None \<Rightarrow> Inr (query, [])
      | Some a \<Rightarrow>
          (case named (protect query (ds_dialect d)) a of
             Inl e \<Rightarrow> Inl e
           | Inr (bound, args) \<Rightarrow>
               (case expandSlices (restore bound) args (ds_dialect d) of
                  Inl e \<Rightarrow> Inl e
                | Inr (bound', args') \<Rightarrow> Inr (rebind bound' d, args'))))"

subsection \<open>Hiding and restoring\<close>

definition hide :: "tok \<Rightarrow> tok" where
  "hide t = (case t of Lit l \<Rightarrow> Lit (map (\<lambda>c. if c = CHR '':'' then CHR 0x01 else c) l) | Byte c \<Rightarrow> Byte c)"

lemma replace_colon: "replace_all s '':'' colonSentinel = map (\<lambda>c. if c = CHR '':'' then CHR 0x01 else c) s"
  unfolding replace_all_char by (induction s) (auto simp: colonSentinel_def)

lemma protectColons_loop_tokens:
  "i \<le> length q \<Longrightarrow> protectColons_loop q d i = text_of (map hide (tokenise d (rev (take i q)) (drop i q)))"
proof (induction "length q - i" arbitrary: i rule: less_induct)
  case less
  show ?case
  proof (cases "i < length q")
    case True
    let ?n = "lit_len d (rev (take i q)) (drop i q)"
    have n: "literalEnd q i d = i + ?n" "i + ?n \<le> length q"
      using True literalEnd_len literalEnd_bounds by metis+
    have next1: "rev (take (Suc i) q) = q ! i # rev (take i q)" "hd (drop i q) = q ! i" "drop i q \<noteq> []"
      "tl (drop i q) = drop (Suc i) q"
      using True by (simp_all add: take_Suc_conv_app_nth hd_drop_conv_nth tl_drop drop_Suc)
    show ?thesis
      using less.hyps [of "i + ?n"] less.hyps [of "Suc i"] n next1 True
      by (cases "?n > 0")
        (simp_all add: protectColons_loop.simps [of q d i] tokenise.simps [of d "rev (take i q)"] hide_def replace_colon
          take_add Let_def min_def add.commute)
  qed (use less.prems in \<open>simp add: protectColons_loop.simps\<close>)
qed

lemma protectColons_tokens: "protectColons q d = text_of (map hide (tokenise d [] q))"
  by (simp add: protectColons_def protectColons_loop_tokens)

text \<open>What restoring does to one byte.\<close>

definition unhide :: "char \<Rightarrow> string" where
  "unhide c = (if c = CHR 0x00 then ''::'' else if c = CHR 0x01 then '':'' else [c])"

lemma restore_bytes: "restore s = concat (map unhide s)"
  unfolding restore_def castSentinel_def colonSentinel_def replace_all_char
  by (induction s) (auto simp: unhide_def)

lemma restore_stray [simp]: "restore (protectStrayColons s) = restore s"
  by (induction s) (auto simp: restore_bytes unhide_def colonSentinel_def)

lemma restore_hide: "concat (map unhide (text_of (map hide ts))) = concat (map unhide (text_of ts))"
proof (induction ts rule: text_of.induct)
  case (2 l ts)
  have "concat (map (\<lambda>c. unhide (if c = CHR '':'' then CHR 0x01 else c)) l) = concat (map unhide l)"
    by (induction l) (auto simp: unhide_def)
  with 2 show ?case by (simp add: hide_def comp_def)
qed (simp_all add: hide_def)

lemma restore_colons [simp]: "restore (protectColons q d) = restore q"
  by (simp add: restore_bytes protectColons_tokens restore_hide)

lemma restore_casts: "CHR 0x00 \<notin> set q \<Longrightarrow> CHR 0x01 \<notin> set q \<Longrightarrow> restore (protectCasts q) = q"
  unfolding protectCasts_def restore_bytes
proof (induction q "''::''" castSentinel rule: replace_all.induct)
  case (1 s)
  show ?case
  proof (cases s)
    case (Cons c cs)
    show ?thesis
    proof (cases "prefix ''::'' s")
      case True
      then obtain cs' where "s = CHR '':'' # CHR '':'' # cs'" by (auto simp: prefix_def)
      with 1 True show ?thesis by (simp add: replace_all_Cons unhide_def castSentinel_def)
    next
      case False
      with 1 Cons show ?thesis by (auto simp: replace_all_Cons unhide_def)
    qed
  qed simp
qed

text \<open>
  C25: protecting a query loses nothing: whatever literals, casts, slices and stray colons
  it has, restoring the protected text gives the query back, as long as the query does not
  itself contain the two control bytes used as sentinels.
\<close>

theorem protect_restore:
  assumes "CHR 0x00 \<notin> set query" and "CHR 0x01 \<notin> set query"
  shows "restore (protect query d) = query"
  using assms by (simp add: protect_def restore_casts)

theorem protect_restore_witness:
  "restore (protect ''select :a::int, '' dialectPostgres) = ''select :a::int, ''"
  by (rule protect_restore) simp_all

subsection \<open>Hidden colons do not change the literals\<close>

text \<open>The scanner does not tell a colon from the byte that hides it.\<close>

definition unmask :: "char \<Rightarrow> char" where
  "unmask c = (if c = CHR 0x01 then CHR '':'' else c)"

lemma unmask_eq: "k \<noteq> CHR '':'' \<Longrightarrow> k \<noteq> CHR 0x01 \<Longrightarrow> unmask c = k \<longleftrightarrow> c = k"
  by (auto simp: unmask_def)

lemma unmask_chars [simp]:
  "unmask c = squote \<longleftrightarrow> c = squote" "unmask c = dquote \<longleftrightarrow> c = dquote" "unmask c = backtick \<longleftrightarrow> c = backtick"
  "unmask c = backslash \<longleftrightarrow> c = backslash" "unmask c = newline \<longleftrightarrow> c = newline"
  "unmask c = CHR ''#'' \<longleftrightarrow> c = CHR ''#''" "unmask c = CHR ''-'' \<longleftrightarrow> c = CHR ''-''"
  "unmask c = CHR ''/'' \<longleftrightarrow> c = CHR ''/''" "unmask c = CHR ''*'' \<longleftrightarrow> c = CHR ''*''"
  "unmask c = CHR ''$'' \<longleftrightarrow> c = CHR ''$''" "unmask c = CHR ''E'' \<longleftrightarrow> c = CHR ''E''"
  "unmask c = CHR ''e'' \<longleftrightarrow> c = CHR ''e''"
  by (simp_all add: unmask_eq special_chars)

lemma unmask_classes [simp]:
  "isDollarTagChar (unmask c) = isDollarTagChar c" "isIdentChar (unmask c) = isIdentChar c"
  "isSpaceByte (unmask c) = isSpaceByte c"
  by (auto simp: unmask_def isDollarTagChar_def isIdentChar_def isSpaceByte_def byte_between_def
      high_byte_def newline_def)

lemma unmask_tag: "isDollarTagChar c \<Longrightarrow> unmask c = c"
  by (auto simp: unmask_def isDollarTagChar_def byte_between_def high_byte_def)

lemma unmask_quoted_len:
  "quote \<noteq> CHR '':'' \<Longrightarrow> quote \<noteq> CHR 0x01 \<Longrightarrow> quoted_len quote bs (map unmask s) = quoted_len quote bs s"
  by (induction quote bs s rule: quoted_len.induct) (simp_all add: unmask_eq)

lemma unmask_line_len [simp]: "line_len (map unmask s) = line_len s"
  by (induction s) simp_all

lemma unmask_block_len [simp]: "block_len nested depth (map unmask s) = block_len nested depth s"
  by (induction nested depth s rule: block_len.induct) simp_all

lemma unmask_prefix:
  "CHR '':'' \<notin> set sub \<Longrightarrow> CHR 0x01 \<notin> set sub \<Longrightarrow> prefix sub (map unmask s) \<longleftrightarrow> prefix sub s"
proof (induction sub arbitrary: s)
  case (Cons c sub)
  then show ?case by (cases s) (auto simp: unmask_def)
qed simp

lemma unmask_str_index:
  "CHR '':'' \<notin> set sub \<Longrightarrow> CHR 0x01 \<notin> set sub \<Longrightarrow> str_index (map unmask s) sub = str_index s sub"
proof (induction s)
  case (Cons c s)
  then show ?case using unmask_prefix [of sub "c # s"] by simp
qed simp

lemma unmask_takeWhile:
  "takeWhile isDollarTagChar (map unmask s) = takeWhile isDollarTagChar s"
  "dropWhile isDollarTagChar (map unmask s) = map unmask (dropWhile isDollarTagChar s)"
  by (induction s) (simp_all add: unmask_tag)

lemma unmask_dollar_len: "dollar_len (map unmask p) (map unmask s) = dollar_len p s"
proof -
  let ?r = "dropWhile isDollarTagChar s" and ?t = "takeWhile isDollarTagChar s"
  have "CHR '':'' \<notin> set ?t" "CHR 0x01 \<notin> set ?t"
    by (auto dest!: set_takeWhileD simp: isDollarTagChar_def byte_between_def high_byte_def)
  then have idx: "str_index (map unmask (tl ?r)) (CHR ''$'' # ?t @ ''$'') = str_index (tl ?r) (CHR ''$'' # ?t @ ''$'')"
    by (intro unmask_str_index) auto
  have p: "(map unmask p \<noteq> [] \<and> isIdentChar (hd (map unmask p))) = (p \<noteq> [] \<and> isIdentChar (hd p))"
    by (cases p) simp_all
  have r: "(map unmask ?r = [] \<or> hd (map unmask ?r) \<noteq> CHR ''$'' \<or> X) = (?r = [] \<or> hd ?r \<noteq> CHR ''$'' \<or> X)" for X
    by (cases ?r) simp_all
  show ?thesis
    unfolding dollar_len_def unmask_takeWhile Let_def p r map_tl [symmetric] idx length_map ..
qed

lemma unmask_escape [simp]: "escape_ctx d (map unmask p) = escape_ctx d p"
  by (cases p; cases "tl p") (auto simp: escape_ctx_def)

lemma unmask_opens: "opens_literal (unmask c) = opens_literal c" "opens_literal c \<Longrightarrow> unmask c = c"
  by (auto simp: opens_literal_def unmask_def special_chars)

lemma unmask_lit_len: "lit_len d (map unmask p) (map unmask s) = lit_len d p s"
proof (cases s)
  case (Cons c cs)
  show ?thesis
  proof (cases "opens_literal c")
    case True
    have q: "quoted_len k bs (map unmask cs) = quoted_len k bs cs" if "k \<in> {squote, dquote, backtick}" for k bs
      using that by (intro unmask_quoted_len) (auto simp: special_chars)
    from True have "lit_len d (map unmask p) (c # map unmask cs) = lit_len d p (c # cs)"
      unfolding opens_literal_def
      by (elim insertE emptyE) (simp_all add: lit_len_simps q unmask_dollar_len hd_map flip: map_tl cong: conj_cong disj_cong)
    then show ?thesis using True Cons by (simp add: unmask_opens)
  next
    case False
    then show ?thesis using Cons by (simp add: lit_len_plain unmask_opens)
  qed
qed (simp add: lit_len_simps)

lemma unmask_text_hide: "map unmask (text_of (map hide ts)) = map unmask (text_of ts)"
  by (induction ts rule: text_of.induct) (auto simp: hide_def unmask_def)

lemma tokenise_hide:
  "map unmask p' = map unmask p \<Longrightarrow> tokenise d p' (text_of (map hide (tokenise d p s))) = map hide (tokenise d p s)"
proof (induction d p s arbitrary: p' rule: tokenise.induct)
  case (1 d p s)
  let ?s' = "text_of (map hide (tokenise d p s))"
  have len: "lit_len d p' ?s' = lit_len d p s"
    using unmask_lit_len [of d p' ?s'] unmask_lit_len [of d p s] 1(3) unmask_text_hide [of "tokenise d p s"] by simp
  show ?case
  proof (cases rule: tokenise_cases [of s d p])
    case (lit n)
    define w where "w = map (\<lambda>c. if c = CHR '':'' then CHR 0x01 else c) (take n s)"
    define ts where "ts = map hide (tokenise d (rev (take n s) @ p) (drop n s))"
    have s': "?s' = w @ text_of ts" "map hide (tokenise d p s) = Lit w # ts"
      using lit by (simp_all add: w_def ts_def hide_def)
    have "length w = n" using lit lit_len_bound [of d p s] by (simp add: w_def)
    then have "tokenise d p' (w @ text_of ts) = Lit w # tokenise d (rev w @ p') (text_of ts)"
      using lit len unfolding s' by (subst tokenise.simps) (auto simp: Let_def)
    moreover have "map unmask w = map unmask (take n s)" by (auto simp: w_def unmask_def)
    then have "tokenise d (rev w @ p') (text_of ts) = ts"
      unfolding ts_def using 1(1) [of n "rev w @ p'"] lit 1(3) by (simp flip: rev_map)
    ultimately show ?thesis unfolding s' by simp
  next
    case (byte c cs)
    define ts where "ts = map hide (tokenise d (c # p) cs)"
    have s': "?s' = c # text_of ts" "map hide (tokenise d p s) = Byte c # ts"
      using byte by (simp_all add: ts_def hide_def)
    have "tokenise d p' (c # text_of ts) = Byte c # tokenise d (c # p') (text_of ts)"
      using byte len unfolding s' by (subst tokenise.simps) simp
    moreover have "tokenise d (c # p') (text_of ts) = ts"
      unfolding ts_def using 1(2) [of 0 "c # p'"] byte 1(3) by simp
    ultimately show ?thesis unfolding s' by simp
  qed simp
qed

text \<open>Hiding further colons keeps the boundaries of the tokens.\<close>

definition masks :: "char \<Rightarrow> char \<Rightarrow> bool" where
  "masks c c' \<longleftrightarrow> c' = c \<or> c = CHR '':'' \<and> c' = CHR 0x01"

lemma masks_unmask: "list_all2 masks s s' \<Longrightarrow> map unmask s' = map unmask s"
  by (induction rule: list_all2_induct) (auto simp: masks_def unmask_def)

lemma masks_no_colon: "list_all2 masks s s' \<Longrightarrow> CHR '':'' \<in> set s' \<Longrightarrow> CHR '':'' \<in> set s"
  by (induction rule: list_all2_induct) (auto simp: masks_def)

lemma masks_literals:
  "list_all2 masks p p' \<Longrightarrow> list_all2 masks s s' \<Longrightarrow> Lit l' \<in> set (tokenise d p' s') \<Longrightarrow>
     \<exists>l. Lit l \<in> set (tokenise d p s) \<and> list_all2 masks l l'"
proof (induction d p s arbitrary: p' s' rule: tokenise.induct)
  case (1 d p s)
  have len: "lit_len d p' s' = lit_len d p s"
    using unmask_lit_len [of d p' s'] unmask_lit_len [of d p s] 1(3,4) by (simp add: masks_unmask)
  show ?case
  proof (cases rule: tokenise_cases [of s d p])
    case nil
    then show ?thesis using 1 by simp
  next
    case (lit n)
    then have "tokenise d p' s' = Lit (take n s') # tokenise d (rev (take n s') @ p') (drop n s')"
      using len 1(4) by (subst tokenise.simps) (auto simp: Let_def)
    moreover have "list_all2 masks (take n s) (take n s')" "list_all2 masks (drop n s) (drop n s')"
      using 1(4) by simp_all
    ultimately show ?thesis
      using 1(1) [of n "rev (take n s') @ p'" "drop n s'"] lit 1(3,5) by (auto intro: list_all2_appendI)
  next
    case (byte c cs)
    then obtain c' cs' where s': "s' = c' # cs'" "masks c c'" "list_all2 masks cs cs'"
      using 1(4) by (auto simp: list_all2_Cons1)
    then have "tokenise d p' s' = Byte c' # tokenise d (c' # p') cs'"
      using len byte by (subst tokenise.simps) simp
    then show ?thesis using 1(2) [of 0 "c' # p'" cs'] byte s' 1(3,5) by auto
  qed
qed

lemma masks_stray: "list_all2 masks s (protectStrayColons s)"
  by (induction s) (auto simp: masks_def colonSentinel_def)

lemma stray_nth:
  "k < length s \<Longrightarrow> protectStrayColons s ! k =
     (if s ! k = CHR '':'' \<and> (Suc k = length s \<or> \<not> isNameStart (s ! Suc k)) then CHR 0x01 else s ! k)"
proof (induction s arbitrary: k)
  case (Cons c s)
  then show ?case
    by (cases k; cases s) (auto simp: colonSentinel_def nth_append)
qed simp

text \<open>
  What \<open>sqlx.Named\<close> is given can only be misread where the caller wrote a placeholder:
  in the protected query no literal, quoted identifier, comment or dollar-quoted string
  contains a colon, and every colon left is followed by a byte that can start a name.
\<close>

theorem protect_hides_colons:
  "(\<forall>l. Lit l \<in> set (tokenise d [] (protect query d)) \<longrightarrow> CHR '':'' \<notin> set l)
   \<and> (\<forall>k < length (protect query d). protect query d ! k = CHR '':'' \<longrightarrow>
        Suc k < length (protect query d) \<and> isNameStart (protect query d ! Suc k))"
proof -
  let ?q = "protectCasts query"
  let ?c = "protectColons ?q d"
  have "tokenise d [] ?c = map hide (tokenise d [] ?q)"
    unfolding protectColons_tokens by (rule tokenise_hide) simp
  then have "CHR '':'' \<notin> set l" if "Lit l \<in> set (tokenise d [] ?c)" for l
    using that by (auto simp: hide_def split: tok.splits)
  then have "CHR '':'' \<notin> set l" if "Lit l \<in> set (tokenise d [] (protectStrayColons ?c))" for l
    using that masks_literals [OF _ masks_stray, of "[]" "[]" l d ?c] masks_no_colon by blast
  moreover have len: "length (protectStrayColons ?c) = length ?c"
    using masks_stray list_all2_lengthD by metis
  have "Suc k < length ?c \<and> isNameStart (protectStrayColons ?c ! Suc k)"
    if "k < length ?c" "protectStrayColons ?c ! k = CHR '':''" for k
  proof -
    have next1: "Suc k < length ?c" "isNameStart (?c ! Suc k)"
      using that by (auto simp: stray_nth split: if_splits)
    then have "?c ! Suc k \<noteq> CHR '':''" by (auto simp: isNameStart_def byte_between_def high_byte_def)
    with next1 show ?thesis by (simp add: stray_nth)
  qed
  ultimately show ?thesis by (auto simp: protect_def len)
qed

theorem protect_hides_colons_witness:
  "CHR '':'' \<in> set (protect ''select :id'' dialectMySQL) \<and> isNameStart (protect ''select :id'' dialectMySQL ! 8)"
proof -
  have "protectColons (protectCasts ''select :id'') dialectMySQL = ''select :id''"
    using tokenise_plain [of "''select :id''" dialectMySQL "[]" "[]"]
    by (simp add: protectColons_tokens protectCasts_def replace_all_Cons hide_def opens_literal_def special_chars)
  then have "protect ''select :id'' dialectMySQL = ''select :id''"
    by (simp add: protect_def isNameStart_def byte_between_def)
  then show ?thesis
    using protect_hides_colons [of dialectMySQL "''select :id''", THEN conjunct2, THEN spec, of 7] by simp
qed

subsection \<open>Placeholders\<close>

text \<open>A query with its placeholders replaced, in order, by the given texts.\<close>

fun subst :: "string list \<Rightarrow> tok list \<Rightarrow> string" where
  "subst rs [] = []"
| "subst rs (Lit l # ts) = l @ subst rs ts"
| "subst rs (Byte c # ts) =
     (if c = CHR ''?'' then (case rs of r # rs' \<Rightarrow> r @ subst rs' ts | [] \<Rightarrow> c # subst [] ts) else c # subst rs ts)"

fun splice :: "string \<Rightarrow> nat \<Rightarrow> nat list \<Rightarrow> string list \<Rightarrow> string" where
  "splice q prev (idx # idxs) (r # rs) = take (idx - prev) (drop prev q) @ r @ splice q (idx + 1) idxs rs"
| "splice q prev _ _ = drop prev q"

lemma splice_tokens:
  assumes "drop i q = text_of ts" and "prev \<le> i" and "i \<le> length q" and "length rs = length (offsets i ts)"
  shows "splice q prev (offsets i ts) rs = take (i - prev) (drop prev q) @ subst rs ts"
  using assms
proof (induction rs ts arbitrary: i prev rule: subst.induct)
  case (1 rs)
  then show ?case by (cases rs) (simp_all add: take_all_iff)
next
  case (2 rs l ts)
  have len: "i + length l \<le> length q" using arg_cong [OF 2(2), of length] 2(4) by simp
  have "drop (i + length l) q = text_of ts" 
    using 2(2) by (metis add.commute append_eq_conv_conj drop_drop text_of.simps(2))
  moreover have "take (i + length l - prev) (drop prev q) = take (i - prev) (drop prev q) @ l"
  proof -
    have "take (i - prev + length l) (drop prev q) = take (i - prev) (drop prev q) @ take (length l) (drop i q)"
      using take_add [of "i - prev" "length l" "drop prev q"] 2(3) by simp
    then show ?thesis using 2(2,3) by simp
  qed
  ultimately show ?case using 2(1) [of "i + length l" prev] 2(3,5) len by simp
next
  case (3 rs c ts)
  have i: "i < length q" "drop (Suc i) q = text_of ts" "q ! i = c"
    using 3(4) by (metis drop_all list.distinct(1) not_less text_of.simps(3),
        metis drop_Suc list.sel(3) text_of.simps(3) tl_drop,
        metis drop_all hd_drop_conv_nth list.distinct(1) list.sel(1) not_less text_of.simps(3))
  have step: "take (Suc i - prev) (drop prev q) = take (i - prev) (drop prev q) @ [c]"
    using 3(5) i by (simp add: Suc_diff_le take_Suc_conv_app_nth)
  show ?case
  proof (cases "c = CHR ''?''")
    case True
    then obtain r rs' where rs: "rs = r # rs'" using 3(7) by (cases rs) auto
    then show ?thesis using 3(2) [OF True rs, of "Suc i" "Suc i"] True i 3(7) by simp
  next
    case False
    then show ?thesis using 3(3) [OF False, of "Suc i" prev] i step 3(5,7) by simp
  qed
qed

lemma splice_query:
  "length rs = length (placeholderIndexes q d) \<Longrightarrow>
     splice q 0 (placeholderIndexes q d) rs = subst rs (tokenise d [] q)"
  using splice_tokens [of 0 q "tokenise d [] q" 0 rs] by (simp add: placeholderIndexes_tokens)

definition arg_flat :: "goval \<Rightarrow> goval list" where
  "arg_flat arg = (case sliceValue arg of Some vs \<Rightarrow> vs | None \<Rightarrow> [arg])"

definition arg_marks :: "goval \<Rightarrow> string" where
  "arg_marks arg = (case sliceValue arg of Some vs \<Rightarrow> slice_marks 0 vs | None \<Rightarrow> ''?'')"

lemma expand_loop_splice:
  "length idxs = length args \<Longrightarrow>
     expand_loop q prev idxs args = (splice q prev idxs (map arg_marks args), concat (map arg_flat args))"
proof (induction q prev idxs args rule: expand_loop.induct)
  case (1 q prev idx idxs arg args)
  then show ?case by (auto simp: arg_marks_def arg_flat_def split: option.splits)
qed auto

lemma slice_marks_text: "slice_marks 0 (v # vs) = ''?'' @ concat (replicate (length vs) '', ?'')"
proof -
  have "slice_marks (Suc j) vs = concat (replicate (length vs) '', ?'')" for j
    by (induction vs arbitrary: j) auto
  then show ?thesis by simp
qed

lemma any_slice_ok:
  "any_slice args b = Inr b' \<Longrightarrow> (\<forall>arg \<in> set args. arg_flat arg \<noteq> []) \<and> (b' \<longleftrightarrow> b \<or> (\<exists>arg \<in> set args. sliceValue arg \<noteq> None))"
  by (induction args b rule: any_slice.induct) (auto simp: arg_flat_def split: option.splits if_splits)

lemma arg_marks_text:
  "arg_flat arg \<noteq> [] \<Longrightarrow> arg_marks arg = ''?'' @ concat (replicate (length (arg_flat arg) - 1) '', ?'')"
  by (cases "sliceValue arg"; cases "the (sliceValue arg)")
    (auto simp: arg_marks_def arg_flat_def slice_marks_text simp del: slice_marks.simps)

lemma subst_expand:
  "\<forall>arg \<in> set args. arg_flat arg \<noteq> [] \<Longrightarrow>
     subst (map arg_marks args) ts = text_of (expand (map (length \<circ> arg_flat) args) ts)"
proof (induction "map (length \<circ> arg_flat) args" ts arbitrary: args rule: expand.induct)
  case (4 n ns c ts)
  then obtain arg args' where args: "args = arg # args'" "n = length (arg_flat arg)" "ns = map (length \<circ> arg_flat) args'"
    by (cases args) auto
  show ?case
    using 4(1) [of args'] 4(2) [of args] 4(4) args
    by (auto simp: qmarks_text arg_marks_text simp del: text_of_append)
qed auto

lemma offsets_append: "length (offsets i (ts @ us)) = length (offsets i ts) + length (offsets i us)"
proof -
  have shift: "length (offsets j us) = length (offsets k us)" for j k
    by (induction us arbitrary: j k rule: text_of.induct) auto
  show ?thesis by (induction ts arbitrary: i rule: text_of.induct) (auto intro: shift)
qed

lemma offsets_qmarks: "0 < n \<Longrightarrow> length (offsets i (qmarks n)) = n"
proof -
  have "length (offsets i (concat (replicate m [Byte CHR '','', Byte CHR '' '', Byte CHR ''?'']))) = m" for m i
    by (induction m arbitrary: i) auto
  then show "0 < n \<Longrightarrow> ?thesis" by (simp add: qmarks_def)
qed

lemma offsets_expand:
  "length ns = length (offsets i ts) \<Longrightarrow> \<forall>n \<in> set ns. 0 < n \<Longrightarrow> length (offsets j (expand ns ts)) = sum_list ns"
proof (induction ns ts arbitrary: i j rule: expand.induct)
  case (4 n ns c ts)
  then show ?case using offsets_qmarks [of n j] by (auto simp: offsets_append)
qed auto

text \<open>
  C22: when an argument is a slice, \<open>expandSlices\<close> returns as many placeholders as
  arguments: scanning the rewritten query again finds one placeholder per flat argument,
  the flat arguments are the arguments in order with each slice replaced by its elements,
  and the tokens of the query other than the placeholders are unchanged.
\<close>

theorem expandSlices_balanced:
  assumes "expandSlices query args0 d = Inr (query', flat)" and "call_valuers args0 = Inr args"
    and "\<exists>arg \<in> set args. sliceValue arg \<noteq> None"
  shows "length (placeholderIndexes query' d) = length flat \<and> flat = concat (map arg_flat args)
    \<and> length (placeholderIndexes query d) = length args
    \<and> tokenise d [] query' = expand (map (length \<circ> arg_flat) args) (tokenise d [] query)"
proof -
  obtain b where b: "any_slice args False = Inr b"
    using assms(1,2) by (auto simp: expandSlices_def split: sum.splits)
  with any_slice_ok assms(3) have ok: "b" "\<forall>arg \<in> set args. arg_flat arg \<noteq> []" by blast+
  let ?ns = "map (length \<circ> arg_flat) args"
  have len: "length (placeholderIndexes query d) = length args"
    and res: "(query', flat) = expand_loop query 0 (placeholderIndexes query d) args"
    using assms(1,2) b ok by (auto simp: expandSlices_def Let_def split: if_splits)
  have q': "query' = text_of (expand ?ns (tokenise d [] query))" and flat: "flat = concat (map arg_flat args)"
    using res len by (simp_all add: expand_loop_splice splice_query subst_expand [OF ok(2)])
  have tok: "tokenise d [] query' = expand ?ns (tokenise d [] query)"
    unfolding q' by (rule tokenise_expand) simp
  have "length (placeholderIndexes query' d) = sum_list ?ns"
    unfolding placeholderIndexes_tokens tok
    using offsets_expand [of ?ns 0 "tokenise d [] query" 0] len ok(2) by (auto simp: placeholderIndexes_tokens)
  also have "\<dots> = length flat" by (simp add: flat length_concat comp_def)
  finally show ?thesis using flat len tok by blast
qed

theorem expandSlices_balanced_witness:
  "\<exists>query'. expandSlices ''id in (?)'' [GSlice [GScalar ''1'', GScalar ''2'']] dialectMySQL
     = Inr (query', [GScalar ''1'', GScalar ''2'']) \<and> length (placeholderIndexes query' dialectMySQL) = 2"
proof -
  have tok: "tokenise dialectMySQL [] ''id in (?)'' = map Byte ''id in (?)''"
    using tokenise_plain [of "''id in (?)''" dialectMySQL "[]" "[]"] by (simp add: opens_literal_def special_chars)
  have one: "length (placeholderIndexes ''id in (?)'' dialectMySQL) = 1"
    by (simp add: placeholderIndexes_tokens tok)
  let ?args = "[GSlice [GScalar ''1'', GScalar ''2'']]"
  have "expandSlices ''id in (?)'' ?args dialectMySQL =
      Inr (expand_loop ''id in (?)'' 0 (placeholderIndexes ''id in (?)'' dialectMySQL) ?args)"
    using one by (auto simp: expandSlices_def Let_def)
  then obtain query' flat where res: "expandSlices ''id in (?)'' ?args dialectMySQL = Inr (query', flat)"
    by (metis prod.exhaust)
  with expandSlices_balanced [of "''id in (?)''" ?args dialectMySQL query' flat ?args]
  have "length (placeholderIndexes query' dialectMySQL) = length flat" "flat = [GScalar ''1'', GScalar ''2'']"
    by (simp_all add: arg_flat_def)
  with res show ?thesis by simp
qed

lemma rebind_loop_splice:
  "rebind_loop bt q prev i idxs = splice q prev idxs (map (bind_text bt) [Suc i..<Suc (i + length idxs)])"
  by (induction idxs arbitrary: prev i) (simp_all add: upt_conv_Cons del: upt_Suc)

text \<open>
  \<open>rebind\<close> replaces exactly the placeholders of the query, in order, by the driver's
  numbered placeholders 1 to n, and copies every other byte, literals and comments
  included; a question-mark driver gets the query as it is.
\<close>

theorem rebind_numbers:
  "rebind query d =
     (if ds_bindType d = bindQuestion then query
      else subst (map (bind_text (ds_bindType d)) [1..<Suc (length (placeholderIndexes query (ds_dialect d)))])
             (tokenise (ds_dialect d) [] query))"
proof (cases "placeholderIndexes query (ds_dialect d) = []")
  case True
  then have "subst [] (tokenise (ds_dialect d) [] query) = query"
    using splice_query [of "[]" query "ds_dialect d"] by simp
  with True show ?thesis by (simp add: rebind_def)
next
  case False
  then show ?thesis
    by (simp add: rebind_def rebind_loop_splice Let_def splice_query [of "map _ _"] del: upt_Suc)
qed


definition mysql_spec :: driverSpec where
  "mysql_spec = \<lparr>ds_name = ''mysql'', ds_systemName = ''mysql'', ds_port = 3306,
     ds_dialect = dialectMySQL, ds_bindType = bindQuestion\<rparr>"


end
