(* ===== verification/Db_Client.thy ===== *)
theory Db_Client
  imports Db_Bind Go_Net Telemetry
begin

text \<open>
  Package \<open>db\<close>, the rest: configuration, drivers and data source names, Connect, the
  instrumented execution of a statement. The MySQL and pgx drivers, sqlx, the Unicode
  case tables and the database itself are parameters.
\<close>

subsection \<open>Configuration and drivers\<close>

record db_config =
  Driver :: string
  DSN :: string
  Host :: string
  Port :: int
  Database :: string
  db_Username :: string
  db_Password :: string
  SSLMode :: string
  MaxOpenConns :: int
  MaxIdleConns :: int
  ConnMaxLifetime :: duration
  ConnMaxIdleTime :: duration

definition defaultMaxOpenConns :: int where "defaultMaxOpenConns = 25"
definition defaultMaxIdleConns :: int where "defaultMaxIdleConns = 25"
definition defaultConnMaxLifetime :: duration where "defaultConnMaxLifetime = 3 * minute"
definition defaultConnMaxIdleTime :: duration where "defaultConnMaxIdleTime = 5 * minute"

lemmas db_defaults = defaultMaxOpenConns_def defaultMaxIdleConns_def defaultConnMaxLifetime_def
  defaultConnMaxIdleTime_def minute_def second_def millisecond_def

definition mysqlDriver :: driverSpec where
  "mysqlDriver = \<lparr>ds_name = ''mysql'', ds_systemName = ''mysql'', ds_port = 3306,
     ds_dialect = dialectMySQL, ds_bindType = bindQuestion\<rparr>"

definition postgresDriver :: driverSpec where
  "postgresDriver = \<lparr>ds_name = ''pgx'', ds_systemName = ''postgresql'', ds_port = 5432,
     ds_dialect = dialectPostgres, ds_bindType = bindDollar\<rparr>"

definition driverFor :: "(string \<Rightarrow> string) \<Rightarrow> string \<Rightarrow> driverSpec option" where
  "driverFor uni name =
     (let n = to_lower uni (trim_space name) in
      if n \<in> {'''', ''mysql''} then Some mysqlDriver
      else if n \<in> {''pgx'', ''pgx/v5'', ''postgres'', ''postgresql''} then Some postgresDriver
      else None)"

datatype sqlx_bind = SqlxUnknown | SqlxQuestion | SqlxDollar | SqlxNamed | SqlxAt

definition sqlxBindType :: "(string \<Rightarrow> sqlx_bind) \<Rightarrow> string \<Rightarrow> bindType" where
  "sqlxBindType sqlx name =
     (case sqlx name of SqlxDollar \<Rightarrow> bindDollar | SqlxNamed \<Rightarrow> bindNamed | SqlxAt \<Rightarrow> bindAt
      | _ \<Rightarrow> bindQuestion)"

definition genericDriver :: "(string \<Rightarrow> sqlx_bind) \<Rightarrow> string \<Rightarrow> driverSpec" where
  "genericDriver sqlx name = \<lparr>ds_name = name, ds_systemName = name, ds_port = 0,
     ds_dialect = dialectGeneric, ds_bindType = sqlxBindType sqlx name\<rparr>"

definition db_SetDefaults :: "(string \<Rightarrow> string) \<Rightarrow> db_config \<Rightarrow> db_config" where
  "db_SetDefaults uni c0 =
     (let c1 = c0\<lparr>Driver := to_lower uni (trim_space (Driver c0))\<rparr>;
          c2 = c1\<lparr>SSLMode := to_lower uni (trim_space (SSLMode c1))\<rparr>;
          c3 = (if Driver c2 = '''' then c2\<lparr>Driver := ''mysql''\<rparr> else c2);
          c4 = (if Port c3 = 0 \<and> Host c3 \<noteq> '''' \<and> DSN c3 = '''' then
                  (case driverFor uni (Driver c3) of Some spec \<Rightarrow> c3\<lparr>Port := ds_port spec\<rparr> | None \<Rightarrow> c3)
                else c3);
          c5 = (if MaxOpenConns c4 = 0 then c4\<lparr>MaxOpenConns := defaultMaxOpenConns\<rparr> else c4);
          c6 = (if MaxIdleConns c5 = 0 then
                  (if MaxOpenConns c5 > 0 then c5\<lparr>MaxIdleConns := MaxOpenConns c5\<rparr>
                   else c5\<lparr>MaxIdleConns := defaultMaxIdleConns\<rparr>)
                else c5);
          c7 = (if ConnMaxLifetime c6 = 0 then c6\<lparr>ConnMaxLifetime := defaultConnMaxLifetime\<rparr> else c6)
      in if ConnMaxIdleTime c7 = 0 then c7\<lparr>ConnMaxIdleTime := defaultConnMaxIdleTime\<rparr> else c7)"

definition ssl_modes :: "string list" where
  "ssl_modes = [''disable'', ''allow'', ''prefer'', ''require'', ''verify-ca'', ''verify-full'']"

text \<open>
  The texts are built with the parameters \<open>quoteQ\<close>, the \<open>%q\<close> form of a string, and
  \<open>durV\<close>, the \<open>%v\<close> form of a duration.
\<close>

definition db_Validate ::
  "(string \<Rightarrow> string) \<Rightarrow> (string \<Rightarrow> string) \<Rightarrow> (duration \<Rightarrow> string) \<Rightarrow> db_config \<Rightarrow> error" where
  "db_Validate uni quoteQ durV c = errors_Join
     ((if driverFor uni (Driver c) = None \<and> DSN c = ''''
       then [errors_New (''db: unsupported driver '' @ quoteQ (Driver c)
         @ '': use mysql, pgx, pgx/v5, postgres, or postgresql, or set DSN for a custom driver'')] else [])
      @ (if DSN c = '''' then
           (if Host c = '''' then [errors_New ''db: host is required''] else [])
           @ (if Port c < 1 \<or> Port c > 65535
              then [errors_New (''db: port '' @ itoa (Port c) @ '' is out of range (1-65535)'')] else [])
           @ (if Database c = '''' then [errors_New ''db: database is required''] else [])
           @ (if db_Username c = '''' then [errors_New ''db: username is required''] else [])
         else [])
      @ (if SSLMode c \<noteq> '''' \<and> SSLMode c \<notin> set ssl_modes
         then [errors_New (''db: SSLMode '' @ quoteQ (SSLMode c)
           @ '' is not a valid SSL mode (disable, allow, prefer, require, verify-ca, verify-full)'')] else [])
      @ (if MaxOpenConns c < 0
         then [errors_New (''db: MaxOpenConns must not be negative, got '' @ itoa (MaxOpenConns c))] else [])
      @ (if MaxIdleConns c < 0
         then [errors_New (''db: MaxIdleConns must not be negative, got '' @ itoa (MaxIdleConns c))] else [])
      @ (if MaxOpenConns c > 0 \<and> MaxIdleConns c > MaxOpenConns c
         then [errors_New (''db: MaxIdleConns ('' @ itoa (MaxIdleConns c)
           @ '') must not exceed MaxOpenConns ('' @ itoa (MaxOpenConns c) @ '')'')] else [])
      @ (if ConnMaxLifetime c < 0
         then [errors_New (''db: ConnMaxLifetime must not be negative, got '' @ durV (ConnMaxLifetime c))] else [])
      @ (if ConnMaxIdleTime c < 0
         then [errors_New (''db: ConnMaxIdleTime must not be negative, got '' @ durV (ConnMaxIdleTime c))] else []))"

subsection \<open>Data source names\<close>

record mysql_config =
  mc_User :: string
  mc_Passwd :: string
  mc_Net :: string
  mc_Addr :: string
  mc_DBName :: string
  mc_ParseTime :: bool
  mc_TLSConfig :: string

definition mysqlTLSConfig :: "string \<Rightarrow> string" where
  "mysqlTLSConfig sslMode =
     (if sslMode = ''disable'' then ''false''
      else if sslMode = ''allow'' \<or> sslMode = ''prefer'' then ''preferred''
      else if sslMode = ''require'' then ''skip-verify''
      else if sslMode = ''verify-ca'' \<or> sslMode = ''verify-full'' then ''true''
      else '''')"

text \<open>\<open>formatDSN\<close> is \<open>mysql.Config.FormatDSN\<close> on the driver's defaults with these fields set.\<close>

definition mysqlDSN :: "(mysql_config \<Rightarrow> string) \<Rightarrow> db_config \<Rightarrow> string" where
  "mysqlDSN formatDSN cfg = formatDSN
     \<lparr>mc_User = db_Username cfg, mc_Passwd = db_Password cfg, mc_Net = ''tcp'',
      mc_Addr = JoinHostPort (Host cfg) (itoa (Port cfg)), mc_DBName = Database cfg,
      mc_ParseTime = True, mc_TLSConfig = mysqlTLSConfig (SSLMode cfg)\<rparr>"

text \<open>\<open>url.URL.String\<close> of the URL the code builds, and \<open>Userinfo.String\<close>.\<close>

definition userinfo :: "db_config \<Rightarrow> string option" where
  "userinfo cfg =
     (if db_Username cfg \<noteq> '''' then
        if db_Password cfg \<noteq> ''''
        then Some (url_escape keep_user (db_Username cfg) @ '':'' @ url_escape keep_user (db_Password cfg))
        else Some (url_escape keep_user (db_Username cfg))
      else None)"

definition postgresDSN :: "db_config \<Rightarrow> string" where
  "postgresDSN cfg =
     ''postgres://'' @ (case userinfo cfg of Some u \<Rightarrow> u @ ''@'' | None \<Rightarrow> '''')
     @ url_escape keep_host (JoinHostPort (Host cfg) (itoa (Port cfg)))
     @ url_escape keep_path (''/'' @ Database cfg)
     @ (if SSLMode cfg \<noteq> '''' then ''?sslmode='' @ query_escape (SSLMode cfg) else '''')"

definition dsn :: "(mysql_config \<Rightarrow> string) \<Rightarrow> driverSpec \<Rightarrow> db_config \<Rightarrow> string" where
  "dsn formatDSN d cfg =
     (if DSN cfg \<noteq> '''' then DSN cfg
      else (case ds_dialect d of
              dialectMySQL \<Rightarrow> mysqlDSN formatDSN cfg
            | dialectPostgres \<Rightarrow> postgresDSN cfg
            | dialectGeneric \<Rightarrow> ''''))"

record conn_info =
  ci_host :: string
  ci_port :: int
  ci_database :: string

definition connInfo ::
  "(string \<Rightarrow> mysql_config option) \<Rightarrow> (string \<Rightarrow> conn_info option) \<Rightarrow> driverSpec \<Rightarrow> db_config \<Rightarrow> conn_info" where
  "connInfo mysqlParse pgxParse d cfg =
     (let info = \<lparr>ci_host = Host cfg, ci_port = Port cfg, ci_database = Database cfg\<rparr> in
      if DSN cfg = '''' then info
      else (case ds_dialect d of
              dialectMySQL \<Rightarrow>
                (case mysqlParse (DSN cfg) of
                   None \<Rightarrow> info
                 | Some mc \<Rightarrow>
                     (let info1 = (if mc_DBName mc \<noteq> '''' then info\<lparr>ci_database := mc_DBName mc\<rparr> else info) in
                      if mc_Net mc \<in> {''tcp'', ''tcp4'', ''tcp6''} then
                        (case SplitHostPort (mc_Addr mc) of
                           Some (host, port) \<Rightarrow>
                             (let info2 = info1\<lparr>ci_host := host\<rparr> in
                              let (p, ok) = atoi port in if ok then info2\<lparr>ci_port := p\<rparr> else info2)
                         | None \<Rightarrow> if mc_Addr mc \<noteq> '''' then info1\<lparr>ci_host := mc_Addr mc\<rparr> else info1)
                      else info1))
            | dialectPostgres \<Rightarrow> (case pgxParse (DSN cfg) of None \<Rightarrow> info | Some pc \<Rightarrow> pc)
            | dialectGeneric \<Rightarrow> info))"

subsection \<open>Connect\<close>

datatype pool_call = SetMaxOpenConns int | SetMaxIdleConns int | SetConnMaxLifetime duration | SetConnMaxIdleTime duration

definition applyPool :: "db_config \<Rightarrow> pool_call list" where
  "applyPool cfg =
     (if MaxOpenConns cfg > 0 then [SetMaxOpenConns (MaxOpenConns cfg)] else [])
     @ (if MaxIdleConns cfg > 0 then [SetMaxIdleConns (MaxIdleConns cfg)] else [])
     @ (if ConnMaxLifetime cfg > 0 then [SetConnMaxLifetime (ConnMaxLifetime cfg)] else [])
     @ (if ConnMaxIdleTime cfg > 0 then [SetConnMaxIdleTime (ConnMaxIdleTime cfg)] else [])"

record db_meta =
  dm_systemName :: string
  dm_namespace :: string
  dm_serverAddr :: string
  dm_serverPort :: int

record 'db dbConn =
  dc_DB :: 'db
  dc_driver :: driverSpec
  dc_meta :: db_meta

text \<open>What Connect calls: the library formatting, the two drivers and sqlx.\<close>

record 'db db_lib =
  lb_uni :: "string \<Rightarrow> string"
  lb_quote :: "string \<Rightarrow> string"
  lb_dur :: "duration \<Rightarrow> string"
  lb_formatDSN :: "mysql_config \<Rightarrow> string"
  lb_mysqlParse :: "string \<Rightarrow> mysql_config option"
  lb_pgxParse :: "string \<Rightarrow> conn_info option"
  lb_sqlxBind :: "string \<Rightarrow> sqlx_bind"
  lb_connect :: "string \<Rightarrow> string \<Rightarrow> gerr + 'db"

definition db_Connect :: "'db db_lib \<Rightarrow> db_config \<Rightarrow> gerr + ('db dbConn \<times> pool_call list)" where
  "db_Connect L cfg0 =
     (let cfg = db_SetDefaults (lb_uni L) cfg0 in
      case db_Validate (lb_uni L) (lb_quote L) (lb_dur L) cfg of
        Some e \<Rightarrow> Inl e
      | None \<Rightarrow>
          (let spec = (case driverFor (lb_uni L) (Driver cfg) of
                         Some s \<Rightarrow> s | None \<Rightarrow> genericDriver (lb_sqlxBind L) (Driver cfg));
               source = dsn (lb_formatDSN L) spec cfg
           in if source = '''' then Inl (errors_New (''db: driver '' @ lb_quote L (Driver cfg) @ '' requires Config.DSN''))
              else (case lb_connect L (ds_name spec) source of
                      Inl e \<Rightarrow> Inl (errorf (''db: connect '' @ ds_systemName spec @ '': '' @ error_string e) [e])
                    | Inr raw \<Rightarrow>
                        (let info = connInfo (lb_mysqlParse L) (lb_pgxParse L) spec cfg in
                         Inr (\<lparr>dc_DB = raw, dc_driver = spec,
                               dc_meta = \<lparr>dm_systemName = ds_systemName spec, dm_namespace = ci_database info,
                                          dm_serverAddr = ci_host info, dm_serverPort = ci_port info\<rparr>\<rparr>,
                              applyPool cfg)))))"

subsection \<open>Executing a statement\<close>

definition ErrNoRows :: gerr where
  "ErrNoRows = sentinel_error ''sql.ErrNoRows'' ''sql: no rows in result set''"

definition errorInfo :: "gerr \<Rightarrow> string \<times> string" where
  "errorInfo err =
     (case errors_As mysql_number err of
        Some n \<Rightarrow> (utoa n, utoa n)
      | None \<Rightarrow>
          (case errors_As pg_code err of
             Some c \<Rightarrow> (c, c)
           | None \<Rightarrow>
               if errors_Is err context_DeadlineExceeded then ('''', ''timeout'')
               else if errors_Is err context_Canceled then ('''', ''canceled'')
               else (case errors_As net_timeout err of
                       Some True \<Rightarrow> ('''', ''timeout'')
                     | _ \<Rightarrow> ('''', ''_OTHER''))))"

definition sqlVerbs :: "string list" where
  "sqlVerbs = [''SELECT'', ''INSERT'', ''UPDATE'', ''DELETE'', ''WITH'', ''REPLACE'', ''MERGE'', ''CALL'',
     ''CREATE'', ''ALTER'', ''DROP'', ''TRUNCATE'', ''SET'', ''EXPLAIN'', ''SHOW'', ''DESCRIBE'', ''VACUUM'', ''ANALYZE'']"

text \<open>
  The regular expression \<open>sqlOpRE\<close>, by the order in which its alternatives are tried.
  Case folding also takes U+017F for S. A match yields the verb in upper case.
\<close>

fun ci_strip :: "string \<Rightarrow> string \<Rightarrow> string option" where
  "ci_strip [] s = Some s"
| "ci_strip (k # ks) [] = None"
| "ci_strip (k # ks) (c # cs) =
     (if ascii_upper c = k then ci_strip ks cs
      else if k = CHR ''S'' \<and> c = CHR 0xC5 \<and> cs \<noteq> [] \<and> hd cs = CHR 0xBF then ci_strip ks (tl cs)
      else None)"

definition word_byte :: "char \<Rightarrow> bool" where
  "word_byte c \<longleftrightarrow> c = CHR ''_'' \<or> byte_between CHR ''0'' CHR ''9'' c \<or> byte_between CHR ''a'' CHR ''z'' c
     \<or> byte_between CHR ''A'' CHR ''Z'' c"

definition verb_at :: "string \<Rightarrow> string option" where
  "verb_at s = first_some (\<lambda>v. case ci_strip v s of
       Some rest \<Rightarrow> if rest = [] \<or> \<not> word_byte (hd rest) then Some v else None
     | None \<Rightarrow> None) sqlVerbs"

definition re_space :: "char \<Rightarrow> bool" where
  "re_space c \<longleftrightarrow> c \<in> {CHR 0x09, CHR 0x0A, CHR 0x0C, CHR 0x0D, CHR '' ''}"

text \<open>The rests after a block comment that starts at the front, shortest comment first.\<close>

fun comment_rests :: "string \<Rightarrow> string list" where
  "comment_rests [] = []"
| "comment_rests (c # cs) =
     (if c = CHR ''*'' \<and> cs \<noteq> [] \<and> hd cs = CHR ''/'' then [tl cs] else []) @ comment_rests cs"

definition prefix_rests :: "string \<Rightarrow> string list" where
  "prefix_rests s =
     (let n = length (takeWhile re_space s) in map (\<lambda>k. drop (n - k) s) [0..<n])
     @ (if prefix [CHR ''/'', CHR ''*''] s then comment_rests (drop 2 s) else [])
     @ (if prefix ''--'' s \<and> newline \<in> set s then [tl (dropWhile (\<lambda>c. c \<noteq> newline) s)] else [])
     @ (if prefix ''('' s then [tl s] else [])"

lemma comment_rests_length: "r \<in> set (comment_rests s) \<Longrightarrow> length r < length s"
  by (induction s) (auto split: if_splits simp: less_Suc_eq)

lemma prefix_rests_length: "r \<in> set (prefix_rests s) \<Longrightarrow> length r < length s"
proof -
  assume r: "r \<in> set (prefix_rests s)"
  have w: "length (takeWhile re_space s) \<le> length s" by (rule length_takeWhile_le)
  have d: "length (dropWhile (\<lambda>c. c \<noteq> newline) s) \<le> length s" by (rule length_dropWhile_le)
  from r w show ?thesis
    using comment_rests_length [of r "drop 2 s"] d
    by (cases s) (auto simp: prefix_rests_def Let_def split: if_splits)
qed

function op_match :: "string \<Rightarrow> string option" where
  "op_match s =
     (case first_some (\<lambda>r. if length r < length s then op_match r else None) (prefix_rests s) of
        Some v \<Rightarrow> Some v
      | None \<Rightarrow> verb_at s)"
  by pat_completeness auto
termination by (relation "measure length") auto

declare op_match.simps [simp del]

definition operationName :: "string \<Rightarrow> string \<Rightarrow> string" where
  "operationName op query =
     (case op_match query of Some v \<Rightarrow> v | None \<Rightarrow> map ascii_upper op)"

definition db_attrs :: "db_meta \<Rightarrow> string \<Rightarrow> string \<Rightarrow> string \<Rightarrow> attrs" where
  "db_attrs m opName code errType =
     opt_attr (errType \<noteq> '''') ''error.type'' (VStr errType)
       (opt_attr (code \<noteq> '''') ''db.response.status_code'' (VStr code)
         (opt_attr (dm_serverPort m > 0) ''server.port'' (VInt (dm_serverPort m))
           (opt_attr (dm_serverAddr m \<noteq> '''') ''server.address'' (VStr (dm_serverAddr m))
             (opt_attr (dm_namespace m \<noteq> '''') ''db.namespace'' (VStr (dm_namespace m))
               (opt_attr (dm_systemName m \<noteq> '''') ''db.system.name'' (VStr (dm_systemName m))
                 [''db.operation.name'' \<mapsto> VStr opName])))))"

text \<open>\<open>err\<close> is what the statement's execution returns.\<close>

definition instrument :: "db_meta \<Rightarrow> string \<Rightarrow> string \<Rightarrow> error \<Rightarrow> error \<times> event list" where
  "instrument m op query err =
     (let opName = operationName op query;
          failed = (case err of Some e \<Rightarrow> \<not> errors_Is e ErrNoRows | None \<Rightarrow> False);
          (code, errType) = (if failed then errorInfo (the err) else ('''', ''''));
          a = db_attrs m opName code errType
      in (err, [SpanStart opName (db_attrs m opName '''' '''')]
            @ (if failed then [SpanStatusError (error_string (the err))] else [])
            @ [SpanAttrs (a(''db.query.text'' \<mapsto> VStr query)), SpanEnd,
               MetricRecord ''db.client.operation.duration'' a]))"

definition execute ::
  "(string \<Rightarrow> 'arg \<Rightarrow> gerr + (string \<times> goval list)) \<Rightarrow> driverSpec \<Rightarrow> db_meta \<Rightarrow> string \<Rightarrow> string \<Rightarrow> 'arg option
   \<Rightarrow> (string \<Rightarrow> goval list \<Rightarrow> error) \<Rightarrow> error \<times> event list" where
  "execute named d m op query arg fn =
     (case bindQuery named d query arg of
        Inl e \<Rightarrow> (Some e, [])
      | Inr (bound, args) \<Rightarrow> instrument m op bound (fn bound args))"

text \<open>The three query methods of a connection.\<close>

definition NamedSelectContext where "NamedSelectContext named conn query arg select =
  execute named (dc_driver conn) (dc_meta conn) ''select'' query arg select"
definition NamedGetContext where "NamedGetContext named conn query arg get =
  execute named (dc_driver conn) (dc_meta conn) ''get'' query arg get"
definition NamedExecContext where "NamedExecContext named conn query arg exec =
  execute named (dc_driver conn) (dc_meta conn) ''exec'' query arg exec"

subsection \<open>Transactions\<close>

text \<open>
  A transaction keeps the driver and the telemetry settings of its connection and runs every statement on its own handle:
  \<open>select\<close>, \<open>get\<close>, \<open>exec\<close>, \<open>commit\<close> and \<open>rollback\<close> are the methods of \<open>sqlx.Tx\<close>, taking the handle first.
\<close>

record 'tx dbTx =
  tx_tx :: 'tx
  tx_driver :: driverSpec
  tx_meta :: db_meta

definition db_Begin :: "('db \<Rightarrow> gerr + 'tx) \<Rightarrow> 'db dbConn \<Rightarrow> gerr + 'tx dbTx" where
  "db_Begin beginTxx d =
     (case beginTxx (dc_DB d) of
        Inl err \<Rightarrow> Inl err
      | Inr tx \<Rightarrow> Inr \<lparr>tx_tx = tx, tx_driver = dc_driver d, tx_meta = dc_meta d\<rparr>)"

definition tx_NamedSelectContext where "tx_NamedSelectContext named t query arg select =
  execute named (tx_driver t) (tx_meta t) ''select'' query arg (select (tx_tx t))"
definition tx_NamedGetContext where "tx_NamedGetContext named t query arg get =
  execute named (tx_driver t) (tx_meta t) ''get'' query arg (get (tx_tx t))"
definition tx_NamedExecContext where "tx_NamedExecContext named t query arg exec =
  execute named (tx_driver t) (tx_meta t) ''exec'' query arg (exec (tx_tx t))"

definition tx_Commit :: "('tx \<Rightarrow> error) \<Rightarrow> 'tx dbTx \<Rightarrow> error" where
  "tx_Commit commit t = commit (tx_tx t)"

definition tx_Rollback :: "('tx \<Rightarrow> error) \<Rightarrow> 'tx dbTx \<Rightarrow> error" where
  "tx_Rollback rollback t = rollback (tx_tx t)"

definition db_Close :: "('db \<Rightarrow> error) \<Rightarrow> 'db dbConn \<Rightarrow> error" where
  "db_Close close d = close (dc_DB d)"

subsection \<open>Properties\<close>

lemma first_some_SomeD: "first_some f xs = Some y \<Longrightarrow> \<exists>x \<in> set xs. f x = Some y"
  by (induction xs) (auto split: option.splits)

lemma verb_at_in: "verb_at s = Some v \<Longrightarrow> v \<in> set sqlVerbs"
  unfolding verb_at_def by (drule first_some_SomeD) (auto split: option.splits if_splits)

lemma op_match_in: "op_match s = Some v \<Longrightarrow> v \<in> set sqlVerbs"
proof (induction s rule: op_match.induct)
  case (1 s)
  show ?case
  proof (cases "first_some (\<lambda>r. if length r < length s then op_match r else None) (prefix_rests s)")
    case None
    then show ?thesis using 1(2) verb_at_in by (simp add: op_match.simps [of s])
  next
    case (Some v')
    then obtain r where "r \<in> set (prefix_rests s)" "length r < length s" "op_match r = Some v'"
      by (auto dest!: first_some_SomeD split: if_splits)
    with 1 Some show ?thesis by (simp add: op_match.simps [of s])
  qed
qed

text \<open>
  The operation name of a span or metric is one of the eighteen SQL verbs or the upper
  case of the caller's operation, whatever the query text is: query text cannot grow the
  cardinality of the metric.
\<close>

theorem operationName_bounded: "operationName op query \<in> set sqlVerbs \<union> {map ascii_upper op}"
  using op_match_in by (auto simp: operationName_def split: option.split)

lemma opt_attr_apply: "opt_attr b k v a x = (if b \<and> x = k then Some v else a x)"
  by (simp add: opt_attr_def)

lemma db_attrs_keys:
  "db_attrs m opName code errType ''db.query.text'' = None"
  "db_attrs m opName code errType ''error.type'' = None \<longleftrightarrow> errType = ''''"
  by (simp_all add: db_attrs_def opt_attr_apply)

lemma instrument_events:
  obtains a where "instrument m op query err = (err, SpanStart (operationName op query) (db_attrs m (operationName op query) '''' '''')
      # (if \<exists>e. err = Some e \<and> \<not> errors_Is e ErrNoRows then [SpanStatusError (error_string (the err))] else [])
      @ [SpanAttrs (a(''db.query.text'' \<mapsto> VStr query)), SpanEnd, MetricRecord ''db.client.operation.duration'' a])"
    "a ''db.query.text'' = None"
    "a ''error.type'' \<noteq> None \<longleftrightarrow> (\<exists>e. err = Some e \<and> \<not> errors_Is e ErrNoRows \<and> snd (errorInfo e) \<noteq> '''')"
proof (cases err)
  case None
  then show ?thesis
    by (intro that [of "db_attrs m (operationName op query) '''' ''''"]) (simp_all add: instrument_def Let_def db_attrs_keys)
next
  case (Some e)
  then show ?thesis
    by (intro that [of "if errors_Is e ErrNoRows then db_attrs m (operationName op query) '''' ''''
            else db_attrs m (operationName op query) (fst (errorInfo e)) (snd (errorInfo e))"])
      (simp_all add: instrument_def Let_def db_attrs_keys case_prod_beta del: not_None_eq)
qed

text \<open>
  Executing a statement returns the error of binding or else that of the database,
  unchanged. A binding failure emits nothing. Otherwise exactly one span is opened and
  ended and one duration recorded; the metric has an \<open>error.type\<close> exactly when the
  database failed with something other than \<open>sql.ErrNoRows\<close> that \<open>errorInfo\<close> names
  (all but a PostgreSQL error without a code), and never the query text.
\<close>

theorem execute_telemetry:
  "(case bindQuery named d query arg of
      Inl e \<Rightarrow> execute named d m op query arg fn = (Some e, [])
    | Inr (bound, args) \<Rightarrow>
        (case execute named d m op query arg fn of (err, evs) \<Rightarrow>
           err = fn bound args \<and> spans_opened evs = 1 \<and> spans_ended evs = 1
           \<and> recorded ''db.client.operation.duration'' evs = 1
           \<and> (\<exists>a. MetricRecord ''db.client.operation.duration'' a \<in> set evs
                \<and> a ''db.query.text'' = None
                \<and> (a ''error.type'' \<noteq> None \<longleftrightarrow> (\<exists>e. err = Some e \<and> \<not> errors_Is e ErrNoRows \<and> snd (errorInfo e) \<noteq> '''')))))"
proof (cases "bindQuery named d query arg")
  case (Inr r)
  obtain bound args where r: "r = (bound, args)" by (cases r)
  show ?thesis
    by (cases rule: instrument_events [of m op bound "fn bound args"]) (use Inr r in \<open>auto simp: execute_def\<close>)
qed (simp add: execute_def)

text \<open>
  A transaction that \<open>Begin\<close> opened binds, runs and reports a statement as its connection does, on its own handle.
\<close>

theorem tx_like_conn:
  assumes "db_Begin beginTxx conn = Inr t"
  shows "beginTxx (dc_DB conn) = Inr (tx_tx t)
    \<and> tx_NamedSelectContext named t query arg f = NamedSelectContext named conn query arg (f (tx_tx t))
    \<and> tx_NamedGetContext named t query arg f = NamedGetContext named conn query arg (f (tx_tx t))
    \<and> tx_NamedExecContext named t query arg f = NamedExecContext named conn query arg (f (tx_tx t))"
  using assms
  by (auto simp: db_Begin_def tx_NamedSelectContext_def tx_NamedGetContext_def tx_NamedExecContext_def
      NamedSelectContext_def NamedGetContext_def NamedExecContext_def split: sum.splits)

text \<open>
  Connect hands the pool only sane settings: whenever it returns a connection it has
  set all four limits, each positive, with no more idle than open connections.
\<close>

theorem db_Connect_pool:
  assumes "db_Connect L cfg = Inr (conn, calls)"
  shows "\<exists>mo mi lt it. calls = [SetMaxOpenConns mo, SetMaxIdleConns mi, SetConnMaxLifetime lt, SetConnMaxIdleTime it]
    \<and> 0 < mi \<and> mi \<le> mo \<and> 0 < lt \<and> 0 < it"
proof -
  let ?c = "db_SetDefaults (lb_uni L) cfg"
  have nz: "MaxOpenConns ?c \<noteq> 0" "MaxIdleConns ?c \<noteq> 0" "ConnMaxLifetime ?c \<noteq> 0" "ConnMaxIdleTime ?c \<noteq> 0"
    by (simp_all add: db_SetDefaults_def Let_def db_defaults split: option.split)
  have "db_Validate (lb_uni L) (lb_quote L) (lb_dur L) ?c = nil"
    using assms by (simp add: db_Connect_def Let_def split: option.splits)
  then have "\<not> MaxOpenConns ?c < 0" "\<not> MaxIdleConns ?c < 0" "\<not> ConnMaxLifetime ?c < 0" "\<not> ConnMaxIdleTime ?c < 0"
    "\<not> (MaxOpenConns ?c > 0 \<and> MaxIdleConns ?c > MaxOpenConns ?c)"
    unfolding db_Validate_def errors_Join_nil_iff append_is_Nil_conv by (auto simp: if_Nil_simps)
  moreover have "calls = applyPool ?c"
    using assms by (simp add: db_Connect_def Let_def split: option.splits if_splits sum.splits)
  ultimately show ?thesis using nz by (simp add: applyPool_def)
qed

definition demo_config :: db_config where
  "demo_config = \<lparr>Driver = ''postgres'', DSN = '''', Host = ''h'', Port = 0, Database = ''d'', db_Username = ''u:1'',
     db_Password = ''p@ss'', SSLMode = '''', MaxOpenConns = 0, MaxIdleConns = 0, ConnMaxLifetime = 0, ConnMaxIdleTime = 0\<rparr>"

definition demo_lib :: "nat db_lib" where
  "demo_lib = \<lparr>lb_uni = id, lb_quote = id, lb_dur = (\<lambda>_. ''''), lb_formatDSN = (\<lambda>_. ''x''), lb_mysqlParse = (\<lambda>_. None),
     lb_pgxParse = (\<lambda>_. None), lb_sqlxBind = (\<lambda>_. SqlxUnknown), lb_connect = (\<lambda>_ _. Inr 7)\<rparr>"

theorem db_Connect_pool_witness:
  "\<exists>conn calls. db_Connect demo_lib demo_config = Inr (conn, calls) \<and> length calls = 4"
proof -
  have t: "trim_space ''postgres'' = ''postgres''" "trim_space '''' = ''''"
    by (simp_all add: trim_space_def trim_right_def trim_left_def strip_seqs.simps space_seqs_def)
  have l: "to_lower id ''postgres'' = ''postgres''" "to_lower id '''' = ''''"
    by (simp_all add: to_lower_def high_byte_def ascii_lower_def byte_between_def)
  have "isl (db_Connect demo_lib demo_config) = False"
    by (simp add: db_Connect_def demo_lib_def demo_config_def db_SetDefaults_def db_Validate_def driverFor_def
        t l postgresDriver_def dsn_def postgresDSN_def db_defaults errors_Join_def Let_def)
  then obtain conn calls where "db_Connect demo_lib demo_config = Inr (conn, calls)"
    by (metis isl_def obj_sumE surj_pair)
  with db_Connect_pool [OF this] show ?thesis by auto
qed



end
