(* ===== verification/Cron.thy ===== *)
theory Cron
  imports Telemetry Lifecycle "HOL-Library.Multiset"
begin

text \<open>
  Packages \<open>cron\<close> and \<open>cron/engine\<close>: the job model, the engine's configuration and
  registrations, the middleware chain of one run with its skips, lock and panics, and the
  concurrency of runs with the overlap guard and Stop. The schedule parser, the scheduler,
  the toggler, the locker and the handlers are parameters.
\<close>

subsection \<open>Errors\<close>

definition cron_err :: "string \<Rightarrow> string \<Rightarrow> gerr" where
  "cron_err name txt = sentinel_error (''cron.'' @ name) (''cron: '' @ txt)"

definition ErrLockHeld :: gerr where "ErrLockHeld = cron_err ''ErrLockHeld'' ''lock already held''"
definition ErrJobDisabled :: gerr where "ErrJobDisabled = cron_err ''ErrJobDisabled'' ''job is disabled''"
definition ErrJobNotFound :: gerr where "ErrJobNotFound = cron_err ''ErrJobNotFound'' ''job not found''"
definition ErrJobAlreadyExists :: gerr where "ErrJobAlreadyExists = cron_err ''ErrJobAlreadyExists'' ''job already exists''"
definition ErrJobRunning :: gerr where "ErrJobRunning = cron_err ''ErrJobRunning'' ''job is already running''"
definition ErrEngineAlreadyStarted :: gerr where
  "ErrEngineAlreadyStarted = cron_err ''ErrEngineAlreadyStarted'' ''cannot register job after engine has started''"
definition ErrEngineStopped :: gerr where "ErrEngineStopped = cron_err ''ErrEngineStopped'' ''engine is stopped''"
definition ErrEmptyJobName :: gerr where "ErrEmptyJobName = cron_err ''ErrEmptyJobName'' ''job name must not be empty''"
definition ErrNilHandler :: gerr where "ErrNilHandler = cron_err ''ErrNilHandler'' ''handler must not be nil''"
definition ErrInvalidSchedule :: gerr where
  "ErrInvalidSchedule = cron_err ''ErrInvalidSchedule'' ''invalid schedule expression''"
definition errPanic :: gerr where "errPanic = sentinel_error ''engine.errPanic'' ''cron panic recovered''"

lemmas cron_errors = ErrLockHeld_def ErrJobDisabled_def ErrJobNotFound_def ErrJobAlreadyExists_def ErrJobRunning_def
  ErrEngineAlreadyStarted_def ErrEngineStopped_def ErrEmptyJobName_def ErrNilHandler_def ErrInvalidSchedule_def
  errPanic_def cron_err_def

subsection \<open>Configuration\<close>

record cron_config =
  GlobalTimeout :: duration
  ShutdownTimeout :: duration

definition DefaultGlobalTimeout :: duration where "DefaultGlobalTimeout = minute"
definition DefaultShutdownTimeout :: duration where "DefaultShutdownTimeout = 10 * second"
definition FixedLockTTLBuffer :: duration where "FixedLockTTLBuffer = 15 * second"

lemmas cron_consts = DefaultGlobalTimeout_def DefaultShutdownTimeout_def FixedLockTTLBuffer_def
  minute_def second_def millisecond_def

definition cron_SetDefaults :: "cron_config \<Rightarrow> cron_config" where
  "cron_SetDefaults c0 =
     (let c1 = (if GlobalTimeout c0 \<le> 0 then c0\<lparr>GlobalTimeout := DefaultGlobalTimeout\<rparr> else c0)
      in if ShutdownTimeout c1 \<le> 0 then c1\<lparr>ShutdownTimeout := DefaultShutdownTimeout\<rparr> else c1)"

definition cron_Validate :: "cron_config \<Rightarrow> error" where
  "cron_Validate c = errors_Join
     ((if GlobalTimeout c < 0 then [errors_New ''cron: global_timeout must not be negative''] else [])
      @ (if ShutdownTimeout c < 0 then [errors_New ''cron: shutdown_timeout must not be negative''] else []))"

subsection \<open>One run\<close>

text \<open>A call that returns or panics.\<close>

datatype 'a res = Val 'a | Pan anyval

text \<open>The context of a run, by what the chain puts in it and reads from it.\<close>

record cron_ctx =
  ctx_fence :: "string option"

definition WithFencingToken :: "cron_ctx \<Rightarrow> string \<Rightarrow> cron_ctx" where
  "WithFencingToken ctx token = ctx\<lparr>ctx_fence := Some token\<rparr>"

definition FencingTokenFromContext :: "cron_ctx option \<Rightarrow> string \<times> bool" where
  "FencingTokenFromContext ctx =
     (case ctx of None \<Rightarrow> ('''', False)
      | Some c \<Rightarrow> (case ctx_fence c of Some t \<Rightarrow> (t, True) | None \<Rightarrow> ('''', False)))"

record lock_token =
  FencingToken :: string
  Unlock :: "error res"

record job =
  job_Name :: string
  job_Schedule :: string
  job_Description :: string
  job_Timeout :: duration
  job_Handler :: "(cron_ctx \<Rightarrow> error res) option"

record cron_meta =
  cr_job :: job
  cr_trigger :: string
  cr_timeout :: duration
  cr_toggler :: "(string \<Rightarrow> (gerr + bool) res) option"
  cr_locker :: "(string \<Rightarrow> duration \<Rightarrow> (gerr + lock_token option) res) option"

text \<open>What a run does: telemetry, the lock calls, and the handler with the token it sees.\<close>

datatype cron_event = CTel event | LockCall string duration | UnlockCall | RunHandler "string option"

text \<open>What the layers of one run share: the in-flight set and the run info of the logger.\<close>

record cron_state =
  inFlight :: "string set"
  run_fence :: string

type_synonym cron_handler = "cron_ctx \<Rightarrow> cron_state \<Rightarrow> error res \<times> cron_event list \<times> cron_state"

definition skipReason :: "error \<Rightarrow> string option" where
  "skipReason err =
     (case err of None \<Rightarrow> None
      | Some e \<Rightarrow> if errors_Is e ErrJobDisabled then Some ''disabled''
                  else if errors_Is e ErrLockHeld then Some ''lock_held''
                  else if errors_Is e ErrJobRunning then Some ''running'' else None)"

definition isSkip :: "error \<Rightarrow> bool" where
  "isSkip err \<longleftrightarrow> skipReason err \<noteq> None"

definition errorType :: "gerr \<Rightarrow> string" where
  "errorType e =
     (if errors_Is e errPanic then ''panic''
      else case errors_As err_code e of
        Some c \<Rightarrow> itoa c
      | None \<Rightarrow>
          if errors_Is e context_DeadlineExceeded then ''timeout''
          else if errors_As net_timeout e = Some True then ''timeout''
          else if errors_Is e context_Canceled then ''canceled''
          else ''_OTHER'')"

definition cron_baseAttrs :: "cron_meta \<Rightarrow> error \<Rightarrow> attrs" where
  "cron_baseAttrs m err =
     (let a = [''cron.job.name'' \<mapsto> VStr (job_Name (cr_job m)), ''cron.job.trigger'' \<mapsto> VStr (cr_trigger m)] in
      case err of None \<Rightarrow> a | Some e \<Rightarrow> a(''error.type'' \<mapsto> VStr (errorType e)))"

definition panic_error :: "anyval \<Rightarrow> gerr" where
  "panic_error r = errorf (error_string errPanic @ '': '' @ sprint_v r) [errPanic]"

definition base_handler :: "(cron_ctx \<Rightarrow> error res) \<Rightarrow> cron_handler" where
  "base_handler f ctx st = (f ctx, [RunHandler (ctx_fence ctx)], st)"

definition cron_panicRecovery :: "cron_handler \<Rightarrow> cron_handler" where
  "cron_panicRecovery next ctx st =
     (case next ctx st of
        (Pan r, evs, st') \<Rightarrow> (Val (Some (panic_error r)), evs @ [CTel (Log LError ''cron panic recovered'')], st')
      | (Val err, evs, st') \<Rightarrow> (Val err, evs, st'))"

definition cron_tracerMW :: "cron_meta \<Rightarrow> cron_handler \<Rightarrow> cron_handler" where
  "cron_tracerMW m next ctx st =
     (let opening = CTel (SpanStart (''cron.'' @ job_Name (cr_job m)) (cron_baseAttrs m nil)) in
      case next ctx st of
        (Pan r, evs, st') \<Rightarrow> (Pan r, opening # evs @ [CTel SpanEnd], st')
      | (Val err, evs, st') \<Rightarrow>
          (Val err,
           opening # evs
           @ (case skipReason err of
                Some reason \<Rightarrow> [CTel (SpanEvent ''cron.job.skipped'' [''cron.job.skip_reason'' \<mapsto> VStr reason])]
              | None \<Rightarrow> (case err of None \<Rightarrow> []
                         | Some e \<Rightarrow> [CTel (SpanStatusError (error_string e)), CTel (SpanAttrs (cron_baseAttrs m err))]))
           @ [CTel SpanEnd], st'))"

definition overlapMW :: "cron_meta \<Rightarrow> cron_handler \<Rightarrow> cron_handler" where
  "overlapMW m next ctx st =
     (let name = job_Name (cr_job m) in
      if name \<in> inFlight st then (Val (Some ErrJobRunning), [], st)
      else (case next ctx (st\<lparr>inFlight := insert name (inFlight st)\<rparr>) of
              (r, evs, st') \<Rightarrow> (r, evs, st'\<lparr>inFlight := inFlight st' - {name}\<rparr>)))"

definition togglerMW :: "cron_meta \<Rightarrow> cron_handler \<Rightarrow> cron_handler" where
  "togglerMW m next ctx st =
     (case cr_toggler m of
        None \<Rightarrow> next ctx st
      | Some isEnabled \<Rightarrow>
          (case isEnabled (job_Name (cr_job m)) of
             Pan r \<Rightarrow> (Pan r, [], st)
           | Val (Inl e) \<Rightarrow>
               (case next ctx st of
                  (r, evs, st') \<Rightarrow>
                    (r, CTel (SpanEvent ''cron.toggler.error'' [''error.message'' \<mapsto> VStr (error_string e)]) # evs, st'))
           | Val (Inr enabled) \<Rightarrow> if enabled then next ctx st else (Val (Some ErrJobDisabled), [], st)))"

definition unlock_events :: "error \<Rightarrow> cron_event list" where
  "unlock_events uerr = UnlockCall # (case uerr of None \<Rightarrow> []
     | Some e \<Rightarrow> [CTel (SpanEvent ''cron.unlock.error'' [''error.message'' \<mapsto> VStr (error_string e)])])"

text \<open>\<open>quoteQ\<close> is the \<open>%q\<close> form of the job name; the sum of the TTL wraps as int64 does.\<close>

definition lockTTL :: "duration \<Rightarrow> duration" where
  "lockTTL timeout = int64_wrap (timeout + FixedLockTTLBuffer)"

definition lockerMW :: "(string \<Rightarrow> string) \<Rightarrow> cron_meta \<Rightarrow> cron_handler \<Rightarrow> cron_handler" where
  "lockerMW quoteQ m next ctx st =
     (case cr_locker m of
        None \<Rightarrow> next ctx st
      | Some lock \<Rightarrow>
          (let lockKey = ''cron:lock:'' @ job_Name (cr_job m); ttl = lockTTL (cr_timeout m);
               lockEv = LockCall lockKey ttl
           in case lock lockKey ttl of
                Pan r \<Rightarrow> (Pan r, [lockEv], st)
              | Val (Inl lockErr) \<Rightarrow>
                  (if errors_Is lockErr ErrLockHeld then (Val (Some ErrLockHeld), [lockEv], st)
                   else (Val (Some (errorf (''cron: lock job '' @ quoteQ (job_Name (cr_job m)) @ '': ''
                           @ error_string lockErr) [lockErr])), [lockEv], st))
              | Val (Inr None) \<Rightarrow>
                  (Val (Some (errors_New (''cron: lock job '' @ quoteQ (job_Name (cr_job m))
                     @ '': locker returned no token''))), [lockEv], st)
              | Val (Inr (Some token)) \<Rightarrow>
                  (let fence = FencingToken token in
                   case next (WithFencingToken ctx fence) (st\<lparr>run_fence := fence\<rparr>) of
                     (r, evs, st') \<Rightarrow>
                       (let before = lockEv # CTel (SpanAttrs [''cron.job.fencing_token'' \<mapsto> VStr fence]) # evs in
                        case Unlock token of
                          Val uerr \<Rightarrow> (r, before @ unlock_events uerr, st')
                        | Pan p \<Rightarrow> (Pan p, before @ [UnlockCall], st')))))"

definition cron_metricsMW :: "cron_meta \<Rightarrow> cron_handler \<Rightarrow> cron_handler" where
  "cron_metricsMW m next ctx st =
     (case next ctx st of
        (Pan r, evs, st') \<Rightarrow> (Pan r, evs, st')
      | (Val err, evs, st') \<Rightarrow>
          (Val err, if isSkip err then evs
             else evs @ [CTel (MetricRecord ''cron.job.duration'' (cron_baseAttrs m err))], st'))"

definition loggerMW :: "cron_meta \<Rightarrow> cron_handler \<Rightarrow> cron_handler" where
  "loggerMW m next ctx st =
     (case next ctx (st\<lparr>run_fence := ''''\<rparr>) of
        (Pan r, evs, st') \<Rightarrow> (Pan r, CTel (Log LInfo ''cron job started'') # evs, st')
      | (Val err, evs, st') \<Rightarrow>
          (Val err, CTel (Log LInfo ''cron job started'') # evs
             @ [CTel (if err = nil then Log LInfo ''cron job completed''
                      else if isSkip err then Log LInfo ''cron job skipped''
                      else Log LError ''cron job failed'')], st'))"

definition buildChain :: "(string \<Rightarrow> string) \<Rightarrow> cron_meta \<Rightarrow> (cron_ctx \<Rightarrow> error res) \<Rightarrow> cron_handler" where
  "buildChain quoteQ m handler =
     cron_tracerMW m (loggerMW m (overlapMW m (togglerMW m (cron_metricsMW m
       (lockerMW quoteQ m (cron_panicRecovery (base_handler handler)))))))"

subsection \<open>The engine\<close>

record engine =
  eng_cfg :: cron_config
  eng_jobs :: "string \<rightharpoonup> job"
  eng_running :: bool
  eng_stopping :: bool
  eng_state :: cron_state
  eng_toggler :: "(string \<Rightarrow> (gerr + bool) res) option"
  eng_locker :: "(string \<Rightarrow> duration \<Rightarrow> (gerr + lock_token option) res) option"

definition cron_New ::
  "cron_config \<Rightarrow> (string \<Rightarrow> (gerr + bool) res) option
   \<Rightarrow> (string \<Rightarrow> duration \<Rightarrow> (gerr + lock_token option) res) option \<Rightarrow> gerr + engine" where
  "cron_New cfg0 toggler locker =
     (let cfg = cron_SetDefaults cfg0 in
      case cron_Validate cfg of
        Some e \<Rightarrow> Inl e
      | None \<Rightarrow> Inr \<lparr>eng_cfg = cfg, eng_jobs = Map.empty, eng_running = False, eng_stopping = False,
                     eng_state = \<lparr>inFlight = {}, run_fence = ''''\<rparr>,
                     eng_toggler = toggler, eng_locker = locker\<rparr>)"

text \<open>\<open>parse\<close> is the error of the schedule parser.\<close>

definition cron_Register :: "(string \<Rightarrow> error) \<Rightarrow> job \<Rightarrow> engine \<Rightarrow> engine \<times> error" where
  "cron_Register parse j e =
     (if eng_running e \<or> eng_stopping e then (e, Some ErrEngineAlreadyStarted)
      else if job_Name j = '''' then (e, Some ErrEmptyJobName)
      else if job_Handler j = None then (e, Some ErrNilHandler)
      else case parse (job_Schedule j) of
        Some err \<Rightarrow> (e, Some (errorf (error_string ErrInvalidSchedule @ '': '' @ error_string err) [ErrInvalidSchedule, err]))
      | None \<Rightarrow>
          if eng_jobs e (job_Name j) \<noteq> None then (e, Some ErrJobAlreadyExists)
          else (e\<lparr>eng_jobs := (eng_jobs e)(job_Name j \<mapsto> j)\<rparr>, nil))"

text \<open>
  \<open>runJob\<close> of a job taken from start to end; the deferred calls run on every path. A
  stopping engine refuses the run. Calling a nil handler panics, although Register admits
  none.
\<close>

definition run_timeout :: "engine \<Rightarrow> job \<Rightarrow> duration" where
  "run_timeout e j = (if job_Timeout j \<le> 0 then GlobalTimeout (eng_cfg e) else job_Timeout j)"

definition job_func :: "job \<Rightarrow> cron_ctx \<Rightarrow> error res" where
  "job_func j = (case job_Handler j of Some f \<Rightarrow> f
     | None \<Rightarrow> (\<lambda>_. Pan (VOther ''runtime error: invalid memory address or nil pointer dereference'')))"

definition run_meta :: "job \<Rightarrow> string \<Rightarrow> engine \<Rightarrow> cron_meta" where
  "run_meta j trigger e = \<lparr>cr_job = j, cr_trigger = trigger, cr_timeout = run_timeout e j,
     cr_toggler = eng_toggler e, cr_locker = eng_locker e\<rparr>"

definition runJob ::
  "(string \<Rightarrow> string) \<Rightarrow> cron_ctx \<Rightarrow> job \<Rightarrow> string \<Rightarrow> engine \<Rightarrow> engine \<times> error \<times> cron_event list" where
  "runJob quoteQ parentCtx j trigger e =
     (if eng_stopping e then (e, Some ErrEngineStopped, [])
      else case buildChain quoteQ (run_meta j trigger e) (job_func j) parentCtx (eng_state e) of
        (Val err, evs, st') \<Rightarrow> (e\<lparr>eng_state := st'\<rparr>, err, evs)
      | (Pan r, evs, st') \<Rightarrow>
          (e\<lparr>eng_state := st'\<rparr>, Some (panic_error r), evs @ [CTel (Log LError ''cron job panicked'')]))"

definition Trigger ::
  "(string \<Rightarrow> string) \<Rightarrow> cron_ctx \<Rightarrow> string \<Rightarrow> engine \<Rightarrow> engine \<times> error \<times> cron_event list" where
  "Trigger quoteQ ctx name e =
     (case eng_jobs e name of
        None \<Rightarrow> (e, Some ErrJobNotFound, [])
      | Some j \<Rightarrow> runJob quoteQ ctx j ''manual'' e)"

definition cron_Start :: "engine \<Rightarrow> engine" where
  "cron_Start e = (if eng_stopping e \<or> eng_running e then e else e\<lparr>eng_running := True\<rparr>)"

text \<open>
  The part of Stop under the lock, and its result: \<open>ctxErr\<close> is nil when the active runs
  finish before the context is done. The boolean says whether the context of the active
  runs was canceled while some were left.
\<close>

definition cron_Stop :: "error \<Rightarrow> engine \<Rightarrow> engine \<times> error \<times> bool" where
  "cron_Stop ctxErr e =
     (if eng_stopping e then (e, nil, False)
      else (e\<lparr>eng_stopping := True, eng_running := False\<rparr>, ctxErr, ctxErr \<noteq> nil))"

subsection \<open>What a run calls\<close>

fun is_call :: "cron_event \<Rightarrow> bool" where
  "is_call (CTel _) = False"
| "is_call _ = True"

definition calls :: "cron_event list \<Rightarrow> cron_event list" where
  "calls evs = filter is_call evs"

definition tel :: "cron_event list \<Rightarrow> event list" where
  "tel evs = List.map_filter (\<lambda>e. case e of CTel t \<Rightarrow> Some t | _ \<Rightarrow> None) evs"

lemma calls_simps [simp]:
  "calls [] = []" "calls (CTel t # evs) = calls evs" "calls (LockCall k d # evs) = LockCall k d # calls evs"
  "calls (UnlockCall # evs) = UnlockCall # calls evs" "calls (RunHandler f # evs) = RunHandler f # calls evs"
  "calls (evs @ evs') = calls evs @ calls evs'"
  by (simp_all add: calls_def)

lemma tel_simps [simp]:
  "tel [] = []" "tel (CTel t # evs) = t # tel evs" "tel (LockCall k d # evs) = tel evs"
  "tel (UnlockCall # evs) = tel evs" "tel (RunHandler f # evs) = tel evs" "tel (evs @ evs') = tel evs @ tel evs'"
  by (simp_all add: tel_def List.map_filter_def)

lemma calls_unlock [simp]: "calls (unlock_events u) = [UnlockCall]"
  by (simp add: unlock_events_def split: option.split)

lemma tel_unlock [simp]:
  "spans_opened (tel (unlock_events u)) = 0" "spans_ended (tel (unlock_events u)) = 0"
  "recorded n (tel (unlock_events u)) = 0"
  by (simp_all add: unlock_events_def split: option.split)

text \<open>The innermost layers: the handler under panic recovery.\<close>

lemma recovered_handler:
  obtains err log where "cron_panicRecovery (base_handler f) ctx st = (Val err, RunHandler (ctx_fence ctx) # log, st)"
    "calls log = []" "spans_opened (tel log) = 0" "spans_ended (tel log) = 0" "\<And>n. recorded n (tel log) = 0"
  by (cases "f ctx") (auto simp: cron_panicRecovery_def base_handler_def intro: that [of nil "[]"])

definition lock_calls :: "cron_meta \<Rightarrow> cron_ctx \<Rightarrow> cron_event list" where
  "lock_calls m ctx =
     (case cr_locker m of
        None \<Rightarrow> [RunHandler (ctx_fence ctx)]
      | Some lock \<Rightarrow>
          (let key = ''cron:lock:'' @ job_Name (cr_job m); ttl = lockTTL (cr_timeout m) in
           case lock key ttl of
             Val (Inr (Some token)) \<Rightarrow> [LockCall key ttl, RunHandler (Some (FencingToken token)), UnlockCall]
           | _ \<Rightarrow> [LockCall key ttl]))"

lemma lockerMW_run:
  assumes "lockerMW quoteQ m (cron_panicRecovery (base_handler f)) ctx st = (r, evs, st')"
  shows "calls evs = lock_calls m ctx \<and> inFlight st' = inFlight st
    \<and> spans_opened (tel evs) = 0 \<and> spans_ended (tel evs) = 0 \<and> recorded n (tel evs) = 0"
proof (cases "cr_locker m")
  case None
  then show ?thesis
    using assms by (cases rule: recovered_handler [of f ctx st]) (auto simp: lockerMW_def lock_calls_def)
next
  case (Some lock)
  let ?k = "''cron:lock:'' @ job_Name (cr_job m)" and ?t = "lockTTL (cr_timeout m)"
  show ?thesis
  proof (cases "\<exists>token. lock ?k ?t = Val (Inr (Some token))")
    case True
    then obtain token where token: "lock ?k ?t = Val (Inr (Some token))" by blast
    then show ?thesis
      using assms Some
      by (cases rule: recovered_handler [of f "WithFencingToken ctx (FencingToken token)" "st\<lparr>run_fence := FencingToken token\<rparr>"];
          cases "Unlock token")
        (auto simp: lockerMW_def lock_calls_def WithFencingToken_def Let_def)
  next
    case False
    then show ?thesis
      using assms Some by (auto simp: lockerMW_def lock_calls_def Let_def split: res.splits sum.splits option.splits if_splits)
  qed
qed

definition toggled_on :: "cron_meta \<Rightarrow> bool" where
  "toggled_on m =
     (case cr_toggler m of None \<Rightarrow> True
      | Some isEnabled \<Rightarrow> (case isEnabled (job_Name (cr_job m)) of
          Pan _ \<Rightarrow> False | Val (Inl _) \<Rightarrow> True | Val (Inr enabled) \<Rightarrow> enabled))"

definition samples :: "error res \<Rightarrow> nat" where
  "samples r = (case r of Val err \<Rightarrow> if isSkip err then 0 else 1 | Pan _ \<Rightarrow> 0)"

lemma skips [simp]: "isSkip (Some ErrJobRunning)" "isSkip (Some ErrJobDisabled)" "isSkip (Some ErrLockHeld)" "\<not> isSkip nil"
  by (simp_all add: isSkip_def skipReason_def cron_errors)

lemma metricsMW_run:
  assumes "cron_metricsMW m (lockerMW quoteQ m (cron_panicRecovery (base_handler f))) ctx st = (r, evs, st')"
  shows "calls evs = lock_calls m ctx \<and> inFlight st' = inFlight st
    \<and> spans_opened (tel evs) = 0 \<and> spans_ended (tel evs) = 0 \<and> recorded ''cron.job.duration'' (tel evs) = samples r"
proof -
  obtain r0 evs0 st0 where inner: "lockerMW quoteQ m (cron_panicRecovery (base_handler f)) ctx st = (r0, evs0, st0)"
    by (metis prod_cases3)
  from lockerMW_run [OF inner, of "''cron.job.duration''"] assms show ?thesis
    by (cases r0) (auto simp: cron_metricsMW_def inner samples_def)
qed

lemma togglerMW_run:
  assumes "togglerMW m (cron_metricsMW m (lockerMW quoteQ m (cron_panicRecovery (base_handler f)))) ctx st = (r, evs, st')"
  shows "calls evs = (if toggled_on m then lock_calls m ctx else []) \<and> inFlight st' = inFlight st
    \<and> spans_opened (tel evs) = 0 \<and> spans_ended (tel evs) = 0 \<and> recorded ''cron.job.duration'' (tel evs) = samples r"
proof -
  obtain r0 evs0 st0 where
    inner: "cron_metricsMW m (lockerMW quoteQ m (cron_panicRecovery (base_handler f))) ctx st = (r0, evs0, st0)"
    by (metis prod_cases3)
  from metricsMW_run [OF inner] assms show ?thesis
    by (auto simp: togglerMW_def inner toggled_on_def samples_def split: option.splits res.splits sum.splits if_splits)
qed

lemma overlapMW_run:
  assumes "overlapMW m (togglerMW m (cron_metricsMW m (lockerMW quoteQ m (cron_panicRecovery (base_handler f))))) ctx st
    = (r, evs, st')"
  shows "calls evs = (if job_Name (cr_job m) \<notin> inFlight st \<and> toggled_on m then lock_calls m ctx else [])
    \<and> inFlight st' = inFlight st
    \<and> spans_opened (tel evs) = 0 \<and> spans_ended (tel evs) = 0 \<and> recorded ''cron.job.duration'' (tel evs) = samples r"
proof (cases "job_Name (cr_job m) \<in> inFlight st")
  case True
  then show ?thesis using assms by (auto simp: overlapMW_def samples_def)
next
  case False
  obtain r0 evs0 st0 where inner: "togglerMW m (cron_metricsMW m (lockerMW quoteQ m (cron_panicRecovery (base_handler f)))) ctx
      (st\<lparr>inFlight := insert (job_Name (cr_job m)) (inFlight st)\<rparr>) = (r0, evs0, st0)"
    by (metis prod_cases3)
  from togglerMW_run [OF inner] assms False show ?thesis by (auto simp: overlapMW_def inner)
qed

lemma loggerMW_run:
  assumes "next ctx (st\<lparr>run_fence := ''''\<rparr>) = (r, evs0, st')"
  obtains log where "loggerMW m next ctx st = (r, CTel (Log LInfo ''cron job started'') # evs0 @ log, st')"
    "calls log = []" "spans_opened (tel log) = 0" "spans_ended (tel log) = 0" "\<And>n. recorded n (tel log) = 0"
proof (cases r)
  case (Val err)
  then show ?thesis
    using assms by (intro that [of "[CTel (if err = nil then Log LInfo ''cron job completed''
        else if isSkip err then Log LInfo ''cron job skipped'' else Log LError ''cron job failed'')]"])
      (simp_all add: loggerMW_def)
next
  case (Pan p)
  then show ?thesis using assms by (intro that [of "[]"]) (simp_all add: loggerMW_def)
qed

lemma tracerMW_run:
  assumes "next ctx st = (r, evs0, st')"
  obtains out where "cron_tracerMW m next ctx st =
      (r, CTel (SpanStart (''cron.'' @ job_Name (cr_job m)) (cron_baseAttrs m nil)) # evs0 @ out @ [CTel SpanEnd], st')"
    "calls out = []" "spans_opened (tel out) = 0" "spans_ended (tel out) = 0" "\<And>n. recorded n (tel out) = 0"
proof (cases r)
  case (Val err)
  then show ?thesis
    using assms by (intro that [of "case skipReason err of
        Some reason \<Rightarrow> [CTel (SpanEvent ''cron.job.skipped'' [''cron.job.skip_reason'' \<mapsto> VStr reason])]
      | None \<Rightarrow> (case err of None \<Rightarrow> []
                 | Some e \<Rightarrow> [CTel (SpanStatusError (error_string e)), CTel (SpanAttrs (cron_baseAttrs m err))])"])
      (simp_all add: cron_tracerMW_def Let_def split: option.split)
next
  case (Pan p)
  then show ?thesis using assms by (intro that [of "[]"]) (simp_all add: cron_tracerMW_def Let_def)
qed

lemma buildChain_run:
  assumes "buildChain quoteQ m f ctx st = (r, evs, st')"
  shows "calls evs = (if job_Name (cr_job m) \<notin> inFlight st \<and> toggled_on m then lock_calls m ctx else [])
    \<and> inFlight st' = inFlight st
    \<and> spans_opened (tel evs) = 1 \<and> spans_ended (tel evs) = 1 \<and> recorded ''cron.job.duration'' (tel evs) = samples r"
proof -
  define inner where "inner = overlapMW m (togglerMW m (cron_metricsMW m (lockerMW quoteQ m
      (cron_panicRecovery (base_handler f)))))"
  obtain r0 evs0 st0 where run: "inner ctx (st\<lparr>run_fence := ''''\<rparr>) = (r0, evs0, st0)"
    by (metis prod_cases3)
  note spec = overlapMW_run [OF run [unfolded inner_def]]
  obtain log where log: "loggerMW m inner ctx st = (r0, CTel (Log LInfo ''cron job started'') # evs0 @ log, st0)"
    "calls log = []" "spans_opened (tel log) = 0" "spans_ended (tel log) = 0" "\<And>n. recorded n (tel log) = 0"
    by (rule loggerMW_run [of inner ctx st, OF run]) blast
  obtain out where "cron_tracerMW m (loggerMW m inner) ctx st =
      (r0, CTel (SpanStart (''cron.'' @ job_Name (cr_job m)) (cron_baseAttrs m nil))
        # (CTel (Log LInfo ''cron job started'') # evs0 @ log) @ out @ [CTel SpanEnd], st0)"
    "calls out = []" "spans_opened (tel out) = 0" "spans_ended (tel out) = 0" "\<And>n. recorded n (tel out) = 0"
    by (rule tracerMW_run [of "loggerMW m inner" ctx st, OF log(1)]) blast
  with log spec assms show ?thesis by (simp add: buildChain_def inner_def)
qed

lemma runJob_chain:
  assumes "runJob quoteQ ctx j trigger e = (e', err, evs)" and "\<not> eng_stopping e"
  obtains r evs0 st' where "buildChain quoteQ (run_meta j trigger e) (job_func j) ctx (eng_state e) = (r, evs0, st')"
    "e' = e\<lparr>eng_state := st'\<rparr>" "calls evs = calls evs0" "spans_opened (tel evs) = spans_opened (tel evs0)"
    "spans_ended (tel evs) = spans_ended (tel evs0)" "\<And>n. recorded n (tel evs) = recorded n (tel evs0)"
    "err = (case r of Val er \<Rightarrow> er | Pan p \<Rightarrow> Some (panic_error p))"
proof -
  obtain r evs0 st' where inner: "buildChain quoteQ (run_meta j trigger e) (job_func j) ctx (eng_state e) = (r, evs0, st')"
    by (metis prod_cases3)
  show ?thesis
    using assms by (intro that [OF inner]) (cases r; auto simp: runJob_def inner)+
qed

lemma run_meta_simps [simp]:
  "cr_job (run_meta j trigger e) = j" "cr_timeout (run_meta j trigger e) = run_timeout e j"
  "cr_locker (run_meta j trigger e) = eng_locker e" "cr_toggler (run_meta j trigger e) = eng_toggler e"
  by (simp_all add: run_meta_def)

lemma lock_calls_run:
  "lock_calls (run_meta j trigger e) ctx =
     (case eng_locker e of
        None \<Rightarrow> [RunHandler (ctx_fence ctx)]
      | Some lock \<Rightarrow>
          (let key = ''cron:lock:'' @ job_Name j; ttl = lockTTL (run_timeout e j) in
           case lock key ttl of
             Val (Inr (Some token)) \<Rightarrow> [LockCall key ttl, RunHandler (Some (FencingToken token)), UnlockCall]
           | _ \<Rightarrow> [LockCall key ttl]))"
  by (cases "eng_locker e") (simp_all add: lock_calls_def)

text \<open>
  C6: the lock protocol of a run. A run of a job that is not running here and not disabled
  calls the handler exactly once, and when there is a locker only between a successful
  Lock, with the key of the job and the TTL of its timeout, and exactly one Unlock, with
  the lock's fencing token in the handler's context; a lock that is held, fails or panics
  stops the run before the handler and is not unlocked. Every other run calls neither.
  Whatever panics on the way, the engine's in-flight set is as before the run.
\<close>

theorem runJob_protocol:
  assumes "\<not> eng_stopping e"
  shows "case runJob quoteQ ctx j trigger e of (e', err, evs) \<Rightarrow>
    inFlight (eng_state e') = inFlight (eng_state e) \<and>
    calls evs =
      (if job_Name j \<in> inFlight (eng_state e) \<or> \<not> toggled_on (run_meta j trigger e) then []
       else case eng_locker e of
         None \<Rightarrow> [RunHandler (ctx_fence ctx)]
       | Some lock \<Rightarrow>
           (let key = ''cron:lock:'' @ job_Name j; ttl = lockTTL (run_timeout e j) in
            case lock key ttl of
              Val (Inr (Some token)) \<Rightarrow> [LockCall key ttl, RunHandler (Some (FencingToken token)), UnlockCall]
            | _ \<Rightarrow> [LockCall key ttl]))"
proof -
  obtain e' err evs where run: "runJob quoteQ ctx j trigger e = (e', err, evs)" by (metis prod_cases3)
  show ?thesis
    by (rule runJob_chain [OF run assms], drule buildChain_run) (simp add: run lock_calls_run)
qed

definition idle_engine :: engine where
  "idle_engine = \<lparr>eng_cfg = \<lparr>GlobalTimeout = minute, ShutdownTimeout = minute\<rparr>, eng_jobs = Map.empty, eng_running = True,
     eng_stopping = False, eng_state = \<lparr>inFlight = {}, run_fence = ''''\<rparr>, eng_toggler = None,
     eng_locker = Some (\<lambda>_ _. Val (Inr (Some \<lparr>FencingToken = ''7'', Unlock = Val nil\<rparr>)))\<rparr>"

definition demo_job :: "error res \<Rightarrow> job" where
  "demo_job r = \<lparr>job_Name = ''j'', job_Schedule = ''@hourly'', job_Description = '''', job_Timeout = 0, job_Handler = Some (\<lambda>_. r)\<rparr>"

theorem runJob_protocol_witness:
  "calls (snd (snd (runJob id \<lparr>ctx_fence = None\<rparr> (demo_job (Pan (VStr ''boom''))) ''manual'' idle_engine)))
     = [LockCall ''cron:lock:j'' (75 * second), RunHandler (Some ''7''), UnlockCall]"
proof -
  have "\<not> eng_stopping idle_engine" by (simp add: idle_engine_def)
  from runJob_protocol [OF this, where quoteQ = id and ctx = "\<lparr>ctx_fence = None\<rparr>"
      and j = "demo_job (Pan (VStr ''boom''))" and trigger = "''manual''"]
  show ?thesis
    by (auto simp: idle_engine_def demo_job_def toggled_on_def run_meta_def lockTTL_def run_timeout_def cron_consts Let_def)
qed

text \<open>
  Every admitted run opens and ends one span, whatever panics. It records one duration
  sample when the error it returns is not a skip, and no sample when it is; the only runs
  that return a failure without a sample are those in which the toggler or the locker
  itself panicked.
\<close>

theorem runJob_telemetry:
  assumes "\<not> eng_stopping e"
  shows "case runJob quoteQ ctx j trigger e of (e', err, evs) \<Rightarrow>
    spans_opened (tel evs) = 1 \<and> spans_ended (tel evs) = 1 \<and>
    recorded ''cron.job.duration'' (tel evs) \<le> 1 \<and>
    (isSkip err \<longrightarrow> recorded ''cron.job.duration'' (tel evs) = 0) \<and>
    (\<not> isSkip err \<and> recorded ''cron.job.duration'' (tel evs) = 0 \<longrightarrow> (\<exists>r. err = Some (panic_error r)))"
proof -
  obtain e' err evs where run: "runJob quoteQ ctx j trigger e = (e', err, evs)" by (metis prod_cases3)
  have np: "\<not> isSkip (Some (panic_error p))" for p
    by (simp add: isSkip_def skipReason_def panic_error_def cron_errors)
  show ?thesis
    by (rule runJob_chain [OF run assms], drule buildChain_run)
      (auto simp: run samples_def np split: res.splits)
qed

theorem runJob_telemetry_witness:
  "spans_ended (tel (snd (snd (runJob id \<lparr>ctx_fence = None\<rparr> (demo_job (Val nil)) ''manual'' idle_engine)))) = 1"
proof -
  have "\<not> eng_stopping idle_engine" by (simp add: idle_engine_def)
  from runJob_telemetry [OF this, where quoteQ = id and ctx = "\<lparr>ctx_fence = None\<rparr>"
      and j = "demo_job (Val nil)" and trigger = "''manual''"]
  show ?thesis by auto
qed

text \<open>
  A job whose handler itself returns an error that wraps \<open>cron.ErrLockHeld\<close> runs to
  the end, under its lock, and is then treated as skipped: no duration is recorded for it.
\<close>

theorem handler_error_taken_for_skip:
  assumes "\<not> eng_stopping e" and "job_Name j \<notin> inFlight (eng_state e)" and "eng_toggler e = None"
    and "eng_locker e = None" and "job_func j ctx = Val (Some err)" and "errors_Is err ErrLockHeld"
  shows "case runJob quoteQ ctx j trigger e of (e', r, evs) \<Rightarrow>
    r = Some err \<and> RunHandler (ctx_fence ctx) \<in> set evs \<and> recorded ''cron.job.duration'' (tel evs) = 0"
proof -
  have skip: "isSkip (Some err)" using assms(6) by (simp add: isSkip_def skipReason_def)
  then obtain reason where "skipReason (Some err) = Some reason" by (auto simp: isSkip_def)
  with skip show ?thesis
    using assms
    by (simp add: runJob_def buildChain_def cron_tracerMW_def loggerMW_def overlapMW_def togglerMW_def cron_metricsMW_def
        lockerMW_def cron_panicRecovery_def base_handler_def run_meta_def Let_def)
qed

theorem handler_error_taken_for_skip_witness:
  "recorded ''cron.job.duration'' (tel (snd (snd (runJob id \<lparr>ctx_fence = None\<rparr>
     (demo_job (Val (Some ErrLockHeld))) ''manual'' (idle_engine\<lparr>eng_locker := None\<rparr>))))) = 0"
  using handler_error_taken_for_skip [of "idle_engine\<lparr>eng_locker := None\<rparr>" "demo_job (Val (Some ErrLockHeld))"
      "\<lparr>ctx_fence = None\<rparr>" ErrLockHeld id "''manual''"]
  by (auto simp: idle_engine_def demo_job_def job_func_def ErrLockHeld_def cron_err_def)

lemma zmod_unique_helper: "0 \<le> (r :: int) \<Longrightarrow> r < m \<Longrightarrow> (r + m) mod m = r"
  by simp

text \<open>
  The TTL of the lock outlives the run's timeout exactly when their sum with the fixed
  buffer fits an int64; a job timeout within 15 seconds of the largest duration makes the
  sum wrap to a negative TTL.
\<close>

theorem lockTTL_outlives_iff:
  assumes "0 < timeout" and "timeout < 2 ^ 63"
  shows "(timeout < lockTTL timeout \<longleftrightarrow> timeout + FixedLockTTLBuffer < 2 ^ 63)
    \<and> (timeout + FixedLockTTLBuffer \<ge> 2 ^ 63 \<longrightarrow> lockTTL timeout < 0)"
proof (cases "timeout + FixedLockTTLBuffer < 2 ^ 63")
  case True
  then have "lockTTL timeout = timeout + FixedLockTTLBuffer"
    unfolding lockTTL_def using assms by (intro int64_wrap_id) (auto simp: cron_consts)
  then show ?thesis using True by (simp add: cron_consts)
next
  case False
  then have "(timeout + FixedLockTTLBuffer + 2 ^ 63) mod 2 ^ 64 = timeout + FixedLockTTLBuffer + 2 ^ 63 - 2 ^ 64"
    using assms zmod_unique_helper [of "timeout + FixedLockTTLBuffer + 2 ^ 63 - 2 ^ 64" "2 ^ 64"] by (simp add: cron_consts)
  then have "lockTTL timeout < 0" unfolding lockTTL_def int64_wrap_def using assms by (simp add: cron_consts)
  with False assms show ?thesis by linarith
qed

theorem lockTTL_outlives_iff_witness: "minute < lockTTL minute"
  using lockTTL_outlives_iff [of minute] by (simp add: cron_consts)

subsection \<open>Concurrent runs\<close>

text \<open>
  The interleavings of runs: the stopping flag, the WaitGroup of active runs, the in-flight
  map, the runs admitted but not yet past the overlap guard, the runs that hold their name,
  and those that have left the guard and still have to call \<open>Done\<close>. Admission, which
  reads the flag and adds to the WaitGroup under the read lock, and \<open>LoadOrStore\<close> are
  atomic.
\<close>

record runs_state =
  rs_stopping :: bool
  rs_active :: nat
  rs_inFlight :: "string set"
  rs_admitted :: "string multiset"
  rs_section :: "string multiset"
  rs_leaving :: "string multiset"

definition no_runs :: runs_state where
  "no_runs = \<lparr>rs_stopping = False, rs_active = 0, rs_inFlight = {}, rs_admitted = {#}, rs_section = {#}, rs_leaving = {#}\<rparr>"

inductive run_step :: "runs_state \<Rightarrow> runs_state \<Rightarrow> bool" where
  admit: "\<not> rs_stopping s \<Longrightarrow>
    run_step s (s\<lparr>rs_active := Suc (rs_active s), rs_admitted := add_mset name (rs_admitted s)\<rparr>)"
| enter: "name \<in># rs_admitted s \<Longrightarrow> name \<notin> rs_inFlight s \<Longrightarrow>
    run_step s (s\<lparr>rs_admitted := rs_admitted s - {#name#}, rs_inFlight := insert name (rs_inFlight s),
                  rs_section := add_mset name (rs_section s)\<rparr>)"
| overlap: "name \<in># rs_admitted s \<Longrightarrow> name \<in> rs_inFlight s \<Longrightarrow>
    run_step s (s\<lparr>rs_admitted := rs_admitted s - {#name#}, rs_leaving := add_mset name (rs_leaving s)\<rparr>)"
| leave: "name \<in># rs_section s \<Longrightarrow>
    run_step s (s\<lparr>rs_section := rs_section s - {#name#}, rs_inFlight := rs_inFlight s - {name},
                  rs_leaving := add_mset name (rs_leaving s)\<rparr>)"
| run_done: "name \<in># rs_leaving s \<Longrightarrow>
    run_step s (s\<lparr>rs_leaving := rs_leaving s - {#name#}, rs_active := rs_active s - 1\<rparr>)"
| stop: "run_step s (s\<lparr>rs_stopping := True\<rparr>)"

inductive_cases run_stepE: "run_step s t"

definition runs_inv :: "runs_state \<Rightarrow> bool" where
  "runs_inv s \<longleftrightarrow> (\<forall>name. count (rs_section s) name = (if name \<in> rs_inFlight s then 1 else 0))
     \<and> rs_active s = size (rs_admitted s) + size (rs_section s) + size (rs_leaving s)"

lemma runs_inv_init: "runs_inv no_runs"
  by (simp add: runs_inv_def no_runs_def)

lemma size_pos_mset: "x \<in># M \<Longrightarrow> size M = Suc (size (M - {#x#}))"
  by (metis insert_DiffM size_add_mset)

lemma run_step_inv: "run_step s t \<Longrightarrow> runs_inv s \<Longrightarrow> runs_inv t"
proof (induction rule: run_step.induct)
  case (enter name s)
  then show ?case using size_pos_mset [of name "rs_admitted s"] by (auto simp: runs_inv_def)
next
  case (overlap name s)
  then show ?case using size_pos_mset [of name "rs_admitted s"] by (auto simp: runs_inv_def)
next
  case (leave name s)
  then show ?case using size_pos_mset [of name "rs_section s"] by (auto simp: runs_inv_def split: if_splits)
next
  case (run_done name s)
  then show ?case using size_pos_mset [of name "rs_leaving s"] by (auto simp: runs_inv_def)
qed (auto simp: runs_inv_def)

lemma runs_reach_inv: "run_step\<^sup>*\<^sup>* no_runs s \<Longrightarrow> runs_inv s"
  by (induction rule: rtranclp_induct) (auto intro: runs_inv_init run_step_inv)

lemma runs_drained_step:
  "run_step s t \<Longrightarrow> runs_inv s \<Longrightarrow> rs_stopping s \<Longrightarrow> rs_active s = 0 \<Longrightarrow> rs_stopping t \<and> rs_active t = 0"
  by (erule run_stepE) (auto simp: runs_inv_def)

lemma runs_drained:
  "run_step\<^sup>*\<^sup>* s t \<Longrightarrow> runs_inv s \<Longrightarrow> rs_stopping s \<Longrightarrow> rs_active s = 0 \<Longrightarrow>
     rs_stopping t \<and> rs_active t = 0 \<and> runs_inv t"
  by (induction rule: rtranclp_induct) (auto dest: runs_drained_step run_step_inv)

text \<open>
  C23: under every interleaving of scheduled and manual runs, two runs of the same job are
  never both past the overlap guard, and when a run has left it the job can run again.
\<close>

theorem no_overlap:
  assumes "run_step\<^sup>*\<^sup>* no_runs s"
  shows "count (rs_section s) name \<le> 1 \<and> (name \<notin># rs_section s \<longrightarrow> name \<notin> rs_inFlight s)"
proof -
  have "count (rs_section s) name = (if name \<in> rs_inFlight s then 1 else 0)"
    using runs_reach_inv [OF assms] by (simp add: runs_inv_def)
  then show ?thesis by (auto simp: not_in_iff split: if_splits)
qed

definition one_run :: runs_state where
  "one_run = no_runs\<lparr>rs_active := 1, rs_inFlight := {''j''}, rs_section := {#''j''#}\<rparr>"

theorem no_overlap_witness: "count (rs_section one_run) ''j'' \<le> 1"
proof -
  have "run_step no_runs (no_runs\<lparr>rs_active := 1, rs_admitted := {#''j''#}\<rparr>)"
    using admit [of no_runs "''j''"] by (simp add: no_runs_def)
  moreover have "run_step (no_runs\<lparr>rs_active := 1, rs_admitted := {#''j''#}\<rparr>) one_run"
    using enter [of "''j''" "no_runs\<lparr>rs_active := 1, rs_admitted := {#''j''#}\<rparr>"] by (simp add: no_runs_def one_run_def)
  ultimately have "run_step\<^sup>*\<^sup>* no_runs one_run" by (meson rtranclp.rtrancl_into_rtrancl rtranclp.rtrancl_refl)
  then show ?thesis using no_overlap by blast
qed

text \<open>
  Stop is sound: once the engine is stopping and the WaitGroup has drained, no run is
  in its handler and none is admitted ever again.
\<close>

theorem stop_final:
  assumes "run_step\<^sup>*\<^sup>* no_runs s" and "rs_stopping s" and "rs_active s = 0" and "run_step\<^sup>*\<^sup>* s t"
  shows "rs_section t = {#} \<and> rs_admitted t = {#} \<and> rs_inFlight t = {}"
  using runs_drained [OF assms(4) runs_reach_inv [OF assms(1)] assms(2,3)]
  by (auto simp: runs_inv_def split: if_splits)

theorem stop_final_witness: "rs_section (no_runs\<lparr>rs_stopping := True\<rparr>) = {#}"
proof -
  have "run_step\<^sup>*\<^sup>* no_runs (no_runs\<lparr>rs_stopping := True\<rparr>)" using stop [of no_runs] by blast
  then show ?thesis
    using stop_final [of "no_runs\<lparr>rs_stopping := True\<rparr>" "no_runs\<lparr>rs_stopping := True\<rparr>"] by (simp add: no_runs_def)
qed

subsection \<open>Registration and the one-shot life of an engine\<close>

text \<open>
  An engine is one-shot and keeps its jobs: Register succeeds only before Start and
  Stop, for a named job with a handler and a valid schedule whose name is new, and then
  adds exactly that job; after Stop, neither Start nor Register changes anything and every
  run and trigger of a registered job is refused with \<open>ErrEngineStopped\<close>.
\<close>

theorem engine_one_shot:
  "(snd (cron_Register parse j e) = nil \<longleftrightarrow>
      \<not> eng_running e \<and> \<not> eng_stopping e \<and> job_Name j \<noteq> '''' \<and> job_Handler j \<noteq> None
      \<and> parse (job_Schedule j) = nil \<and> eng_jobs e (job_Name j) = None)
   \<and> fst (cron_Register parse j e) =
       (if snd (cron_Register parse j e) = nil then e\<lparr>eng_jobs := (eng_jobs e)(job_Name j \<mapsto> j)\<rparr> else e)
   \<and> (let s = fst (cron_Stop ctxErr e) in
       eng_stopping s \<and> \<not> (eng_running s \<and> \<not> eng_running e) \<and> cron_Start s = s \<and> fst (cron_Register parse j s) = s
       \<and> Trigger quoteQ ctx name s = (s, Some (if eng_jobs e name = None then ErrJobNotFound else ErrEngineStopped), []))"
  by (auto simp: cron_Register_def cron_Stop_def cron_Start_def Trigger_def runJob_def Let_def split: option.splits if_splits)

end
