(* ===== verification/Confloader.thy ===== *)
theory Confloader
  imports Go_Errors
begin

text \<open>
  Package \<open>confloader\<close>: connection and polling configuration, the conf tag, the two
  backends' key mapping and error mapping, the retried fetch with its fallback folder, the
  cache entry and its refresh, the typed read, and the health signals. The backend calls,
  the YAML decoder, the clock and the float multiplication of the backoff are parameters.
\<close>

subsection \<open>Errors\<close>

definition cl_err :: "string \<Rightarrow> string \<Rightarrow> gerr" where
  "cl_err name txt = sentinel_error (''confloader.'' @ name) txt"

definition ErrInvalidProvider :: gerr where "ErrInvalidProvider = cl_err ''ErrInvalidProvider'' ''invalid provider specified''"
definition ErrInvalidEndpoint :: gerr where "ErrInvalidEndpoint = cl_err ''ErrInvalidEndpoint'' ''invalid endpoint specified''"
definition ErrInvalidAuthClientID :: gerr where
  "ErrInvalidAuthClientID = cl_err ''ErrInvalidAuthClientID'' ''invalid auth_client_id specified''"
definition ErrInvalidNamespace :: gerr where "ErrInvalidNamespace = cl_err ''ErrInvalidNamespace'' ''invalid namespace specified''"
definition ErrInvalidAuthClientSecret :: gerr where
  "ErrInvalidAuthClientSecret = cl_err ''ErrInvalidAuthClientSecret'' ''invalid auth_client_secret specified''"
definition ErrInvalidEnvironment :: gerr where
  "ErrInvalidEnvironment = cl_err ''ErrInvalidEnvironment'' ''invalid environment specified (required for provider infisical)''"
definition ErrUnsupportedProvider :: gerr where
  "ErrUnsupportedProvider = cl_err ''ErrUnsupportedProvider'' ''unsupported provider specified''"
definition ErrMissingTag :: gerr where
  "ErrMissingTag = cl_err ''ErrMissingTag'' ''confloader: a field of type Getter[T] must have a conf tag''"
definition ErrInvalidTag :: gerr where
  "ErrInvalidTag = cl_err ''ErrInvalidTag'' ''confloader: invalid conf tag (expected key=value pairs separated by commas)''"
definition ErrTagMissingKey :: gerr where
  "ErrTagMissingKey = cl_err ''ErrTagMissingKey'' ''confloader: conf tag must specify key''"
definition ErrTagMissingFolder :: gerr where
  "ErrTagMissingFolder = cl_err ''ErrTagMissingFolder'' ''confloader: conf tag must specify folder''"
definition ErrNotFound :: gerr where
  "ErrNotFound = sentinel_error ''client.ErrNotFound'' ''confloader: config not found in folder and in default folder''"
definition ErrParseFailed :: gerr where
  "ErrParseFailed = cl_err ''ErrParseFailed'' ''confloader: failed to parse config value''"
definition ErrProviderFailed :: gerr where
  "ErrProviderFailed = cl_err ''ErrProviderFailed'' ''confloader: provider fetch failed''"

definition DefaultFolder :: string where "DefaultFolder = ''default''"

subsection \<open>Configuration\<close>

text \<open>The backoff factor stays abstract: \<open>'b\<close> stands for float64, compared with zero by \<open>pos\<close>.\<close>

record 'b watcher_config =
  PollingInterval :: duration
  PollingMaxRetries :: int
  PollingRetryDelay :: duration
  PollingRetryBackoff :: 'b

record 'b cl_config =
  cl_Provider :: string
  cl_Endpoint :: string
  cl_AuthClientID :: string
  cl_AuthClientSecret :: string
  cl_Namespace :: string
  cl_Environment :: string
  cl_Watcher :: "'b watcher_config"

definition DefaultWatcherConfig :: "'b \<Rightarrow> 'b watcher_config" where
  "DefaultWatcherConfig two = \<lparr>PollingInterval = 30 * second, PollingMaxRetries = 3,
     PollingRetryDelay = second, PollingRetryBackoff = two\<rparr>"

definition applyDefaults :: "('b \<Rightarrow> bool) \<Rightarrow> 'b \<Rightarrow> 'b cl_config \<Rightarrow> 'b cl_config" where
  "applyDefaults pos two c =
     (let def = DefaultWatcherConfig two; w = cl_Watcher c;
          w1 = (if PollingInterval w \<le> 0 then w\<lparr>PollingInterval := PollingInterval def\<rparr> else w);
          w2 = (if PollingMaxRetries w1 \<le> 0 then w1\<lparr>PollingMaxRetries := PollingMaxRetries def\<rparr> else w1);
          w3 = (if PollingRetryDelay w2 \<le> 0 then w2\<lparr>PollingRetryDelay := PollingRetryDelay def\<rparr> else w2);
          w4 = (if \<not> pos (PollingRetryBackoff w3) then w3\<lparr>PollingRetryBackoff := PollingRetryBackoff def\<rparr> else w3)
      in c\<lparr>cl_Watcher := w4\<rparr>)"

definition cl_validate :: "'b cl_config \<Rightarrow> error" where
  "cl_validate c =
     (if cl_Provider c = '''' then Some ErrInvalidProvider
      else if cl_Provider c \<noteq> ''infisical'' \<and> cl_Endpoint c = '''' then Some ErrInvalidEndpoint
      else if cl_AuthClientID c = '''' then Some ErrInvalidAuthClientID
      else if cl_AuthClientSecret c = '''' then Some ErrInvalidAuthClientSecret
      else if cl_Namespace c = '''' then Some ErrInvalidNamespace
      else if cl_Provider c = ''infisical'' \<and> cl_Environment c = '''' then Some ErrInvalidEnvironment
      else if cl_Provider c = ''etcd'' \<or> cl_Provider c = ''infisical'' then nil
      else Some ErrUnsupportedProvider)"

subsection \<open>The conf tag\<close>

record 'ty getter_meta =
  gm_name :: string
  gm_typ :: 'ty
  gm_folder :: string
  gm_key :: string

text \<open>The loop over the pairs; \<open>quoteQ\<close> is the \<open>%q\<close> form of a string.\<close>

fun tag_loop :: "(string \<Rightarrow> string) \<Rightarrow> string list \<Rightarrow> string \<Rightarrow> string \<Rightarrow> gerr + (string \<times> string)" where
  "tag_loop quoteQ [] folder key = Inr (folder, key)"
| "tag_loop quoteQ (p # ps) folder key =
     (let pair = trim_space p in
      if pair = '''' then tag_loop quoteQ ps folder key
      else (case cut CHR ''='' pair of
        (k0, v0, found) \<Rightarrow>
          if \<not> found then Inl (errorf (error_string ErrInvalidTag @ '': '' @ quoteQ pair) [ErrInvalidTag])
          else let k = trim_space k0; v = trim_space v0 in
            if k = ''folder'' then tag_loop quoteQ ps v key
            else if k = ''key'' then tag_loop quoteQ ps folder v
            else Inl (errorf (error_string ErrInvalidTag @ '': unknown option '' @ quoteQ k) [ErrInvalidTag])))"

definition parseConfTag :: "(string \<Rightarrow> string) \<Rightarrow> string \<Rightarrow> gerr + (string \<times> string)" where
  "parseConfTag quoteQ tag0 =
     (let t = trim_space tag0 in
      if t = '''' then Inl ErrInvalidTag
      else case tag_loop quoteQ (split_on CHR '','' t) '''' '''' of
        Inl e \<Rightarrow> Inl e
      | Inr (folder, key) \<Rightarrow>
          if key = '''' then Inl ErrTagMissingKey
          else if folder = '''' then Inl ErrTagMissingFolder
          else Inr (folder, key))"

text \<open>
  A struct field as the reflection sees it: its name, the value type when it has the
  Getter signature, and its conf tag.
\<close>

record 'ty struct_field =
  sf_Name :: string
  sf_getter :: "'ty option"
  sf_tag :: "string option"

fun reflectGetters :: "(string \<Rightarrow> string) \<Rightarrow> 'ty struct_field list \<Rightarrow> gerr + 'ty getter_meta list" where
  "reflectGetters quoteQ [] = Inr []"
| "reflectGetters quoteQ (f # fs) =
     (case sf_getter f of
        None \<Rightarrow> reflectGetters quoteQ fs
      | Some ty \<Rightarrow>
          (case sf_tag f of
             None \<Rightarrow> Inl (errorf (error_string ErrMissingTag @ '': field '' @ quoteQ (sf_Name f)) [ErrMissingTag])
           | Some tag \<Rightarrow>
               (case parseConfTag quoteQ tag of
                  Inl e \<Rightarrow> Inl (errorf (''confloader: field '' @ quoteQ (sf_Name f) @ '': '' @ error_string e) [e])
                | Inr (folder, key) \<Rightarrow>
                    (case reflectGetters quoteQ fs of
                       Inl e \<Rightarrow> Inl e
                     | Inr ms \<Rightarrow> Inr (\<lparr>gm_name = sf_Name f, gm_typ = ty, gm_folder = folder, gm_key = key\<rparr> # ms)))))"

subsection \<open>Backends\<close>

definition keyPath :: "string \<Rightarrow> string \<Rightarrow> string \<Rightarrow> string" where
  "keyPath namespace folder key = namespace @ ''/'' @ folder @ ''/'' @ key"

text \<open>\<open>get\<close> is the etcd client's Get: the values and mod revisions stored under a path.\<close>

definition etcd_Fetch :: "(string \<Rightarrow> gerr + (string \<times> int) list) \<Rightarrow> string \<Rightarrow> string \<Rightarrow> string \<Rightarrow> gerr + (string \<times> string)" where
  "etcd_Fetch get namespace folder key =
     (if folder = '''' then Inl (errors_New ''confloader/etcd: empty folder (config cannot reside in root)'')
      else case get (keyPath namespace folder key) of
        Inl e \<Rightarrow> Inl (errorf (''confloader/etcd: fetch: '' @ error_string e) [e])
      | Inr [] \<Rightarrow> Inl ErrNotFound
      | Inr ((v, modRev) # _) \<Rightarrow> Inr (v, itoa modRev))"

definition secretPath :: "string \<Rightarrow> string" where
  "secretPath folder = (if folder = '''' \<or> folder = DefaultFolder then ''/'' else ''/'' @ folder)"

definition isNotFound :: "gerr \<Rightarrow> bool" where
  "isNotFound e \<longleftrightarrow> errors_As api_code e = Some 404"

definition infisical_Fetch ::
  "(string \<Rightarrow> string \<Rightarrow> string \<Rightarrow> string \<Rightarrow> gerr + (string \<times> int)) \<Rightarrow> string \<Rightarrow> string \<Rightarrow> string \<Rightarrow> string
   \<Rightarrow> gerr + (string \<times> string)" where
  "infisical_Fetch retrieve namespace environment folder key =
     (case retrieve key namespace environment (secretPath folder) of
        Inl e \<Rightarrow> if isNotFound e then Inl ErrNotFound
                 else Inl (errorf (''confloader/infisical: fetch: '' @ error_string e) [e])
      | Inr (v, version) \<Rightarrow> Inr (v, itoa version))"

subsection \<open>Decoding\<close>

definition cl_truncate :: "string \<Rightarrow> nat \<Rightarrow> string" where
  "cl_truncate s n = (if length s \<le> n then s else take n s @ ''...'')"

text \<open>\<open>unmarshal\<close> is \<open>yaml.Unmarshal\<close> into a fresh value of the target type, \<open>typeName\<close> the name of that type.\<close>

definition parseValue :: "(string \<Rightarrow> gerr + 'v) \<Rightarrow> string \<Rightarrow> string \<Rightarrow> gerr + 'v" where
  "parseValue unmarshal typeName raw =
     (case unmarshal raw of
        Inl err \<Rightarrow> Inl (errorf (error_string ErrParseFailed @ '': cannot decode '' @ quote_text (cl_truncate raw 64) @ '' into '' @ typeName
          @ '': '' @ error_string err) [ErrParseFailed])
      | Inr v \<Rightarrow> Inr v)"

subsection \<open>Fetching\<close>

text \<open>
  What one fetch meets, by the number of the attempt: the backend's answer, and the error
  of the context when it ends during the wait before the attempt. \<open>decode\<close> is
  \<open>parseValue\<close> for the entry's type, \<open>scale\<close> the float multiplication by the backoff.
  The loop returns the result and the delays waited; the number of retries is positive once
  the defaults are applied.
\<close>

record 'v fetch_env =
  fe_fetch :: "nat \<Rightarrow> gerr + (string \<times> string)"
  fe_ctxDone :: "nat \<Rightarrow> error"

function fetch_loop ::
  "'v fetch_env \<Rightarrow> (string \<Rightarrow> gerr + 'v) \<Rightarrow> (duration \<Rightarrow> duration) \<Rightarrow> nat \<Rightarrow> duration \<Rightarrow> nat \<Rightarrow> error
   \<Rightarrow> (gerr + ('v \<times> string)) \<times> duration list" where
  "fetch_loop env decode scale maxRetries delay attempt lastErr =
     (if attempt \<le> maxRetries then
        (case (if attempt > 0 then fe_ctxDone env attempt else nil) of
           Some e \<Rightarrow> (Inl e, [delay])
         | None \<Rightarrow>
             (let waited = (if attempt > 0 then [delay] else []) in
              case fe_fetch env attempt of
                Inr (raw, revn) \<Rightarrow>
                  (case decode raw of Inl pe \<Rightarrow> (Inl pe, waited) | Inr v \<Rightarrow> (Inr (v, revn), waited))
              | Inl e \<Rightarrow>
                  if e = ErrNotFound then (Inl ErrNotFound, waited)
                  else (let (r, ds) = fetch_loop env decode scale maxRetries
                              (if attempt < maxRetries then scale delay else delay) (attempt + 1) (Some e)
                        in (r, waited @ ds))))
      else (Inl (the lastErr), []))"
  by pat_completeness auto
termination by (relation "measure (\<lambda>(_, _, _, maxRetries, _, attempt, _). Suc maxRetries - attempt)") auto

declare fetch_loop.simps [simp del]

definition fetchRetried ::
  "('b \<Rightarrow> duration \<Rightarrow> duration) \<Rightarrow> 'b watcher_config \<Rightarrow> 'v fetch_env \<Rightarrow> (string \<Rightarrow> gerr + 'v)
   \<Rightarrow> (gerr + ('v \<times> string)) \<times> duration list" where
  "fetchRetried scaleBy w env decode =
     fetch_loop env decode (scaleBy (PollingRetryBackoff w)) (nat (PollingMaxRetries w)) (PollingRetryDelay w) 0 nil"

text \<open>\<open>envs\<close> gives what the retried fetch meets for a folder.\<close>

definition fetchWithFallback ::
  "('b \<Rightarrow> duration \<Rightarrow> duration) \<Rightarrow> 'b watcher_config \<Rightarrow> (string \<Rightarrow> 'v fetch_env) \<Rightarrow> (string \<Rightarrow> gerr + 'v) \<Rightarrow> string
   \<Rightarrow> gerr + ('v \<times> string)" where
  "fetchWithFallback scaleBy w envs decode folder =
     (case fst (fetchRetried scaleBy w (envs folder) decode) of
        Inr r \<Rightarrow> Inr r
      | Inl e \<Rightarrow>
          if e = ErrNotFound \<and> folder \<noteq> DefaultFolder then
            (case fst (fetchRetried scaleBy w (envs DefaultFolder) decode) of
               Inr r \<Rightarrow> Inr r
             | Inl fe \<Rightarrow> if fe = ErrNotFound then Inl ErrNotFound else Inl fe)
          else Inl e)"

subsection \<open>Cache entries\<close>

text \<open>One slot of the cache; \<open>lastFetch\<close> is \<^term>\<open>None\<close> for the zero time.\<close>

record 'v cache_entry =
  ce_value :: "'v option"
  ce_revision :: string
  ce_fetchErr :: error
  ce_lastFetch :: "int option"
  ce_stale :: bool
  ce_lastChange :: "int option"

definition new_entry :: "'v cache_entry" where
  "new_entry = \<lparr>ce_value = None, ce_revision = '''', ce_fetchErr = nil, ce_lastFetch = None, ce_stale = False,
     ce_lastChange = None\<rparr>"

definition needRefresh :: "'v cache_entry \<Rightarrow> bool" where
  "needRefresh e \<longleftrightarrow> ce_lastFetch e = None \<or> ce_stale e"

text \<open>
  The write-back of a fetch result at time \<open>now\<close>; the boolean says whether the error
  handler is called.
\<close>

definition store_result :: "int \<Rightarrow> gerr + ('v \<times> string) \<Rightarrow> 'v cache_entry \<Rightarrow> 'v cache_entry \<times> bool" where
  "store_result now r e =
     (case r of
        Inl err \<Rightarrow>
          if err = ErrNotFound
          then (e\<lparr>ce_fetchErr := Some ErrNotFound, ce_stale := False, ce_lastFetch := Some now\<rparr>, False)
          else (e\<lparr>ce_fetchErr := Some err, ce_stale := (ce_value e \<noteq> None), ce_lastFetch := Some now\<rparr>, True)
      | Inr (newVal, newRev) \<Rightarrow>
          (e\<lparr>ce_fetchErr := nil,
             ce_lastChange := (if ce_value e \<noteq> None \<and> newRev \<noteq> ce_revision e then Some now else ce_lastChange e),
             ce_value := Some newVal, ce_revision := newRev, ce_stale := False, ce_lastFetch := Some now\<rparr>, False))"

text \<open>\<open>refreshOne\<close>: the booleans say whether the backend was asked and the handler called.\<close>

definition refreshOne ::
  "int \<Rightarrow> gerr + ('v \<times> string) \<Rightarrow> bool \<Rightarrow> 'v cache_entry \<Rightarrow> 'v cache_entry \<times> bool \<times> bool" where
  "refreshOne now fetched force e =
     (if \<not> force \<and> ce_lastFetch e \<noteq> None \<and> \<not> ce_stale e then (e, False, False)
      else let (e', handled) = store_result now fetched e in (e', True, handled))"

subsection \<open>The loader\<close>

record ('v, 'ty) loader =
  ld_metas :: "'ty getter_meta list"
  ld_entries :: "string \<rightharpoonup> 'v cache_entry"
  ld_byKey :: "string \<rightharpoonup> string"

text \<open>The set-up of New: one entry per field, and the index by folder and key.\<close>

definition new_loader :: "'ty getter_meta list \<Rightarrow> ('v, 'ty) loader" where
  "new_loader metas = \<lparr>ld_metas = metas,
     ld_entries = (\<lambda>n. if n \<in> gm_name ` set metas then Some new_entry else None),
     ld_byKey = foldl (\<lambda>m g. m(gm_folder g @ ''/'' @ gm_key g \<mapsto> gm_name g)) Map.empty metas\<rparr>"

definition metaForField :: "('v, 'ty) loader \<Rightarrow> string \<Rightarrow> 'ty getter_meta option" where
  "metaForField l name = find (\<lambda>m. gm_name m = name) (ld_metas l)"

text \<open>
  \<open>getterCore.get\<close>: \<open>fetched\<close> is what a fetch for the field's metadata would return now.
  The boolean says whether the backend was asked.
\<close>

definition get ::
  "(string \<Rightarrow> string) \<Rightarrow> int \<Rightarrow> ('ty getter_meta \<Rightarrow> gerr + ('v \<times> string)) \<Rightarrow> string \<Rightarrow> ('v, 'ty) loader
   \<Rightarrow> ('v, 'ty) loader \<times> (gerr + 'v) \<times> bool" where
  "get quoteQ now fetched name l =
     (case ld_entries l name of
        None \<Rightarrow> (l, Inl (errorf (error_string ErrProviderFailed @ '': unknown entry '' @ quoteQ name) [ErrProviderFailed]), False)
      | Some entry \<Rightarrow>
          (let (e, asked) = (if needRefresh entry then
                 (case metaForField l name of
                    Some m \<Rightarrow> (let (e', a, _) = refreshOne now (fetched m) False entry in (e', a))
                  | None \<Rightarrow> (entry, False))
               else (entry, False));
               res = (case ce_value e of
                        None \<Rightarrow> (case ce_fetchErr e of Some err \<Rightarrow> Inl err | None \<Rightarrow> Inl ErrNotFound)
                      | Some v \<Rightarrow> (case ce_fetchErr e of Some err \<Rightarrow> Inl err | None \<Rightarrow> Inr v))
           in (l\<lparr>ld_entries := (ld_entries l)(name \<mapsto> e)\<rparr>, res, asked)))"

definition GetWithDefault where
  "GetWithDefault quoteQ now fetched name l def =
     (case get quoteQ now fetched name l of (l', Inr v, a) \<Rightarrow> (l', v, a) | (l', Inl _, a) \<Rightarrow> (l', def, a))"

definition refresh_meta ::
  "int \<Rightarrow> ('ty getter_meta \<Rightarrow> gerr + ('v \<times> string)) \<Rightarrow> 'ty getter_meta \<Rightarrow> ('v, 'ty) loader \<Rightarrow> ('v, 'ty) loader" where
  "refresh_meta now fetched m l =
     (case ld_entries l (gm_name m) of
        None \<Rightarrow> l
      | Some e \<Rightarrow> l\<lparr>ld_entries := (ld_entries l)(gm_name m \<mapsto> fst (refreshOne now (fetched m) True e))\<rparr>)"

definition refreshAll :: "int \<Rightarrow> ('ty getter_meta \<Rightarrow> gerr + ('v \<times> string)) \<Rightarrow> ('v, 'ty) loader \<Rightarrow> ('v, 'ty) loader" where
  "refreshAll now fetched l = fold (refresh_meta now fetched) (ld_metas l) l"

definition markAllStale :: "int \<Rightarrow> gerr \<Rightarrow> ('v, 'ty) loader \<Rightarrow> ('v, 'ty) loader" where
  "markAllStale now err l =
     l\<lparr>ld_entries := (\<lambda>n. map_option (\<lambda>e. e\<lparr>ce_fetchErr := Some err, ce_stale := (ce_value e \<noteq> None),
         ce_lastFetch := Some now\<rparr>) (ld_entries l n))\<rparr>"

definition IsStale :: "('v, 'ty) loader \<Rightarrow> bool" where
  "IsStale l \<longleftrightarrow> (\<exists>e \<in> ran (ld_entries l). ce_stale e)"

definition StaleReason :: "('v, 'ty) loader \<Rightarrow> string \<Rightarrow> string \<Rightarrow> error" where
  "StaleReason l folder key =
     (case ld_byKey l (folder @ ''/'' @ key) of
        None \<Rightarrow> nil
      | Some name \<Rightarrow> (case ld_entries l name of
          None \<Rightarrow> nil
        | Some e \<Rightarrow> if ce_stale e then ce_fetchErr e else nil))"

text \<open>One tick of the polling loop: a refresh, or the panic of a client after some entries.\<close>

definition poll :: "int \<Rightarrow> ('ty getter_meta \<Rightarrow> gerr + ('v \<times> string)) \<Rightarrow> (nat \<times> string) option \<Rightarrow> ('v, 'ty) loader \<Rightarrow> ('v, 'ty) loader" where
  "poll now fetched panic l =
     (case panic of
        None \<Rightarrow> refreshAll now fetched l
      | Some (k, r) \<Rightarrow>
          markAllStale now (errors_New (''confloader: client panicked during refresh: '' @ r))
            (fold (refresh_meta now fetched) (take k (ld_metas l)) l))"

text \<open>
  Construction. \<open>flds\<close> is \<^term>\<open>None\<close> when the type parameter is not a struct; \<open>mkEtcd\<close> and
  \<open>mkInfisical\<close> build the backend clients, \<open>injected\<close> is the client of WithClient. \<open>buildData\<close>
  gives the struct's bound fields with the entry each reads. The polling goroutine starts
  with the returned loader; \<open>poll\<close> is its tick.
\<close>

definition newClient :: "('b cl_config \<Rightarrow> gerr + 'c) \<Rightarrow> ('b cl_config \<Rightarrow> gerr + 'c) \<Rightarrow> 'b cl_config \<Rightarrow> gerr + 'c" where
  "newClient mkEtcd mkInfisical cfg =
     (if cl_Provider cfg = ''etcd'' then mkEtcd cfg
      else if cl_Provider cfg = ''infisical'' then mkInfisical cfg
      else Inl ErrUnsupportedProvider)"

definition buildData :: "('v, 'ty) loader \<Rightarrow> 'ty struct_field list \<Rightarrow> (string \<times> string) list" where
  "buildData l fs = List.map_filter (\<lambda>f. map_option (\<lambda>m. (sf_Name f, gm_name m)) (metaForField l (sf_Name f))) fs"

record ('v, 'ty, 'c) cl_handle =
  ch_core :: "('v, 'ty) loader"
  ch_client :: 'c
  ch_data :: "(string \<times> string) list"
  ch_stopped :: bool
  ch_closes :: nat

definition cl_New where
  "cl_New pos two quoteQ mkEtcd mkInfisical typeName flds cfg0 injected initialFetch now fetched =
     (case flds of
        None \<Rightarrow> Inl (errors_New (''confloader: T must be a struct, got '' @ typeName))
      | Some fs \<Rightarrow>
          (let cfg = applyDefaults pos two cfg0 in
           case cl_validate cfg of
             Some e \<Rightarrow> Inl e
           | None \<Rightarrow>
               (case reflectGetters quoteQ fs of
                  Inl e \<Rightarrow> Inl e
                | Inr metas \<Rightarrow>
                    (case (case injected of Some c \<Rightarrow> Inr c | None \<Rightarrow> newClient mkEtcd mkInfisical cfg) of
                       Inl e \<Rightarrow> Inl e
                     | Inr c \<Rightarrow>
                         (let l = new_loader metas;
                              l' = (if initialFetch then refreshAll now fetched l else l)
                          in Inr \<lparr>ch_core = l', ch_client = c, ch_data = buildData l fs, ch_stopped = False,
                               ch_closes = 0\<rparr>)))))"

text \<open>\<open>Stop\<close>: the body runs once; \<open>close\<close> is the error of closing the client.\<close>

definition cl_Stop :: "error \<Rightarrow> ('v, 'ty, 'c) cl_handle \<Rightarrow> ('v, 'ty, 'c) cl_handle \<times> error" where
  "cl_Stop close h =
     (if ch_stopped h then (h, nil)
      else (h\<lparr>ch_stopped := True, ch_closes := ch_closes h + 1\<rparr>, close))"

subsection \<open>The invariant of the cache\<close>

definition entry_inv :: "'v cache_entry \<Rightarrow> bool" where
  "entry_inv e \<longleftrightarrow> (ce_lastFetch e = None \<longrightarrow> ce_value e = None \<and> ce_fetchErr e = nil \<and> \<not> ce_stale e)
     \<and> (ce_stale e \<longrightarrow> ce_value e \<noteq> None \<and> ce_fetchErr e \<noteq> nil)
     \<and> (ce_lastFetch e \<noteq> None \<and> ce_fetchErr e = nil \<longrightarrow> ce_value e \<noteq> None)"

definition loader_inv :: "('v, 'ty) loader \<Rightarrow> bool" where
  "loader_inv l \<longleftrightarrow> (\<forall>e \<in> ran (ld_entries l). entry_inv e) \<and> dom (ld_entries l) = gm_name ` set (ld_metas l)"

inductive loader_reach :: "'ty getter_meta list \<Rightarrow> ('v, 'ty) loader \<Rightarrow> bool" for metas where
  fresh: "loader_reach metas (new_loader metas)"
| polled: "loader_reach metas l \<Longrightarrow> loader_reach metas (poll now fetched panic l)"
| read: "loader_reach metas l \<Longrightarrow> loader_reach metas (fst (get quoteQ now fetched name l))"

lemma entry_inv_new: "entry_inv new_entry"
  by (simp add: entry_inv_def new_entry_def)

lemma entry_inv_store: "entry_inv e \<Longrightarrow> entry_inv (fst (store_result now r e))"
  by (auto simp: store_result_def entry_inv_def split: sum.split)

lemma entry_inv_refresh: "entry_inv e \<Longrightarrow> entry_inv (fst (refreshOne now r force e))"
  using entry_inv_store [of e now r] by (simp add: refreshOne_def case_prod_beta)

lemma loader_inv_upd:
  "loader_inv l \<Longrightarrow> ld_entries l n \<noteq> None \<Longrightarrow> entry_inv e \<Longrightarrow> loader_inv (l\<lparr>ld_entries := (ld_entries l)(n \<mapsto> e)\<rparr>)"
  by (auto simp: loader_inv_def ran_def split: if_splits)

lemma loader_inv_entry: "loader_inv l \<Longrightarrow> ld_entries l n = Some e \<Longrightarrow> entry_inv e"
  by (auto simp: loader_inv_def ran_def)

lemma loader_inv_meta: "loader_inv l \<Longrightarrow> loader_inv (refresh_meta now fetched m l)"
  by (auto simp: refresh_meta_def split: option.split intro!: loader_inv_upd entry_inv_refresh dest: loader_inv_entry)

lemma loader_inv_fold: "loader_inv l \<Longrightarrow> loader_inv (fold (refresh_meta now fetched) ms l)"
  by (induction ms arbitrary: l) (auto intro: loader_inv_meta)

lemma loader_inv_mark: "loader_inv l \<Longrightarrow> loader_inv (markAllStale now err l)"
proof -
  have "dom (ld_entries (markAllStale now err l)) = dom (ld_entries l)" "ld_metas (markAllStale now err l) = ld_metas l"
    by (auto simp: markAllStale_def dom_def)
  moreover assume "loader_inv l"
  ultimately show ?thesis by (auto simp: loader_inv_def markAllStale_def ran_def entry_inv_def)
qed

lemma loader_inv_get: "loader_inv l \<Longrightarrow> loader_inv (fst (get quoteQ now fetched name l))"
  by (auto simp: get_def Let_def case_prod_beta split: option.splits
      intro!: loader_inv_upd entry_inv_refresh dest: loader_inv_entry)

lemma loader_reach_inv: "loader_reach metas l \<Longrightarrow> loader_inv l \<and> ld_metas l = metas"
proof (induction rule: loader_reach.induct)
  case fresh
  then show ?case by (auto simp: loader_inv_def new_loader_def ran_def entry_inv_new split: if_splits)
next
  case (polled l now fetched panic)
  have "ld_metas (fold (refresh_meta now fetched) ms l) = ld_metas l" for ms
    by (induction ms arbitrary: l) (auto simp: refresh_meta_def split: option.split)
  with polled show ?case
    by (auto simp: poll_def refreshAll_def intro!: loader_inv_fold loader_inv_mark split: option.split)
      (auto simp: markAllStale_def)
next
  case (read l quoteQ now fetched name)
  then show ?case
    using loader_inv_get [of l quoteQ now fetched name] by (auto simp: get_def Let_def case_prod_beta split: option.split)
qed

subsection \<open>Reading\<close>

lemma metaForField_Some:
  "name \<in> gm_name ` set (ld_metas l) \<Longrightarrow> \<exists>m. metaForField l name = Some m \<and> m \<in> set (ld_metas l) \<and> gm_name m = name"
  unfolding metaForField_def by (cases "find (\<lambda>m. gm_name m = name) (ld_metas l)") (auto simp: find_None_iff find_Some_iff)


definition one_meta :: "unit getter_meta list" where
  "one_meta = [\<lparr>gm_name = ''A'', gm_typ = (), gm_folder = ''f'', gm_key = ''k''\<rparr>]"

lemma one_meta_facts:
  "loader_reach one_meta (new_loader one_meta)"
  "ld_entries (new_loader one_meta) ''A'' = Some new_entry"
  "metaForField (new_loader one_meta) ''A'' = Some (hd one_meta)"
  by (rule fresh) (simp_all add: new_loader_def one_meta_def metaForField_def)


text \<open>
  After a cold read failed, the loader does not ask the backend again on the next
  reads, even though the value is still missing and the backend could now answer: every
  later Get returns the first error until a poll succeeds.
\<close>

theorem cold_failure_not_refetched:
  assumes "loader_reach metas l" and "ld_entries l name = Some e" and "ce_lastFetch e = None"
    and "metaForField l name = Some m" and "fetched m = Inl err" and "fetched' m = Inr (v, rev')"
  shows "case get quoteQ now fetched name l of (l', r, _) \<Rightarrow>
    r = Inl err \<and> snd (get quoteQ now' fetched' name l') = (Inl err, False)"
proof -
  have "entry_inv e" using loader_reach_inv [OF assms(1)] loader_inv_entry assms(2) by blast
  then show ?thesis
    using assms(2-6)
    by (auto simp: get_def needRefresh_def refreshOne_def store_result_def entry_inv_def metaForField_def Let_def)
qed

theorem cold_failure_not_refetched_witness:
  "snd (get id 2 (\<lambda>_. Inr (42 :: int, ''r1'')) ''A''
     (fst (get id 1 (\<lambda>_. Inl ErrProviderFailed) ''A'' (new_loader one_meta)))) = (Inl ErrProviderFailed, False)"
  using cold_failure_not_refetched [where quoteQ = id and now = 1 and now' = 2
      and fetched = "\<lambda>_. Inl ErrProviderFailed" and fetched' = "\<lambda>_. Inr (42 :: int, ''r1'')",
      OF one_meta_facts(1, 2) _ one_meta_facts(3) refl refl]
  by (auto simp: new_entry_def split: prod.splits)

subsection \<open>Polling\<close>

text \<open>An entry that differs from another by any number of forced refreshes of its field.\<close>

definition kept_or_fetched ::
  "('ty getter_meta \<Rightarrow> gerr + ('v \<times> string)) \<Rightarrow> 'ty getter_meta list \<Rightarrow> string \<Rightarrow> 'v cache_entry \<Rightarrow> 'v cache_entry \<Rightarrow> bool" where
  "kept_or_fetched fetched metas name e e' \<longleftrightarrow> ce_value e' = ce_value e
     \<or> (\<exists>m \<in> set metas. \<exists>v revn. gm_name m = name \<and> fetched m = Inr (v, revn) \<and> ce_value e' = Some v)"

lemma kept_refresh: "gm_name m = name \<Longrightarrow> m \<in> set metas \<Longrightarrow>
  kept_or_fetched fetched metas name e (fst (refreshOne now (fetched m) True e))"
  by (auto simp: kept_or_fetched_def refreshOne_def store_result_def split: sum.split)

lemma kept_trans: "kept_or_fetched fetched metas name a b \<Longrightarrow> kept_or_fetched fetched metas name b c
  \<Longrightarrow> kept_or_fetched fetched metas name a c"
  by (auto simp: kept_or_fetched_def)

lemma kept_fold:
  "set ms \<subseteq> set metas \<Longrightarrow> ld_entries l name = Some e \<Longrightarrow>
   \<exists>e'. ld_entries (fold (refresh_meta now fetched) ms l) name = Some e' \<and> kept_or_fetched fetched metas name e e'"
proof (induction ms arbitrary: l e)
  case Nil
  then show ?case by (simp add: kept_or_fetched_def)
next
  case (Cons m ms)
  obtain e1 where "ld_entries (refresh_meta now fetched m l) name = Some e1" "kept_or_fetched fetched metas name e e1"
  proof (cases "gm_name m = name")
    case True
    with Cons.prems show ?thesis
      by (intro that [of "fst (refreshOne now (fetched m) True e)"] kept_refresh) (simp_all add: refresh_meta_def)
  next
    case False
    with Cons.prems that [of e] show ?thesis
      by (simp add: refresh_meta_def kept_or_fetched_def split: option.split)
  qed
  with Cons show ?case using kept_trans by fastforce
qed

text \<open>
  C26: polling never loses or invents a value. Whatever a poll meets, failing fetches and a
  panicking client included, every entry keeps the value it had or takes one its own field's
  fetch returned in this poll; it is marked stale only with a value to serve and an error to
  report; and after a panic every entry that has a value is marked stale with the panic as
  its reason.
\<close>

theorem poll_keeps_last_good:
  assumes "loader_reach metas l" and "ld_entries l name = Some e"
  shows "\<exists>e'. ld_entries (poll now fetched panic l) name = Some e' \<and> kept_or_fetched fetched metas name e e'
    \<and> (ce_stale e' \<longrightarrow> ce_value e' \<noteq> None \<and> ce_fetchErr e' \<noteq> nil)
    \<and> (\<forall>k r. panic = Some (k, r) \<longrightarrow> ce_stale e' = (ce_value e' \<noteq> None)
          \<and> ce_fetchErr e' = Some (errors_New (''confloader: client panicked during refresh: '' @ r)))"
proof -
  note metas = conjunct2 [OF loader_reach_inv [OF assms(1)]]
  define ms where "ms = (case panic of None \<Rightarrow> metas | Some (k, _) \<Rightarrow> take k metas)"
  have "set ms \<subseteq> set metas" by (auto simp: ms_def dest: in_set_takeD split: option.split)
  from kept_fold [OF this assms(2), of now fetched] obtain e1
    where e1: "ld_entries (fold (refresh_meta now fetched) ms l) name = Some e1" "kept_or_fetched fetched metas name e e1"
    by blast
  obtain e' where e': "ld_entries (poll now fetched panic l) name = Some e'" "ce_value e' = ce_value e1"
    and panicked: "\<forall>k r. panic = Some (k, r) \<longrightarrow> ce_stale e' = (ce_value e' \<noteq> None)
          \<and> ce_fetchErr e' = Some (errors_New (''confloader: client panicked during refresh: '' @ r))"
    using e1(1) metas by (auto simp: poll_def refreshAll_def ms_def markAllStale_def split: option.splits)
  from loader_reach.polled [OF assms(1)] have "loader_inv (poll now fetched panic l)" using loader_reach_inv by blast
  from loader_inv_entry [OF this e'(1)] have "ce_stale e' \<longrightarrow> ce_value e' \<noteq> None \<and> ce_fetchErr e' \<noteq> nil"
    by (auto simp: entry_inv_def)
  moreover have "kept_or_fetched fetched metas name e e'" using e1(2) e'(2) by (simp add: kept_or_fetched_def)
  ultimately show ?thesis using e'(1) panicked by blast
qed

theorem poll_keeps_last_good_witness:
  "\<exists>e'. ld_entries (poll 2 (\<lambda>_. Inl ErrProviderFailed) (Some (0, ''boom''))
       (poll 1 (\<lambda>_. Inr (42 :: int, ''r1'')) None (new_loader one_meta))) ''A'' = Some e'
     \<and> ce_value e' = Some 42 \<and> ce_stale e'"
proof -
  let ?l = "poll 1 (\<lambda>_. Inr (42 :: int, ''r1'')) None (new_loader one_meta)"
  have "loader_reach one_meta ?l" by (intro polled fresh)
  moreover have "\<exists>e. ld_entries ?l ''A'' = Some e \<and> ce_value e = Some 42"
    by (simp add: poll_def refreshAll_def refresh_meta_def refreshOne_def store_result_def new_loader_def one_meta_def new_entry_def)
  ultimately show ?thesis
    using poll_keeps_last_good [where metas = one_meta and l = ?l and name = "''A''" and now = 2
        and fetched = "\<lambda>_. Inl ErrProviderFailed" and panic = "Some (0, ''boom'')"]
    by (fastforce simp: kept_or_fetched_def)
qed

subsection \<open>Retries and the fallback folder\<close>

definition parsed :: "(string \<Rightarrow> gerr + 'v) \<Rightarrow> gerr + (string \<times> string) \<Rightarrow> gerr + ('v \<times> string)" where
  "parsed decode r = (case r of
     Inl e \<Rightarrow> Inl e
   | Inr (raw, revn) \<Rightarrow> (case decode raw of Inl pe \<Rightarrow> Inl pe | Inr v \<Rightarrow> Inr (v, revn)))"

definition transient :: "gerr + (string \<times> string) \<Rightarrow> bool" where
  "transient r \<longleftrightarrow> (case r of Inl e \<Rightarrow> e \<noteq> ErrNotFound | Inr _ \<Rightarrow> False)"

lemma transient_iff: "transient r \<longleftrightarrow> (\<exists>e. r = Inl e \<and> e \<noteq> ErrNotFound)"
  by (cases r) (simp_all add: transient_def)

lemma fetch_loop_answers:
  assumes "\<And>i. a \<le> i \<Longrightarrow> i < a + d \<Longrightarrow> transient (fe_fetch env i)"
    and "\<And>i. 0 < i \<Longrightarrow> i \<le> a + d \<Longrightarrow> fe_ctxDone env i = nil"
    and "a + d \<le> n" and "\<not> transient (fe_fetch env (a + d)) \<or> a + d = n"
  shows "fetch_loop env decode scale n delay a err =
    (parsed decode (fe_fetch env (a + d)),
     (if a > 0 then [delay] else []) @ map (\<lambda>i. (scale ^^ Suc i) delay) [0..<d])"
  using assms
proof (induction d arbitrary: a delay err)
  case 0
  show ?case
  proof (cases "transient (fe_fetch env a)")
    case True
    then obtain e where e: "fe_fetch env a = Inl e" "e \<noteq> ErrNotFound" by (auto simp: transient_iff)
    from True 0(4) have "a = n" by simp
    note e = e this
    have "fetch_loop env decode scale n delay (Suc n) (Some e) = (Inl e, [])"
      by (simp add: fetch_loop.simps [of env decode scale n delay "Suc n"])
    with e 0(2) [of a] show ?thesis
      by (cases n) (simp_all add: fetch_loop.simps [of env decode scale _ delay] parsed_def)
  next
    case False
    with 0(2) [of a] 0(3) show ?thesis
      by (cases a; cases "fe_fetch env a")
        (auto simp: fetch_loop.simps [of env decode scale n delay] parsed_def transient_iff split: sum.split)
  qed
next
  case (Suc d)
  from Suc.prems(1) [of a] obtain e where e: "fe_fetch env a = Inl e" "e \<noteq> ErrNotFound"
    by (auto simp: transient_iff)
  have "fetch_loop env decode scale n (scale delay) (Suc a) (Some e) =
    (parsed decode (fe_fetch env (a + Suc d)), [scale delay] @ map (\<lambda>i. (scale ^^ Suc i) (scale delay)) [0..<d])"
    using Suc.IH [of "Suc a" "scale delay" "Some e"] Suc.prems by simp
  also have "[scale delay] @ map (\<lambda>i. (scale ^^ Suc i) (scale delay)) [0..<d] = map (\<lambda>i. (scale ^^ Suc i) delay) [0..<Suc d]"
    by (simp add: upt_conv_Cons map_Suc_upt [symmetric] funpow_swap1 del: upt_Suc map_Suc_upt)
  finally show ?case
    using e Suc.prems(2) [of a] Suc.prems(3) by (cases a) (simp_all add: fetch_loop.simps [of env decode scale n delay])
qed



subsection \<open>The conf tag reads back\<close>

lemma not_space: "\<forall>p \<in> set space_seqs. CHR ''f'' \<notin> set p \<and> CHR ''='' \<notin> set p"
  "\<forall>p \<in> set space_seqs. CHR ''k'' \<notin> set p \<and> CHR ''='' \<notin> set p"
  by code_simp+

lemma tag_pairs:
  assumes "trim_space s = s" and "s \<noteq> []"
  shows "trim_space (''folder='' @ s) = ''folder='' @ s" "trim_space (''key='' @ s) = ''key='' @ s"
  using trim_space_extend [OF assms not_space(1), of "''older''"] trim_space_extend [OF assms not_space(2), of "''ey''"]
  by simp_all

lemma tag_loop_step:
  assumes "trim_space s = s" and "s \<noteq> []"
  shows "tag_loop q ((''folder='' @ s) # ps) folder key = tag_loop q ps s key"
    and "tag_loop q ((''key='' @ s) # ps) folder key = tag_loop q ps folder s"
proof -
  have "cut CHR ''='' (''folder='' @ s) = (''folder'', s, True)" "cut CHR ''='' (''key='' @ s) = (''key'', s, True)"
    using cut_append [of "CHR ''=''" "''folder''" s] cut_append [of "CHR ''=''" "''key''" s] by simp_all
  moreover have "trim_space ''folder'' = ''folder''" "trim_space ''key'' = ''key''" by code_simp+
  ultimately show "tag_loop q ((''folder='' @ s) # ps) folder key = tag_loop q ps s key"
    "tag_loop q ((''key='' @ s) # ps) folder key = tag_loop q ps folder s"
    using tag_pairs [OF assms] assms by (simp_all add: Let_def)
qed

lemma tag_loop_sound:
  "tag_loop q ps folder key = Inr (f, k) \<Longrightarrow> trim_space folder = folder \<Longrightarrow> trim_space key = key
   \<Longrightarrow> trim_space f = f \<and> trim_space k = k"
  by (induction q ps folder key rule: tag_loop.induct) (auto simp: Let_def split: if_splits prod.splits)

text \<open>
  The conf tag reads back what was written. A folder and a key that are not empty,
  hold no comma and have no surrounding space are parsed back from either order of the
  pairs, with '=' allowed in the values; and whatever tag is accepted, its folder and key
  are not empty and carry no surrounding space.
\<close>

theorem parseConfTag_roundtrip:
  assumes "f \<noteq> []" "k \<noteq> []" "trim_space f = f" "trim_space k = k" "CHR '','' \<notin> set f" "CHR '','' \<notin> set k"
  shows "parseConfTag q (''folder='' @ f @ '',key='' @ k) = Inr (f, k)
    \<and> parseConfTag q (''key='' @ k @ '',folder='' @ f) = Inr (f, k)
    \<and> (\<forall>t f' k'. parseConfTag q t = Inr (f', k') \<longrightarrow>
         f' \<noteq> [] \<and> k' \<noteq> [] \<and> trim_space f' = f' \<and> trim_space k' = k')"
proof (intro conjI allI impI)
  have pairs: "split_on CHR '','' (''folder='' @ f @ '',key='' @ k) = [''folder='' @ f, ''key='' @ k]"
    "split_on CHR '','' (''key='' @ k @ '',folder='' @ f) = [''key='' @ k, ''folder='' @ f]"
    using split_on_append_sep [of "CHR '',''" "''folder='' @ f" "''key='' @ k"]
      split_on_append_sep [of "CHR '',''" "''key='' @ k" "''folder='' @ f"] assms(5, 6) by simp_all
  have "trim_space (''folder='' @ f @ '',key='' @ k) = ''folder='' @ f @ '',key='' @ k"
    "trim_space (''key='' @ k @ '',folder='' @ f) = ''key='' @ k @ '',folder='' @ f"
    using trim_space_extend [OF assms(4) assms(2) not_space(1), of "''older='' @ f @ '',key''"]
      trim_space_extend [OF assms(3) assms(1) not_space(2), of "''ey='' @ k @ '',folder''"] by simp_all
  then show "parseConfTag q (''folder='' @ f @ '',key='' @ k) = Inr (f, k)"
    "parseConfTag q (''key='' @ k @ '',folder='' @ f) = Inr (f, k)"
    using assms tag_loop_step [of f] tag_loop_step [of k] by (simp_all add: parseConfTag_def pairs del: append.simps append_Cons)
next
  fix t f' k' assume "parseConfTag q t = Inr (f', k')"
  then obtain ps where "tag_loop q ps '''' '''' = Inr (f', k')" and ne: "f' \<noteq> []" "k' \<noteq> []"
    by (auto simp: parseConfTag_def Let_def split: if_splits sum.splits)
  from tag_loop_sound [OF this(1)] show "trim_space f' = f'" "trim_space k' = k'" by simp_all
  from ne show "f' \<noteq> []" "k' \<noteq> []" by auto
qed

theorem parseConfTag_roundtrip_witness:
  "parseConfTag id ''folder=payments,key=url=x'' = Inr (''payments'', ''url=x'')"
proof -
  have "trim_space ''payments'' = ''payments''" "trim_space ''url=x'' = ''url=x''" by code_simp+
  with parseConfTag_roundtrip [of "''payments''" "''url=x''" id] show ?thesis by simp
qed

subsection \<open>Construction\<close>

lemma reflectGetters_meta:
  "reflectGetters quoteQ fs = Inr metas \<Longrightarrow>
   map gm_name metas = map sf_Name (filter (\<lambda>f. sf_getter f \<noteq> None) fs)
   \<and> (\<forall>m \<in> set metas. \<exists>f \<in> set fs. \<exists>tag. sf_Name f = gm_name m \<and> sf_getter f = Some (gm_typ m) \<and> sf_tag f = Some tag
        \<and> parseConfTag quoteQ tag = Inr (gm_folder m, gm_key m))"
  by (induction quoteQ fs arbitrary: metas rule: reflectGetters.induct)
    (auto split: option.splits sum.splits prod.splits, blast+)

lemma refresh_fetched:
  "ld_entries l (gm_name m) \<noteq> None \<Longrightarrow>
   \<exists>e. ld_entries (refresh_meta now fetched m l) (gm_name m) = Some e \<and> ce_lastFetch e = Some now"
  by (auto simp: refresh_meta_def refreshOne_def store_result_def split: sum.split)

lemma refresh_meta_other: "name \<noteq> gm_name m \<Longrightarrow> ld_entries (refresh_meta now fetched m l) name = ld_entries l name"
  by (auto simp: refresh_meta_def split: option.split)

lemma refresh_meta_frame [simp]:
  "dom (ld_entries (refresh_meta now fetched m l)) = dom (ld_entries l)"
  "ld_metas (refresh_meta now fetched m l) = ld_metas l" "ld_byKey (refresh_meta now fetched m l) = ld_byKey l"
  by (auto simp: refresh_meta_def split: option.split)

lemma refresh_fold_frame [simp]:
  "dom (ld_entries (fold (refresh_meta now fetched) ms l)) = dom (ld_entries l)"
  "ld_metas (fold (refresh_meta now fetched) ms l) = ld_metas l"
  "ld_byKey (fold (refresh_meta now fetched) ms l) = ld_byKey l"
  by (induction ms arbitrary: l) auto

lemma refresh_fold_fetched:
  "name \<in> gm_name ` set ms \<Longrightarrow> ld_entries l name \<noteq> None \<Longrightarrow>
   \<exists>e. ld_entries (fold (refresh_meta now fetched) ms l) name = Some e \<and> ce_lastFetch e = Some now"
proof (induction ms rule: rev_induct)
  case (snoc m ms)
  show ?case
  proof (cases "name = gm_name m")
    case True
    moreover have "ld_entries (fold (refresh_meta now fetched) ms l) name \<noteq> None"
      using snoc.prems(2) refresh_fold_frame(1) [of now fetched ms l] by blast
    ultimately show ?thesis using refresh_fetched by fastforce
  next
    case False
    with snoc show ?thesis by (auto simp: refresh_meta_other)
  qed
qed simp

text \<open>
  C39: a loader that New returns is complete. Its configuration was valid, every field of
  the struct with the Getter signature had a parseable conf tag and is bound to an entry of
  its own, with the default start every entry has been fetched once, and the cache is in
  a state from which all reads and polls keep the loader's invariant.
\<close>

theorem New_complete:
  fixes h :: "('v, 'ty, 'c) cl_handle"
  assumes "cl_New pos two quoteQ mkEtcd mkInfisical typeName (Some fs) cfg injected initialFetch now fetched = Inr h"
  shows "\<exists>metas. reflectGetters quoteQ fs = Inr metas \<and> cl_validate (applyDefaults pos two cfg) = nil
    \<and> loader_reach metas (ch_core h)
    \<and> (\<forall>f \<in> set fs. sf_getter f \<noteq> None \<longrightarrow> (sf_Name f, sf_Name f) \<in> set (ch_data h)
         \<and> (\<exists>e. ld_entries (ch_core h) (sf_Name f) = Some e \<and> (initialFetch \<longrightarrow> ce_lastFetch e = Some now)))"
proof -
  from assms obtain metas where m: "reflectGetters quoteQ fs = Inr metas" "cl_validate (applyDefaults pos two cfg) = nil"
    and h: "ch_core h = (if initialFetch then refreshAll now fetched (new_loader metas) else new_loader metas)"
      "ch_data h = buildData (new_loader metas :: ('v, 'ty) loader) fs"
    by (auto simp: cl_New_def Let_def split: option.splits sum.splits if_splits)
  have names: "gm_name ` set metas = sf_Name ` {f \<in> set fs. sf_getter f \<noteq> None}"
    using arg_cong [OF conjunct1 [OF reflectGetters_meta [OF m(1)]], of set] by simp
  have "loader_reach metas (poll now fetched None (new_loader metas))" by (intro polled fresh)
  then have "loader_reach metas (ch_core h)" using h(1) by (simp add: poll_def fresh)
  moreover have "(sf_Name f, sf_Name f) \<in> set (ch_data h)
      \<and> (\<exists>e. ld_entries (ch_core h) (sf_Name f) = Some e \<and> (initialFetch \<longrightarrow> ce_lastFetch e = Some now))"
    if f: "f \<in> set fs" "sf_getter f \<noteq> None" for f
  proof
    have n: "sf_Name f \<in> gm_name ` set (ld_metas (new_loader metas :: ('v, 'ty) loader))"
      using f names by (auto simp: new_loader_def)
    from metaForField_Some [OF n] f h(2) show "(sf_Name f, sf_Name f) \<in> set (ch_data h)"
      by (force simp: buildData_def List.map_filter_def)
    have "ld_entries (new_loader metas) (sf_Name f) = Some new_entry" using n by (simp add: new_loader_def)
    then show "\<exists>e. ld_entries (ch_core h) (sf_Name f) = Some e \<and> (initialFetch \<longrightarrow> ce_lastFetch e = Some now)"
      using n h(1) refresh_fold_fetched [of "sf_Name f" metas "new_loader metas" now fetched]
      by (auto simp: refreshAll_def new_loader_def)
  qed
  ultimately show ?thesis using m by blast
qed

theorem New_complete_witness:
  "\<exists>h metas. cl_New (\<lambda>b. (0 :: int) < b) 2 id Inr Inr ''App''
       (Some [\<lparr>sf_Name = ''URL'', sf_getter = Some (), sf_tag = Some ''folder=a,key=k''\<rparr>])
       \<lparr>cl_Provider = ''etcd'', cl_Endpoint = ''h:1'', cl_AuthClientID = ''u'', cl_AuthClientSecret = ''p'',
         cl_Namespace = ''n'', cl_Environment = '''',
         cl_Watcher = \<lparr>PollingInterval = 0, PollingMaxRetries = 0, PollingRetryDelay = 0, PollingRetryBackoff = 0\<rparr>\<rparr>
       None True 5 (\<lambda>_. Inr (1 :: int, ''r'')) = Inr h
     \<and> loader_reach metas (ch_core h) \<and> (''URL'', ''URL'') \<in> set (ch_data h)"
  (is "\<exists>h metas. ?new = Inr h \<and> _")
proof -
  have "map_sum (\<lambda>_. ()) id (parseConfTag id ''folder=a,key=k'') = Inr (''a'', ''k'')" by code_simp
  then have tag: "parseConfTag id ''folder=a,key=k'' = Inr (''a'', ''k'')"
    by (cases "parseConfTag id ''folder=a,key=k''") simp_all
  have "\<exists>h. ?new = Inr h"
    by (simp add: cl_New_def Let_def applyDefaults_def cl_validate_def DefaultWatcherConfig_def newClient_def tag)
  then obtain h where h: "?new = Inr h" by blast
  with New_complete [OF this] show ?thesis by auto
qed

subsection \<open>Health signals\<close>

lemma poll_frame: "ld_byKey (poll now fetched panic l) = ld_byKey l"
  by (auto simp: poll_def refreshAll_def markAllStale_def split: option.split)

lemma get_frame: "ld_byKey (fst (get quoteQ now fetched name l)) = ld_byKey l"
  by (auto simp: get_def Let_def case_prod_beta split: option.split)

lemma reach_byKey: "loader_reach metas l \<Longrightarrow> ld_byKey l = ld_byKey (new_loader metas :: ('v, 'ty) loader)"
  for l :: "('v, 'ty) loader"
  by (induction rule: loader_reach.induct) (simp_all add: poll_frame get_frame)

lemma byKey_fold:
  "p \<notin> (\<lambda>g. gm_folder g @ CHR ''/'' # gm_key g) ` set ms \<Longrightarrow>
   foldl (\<lambda>m g. m(gm_folder g @ CHR ''/'' # gm_key g \<mapsto> gm_name g)) m0 ms p = m0 p"
  by (induction ms arbitrary: m0) auto

lemma byKey_finds:
  "m \<in> set ms \<Longrightarrow> distinct (map (\<lambda>g. gm_folder g @ CHR ''/'' # gm_key g) ms) \<Longrightarrow>
   foldl (\<lambda>m g. m(gm_folder g @ CHR ''/'' # gm_key g \<mapsto> gm_name g)) m0 ms (gm_folder m @ CHR ''/'' # gm_key m) = Some (gm_name m)"
  by (induction ms arbitrary: m0) (auto simp: byKey_fold)

text \<open>
  The health signals agree. When no two fields have the same folder/key path,
  \<open>StaleReason\<close> of a field's folder and key is exactly the error its own entry carries
  while stale, and \<open>IsStale\<close> holds just when some field has a stale reason, after any
  history of polls, panics and reads.
\<close>

theorem StaleReason_agrees:
  assumes "loader_reach metas l" and "distinct (map (\<lambda>g. gm_folder g @ ''/'' @ gm_key g) metas)"
  shows "(\<forall>m \<in> set metas. \<exists>e. ld_entries l (gm_name m) = Some e
        \<and> StaleReason l (gm_folder m) (gm_key m) = (if ce_stale e then ce_fetchErr e else nil))
    \<and> (IsStale l \<longleftrightarrow> (\<exists>m \<in> set metas. StaleReason l (gm_folder m) (gm_key m) \<noteq> nil))"
proof -
  from loader_reach_inv [OF assms(1)] have inv: "loader_inv l" "ld_metas l = metas" by auto
  have entries: "\<exists>e. ld_entries l (gm_name m) = Some e
      \<and> StaleReason l (gm_folder m) (gm_key m) = (if ce_stale e then ce_fetchErr e else nil)" if "m \<in> set metas" for m
  proof -
    have "ld_byKey l (gm_folder m @ ''/'' @ gm_key m) = Some (gm_name m)"
      using byKey_finds [OF that, of Map.empty] assms(2) reach_byKey [OF assms(1)] by (simp add: new_loader_def)
    moreover have "gm_name m \<in> dom (ld_entries l)" using inv that by (auto simp: loader_inv_def)
    ultimately show ?thesis by (auto simp: StaleReason_def)
  qed
  have stale: "ce_fetchErr e \<noteq> nil" if "e \<in> ran (ld_entries l)" "ce_stale e" for e
    using that inv by (auto simp: loader_inv_def entry_inv_def)
  have "IsStale l \<longleftrightarrow> (\<exists>m \<in> set metas. \<exists>e. ld_entries l (gm_name m) = Some e \<and> ce_stale e)"
  proof
    assume "IsStale l"
    then obtain e n where e: "ld_entries l n = Some e" "ce_stale e" by (auto simp: IsStale_def ran_def)
    then have "n \<in> gm_name ` set metas" using inv by (auto simp: loader_inv_def)
    with e show "\<exists>m \<in> set metas. \<exists>e. ld_entries l (gm_name m) = Some e \<and> ce_stale e" by auto
  qed (auto simp: IsStale_def ran_def)
  also have "\<dots> \<longleftrightarrow> (\<exists>m \<in> set metas. StaleReason l (gm_folder m) (gm_key m) \<noteq> nil)"
    using entries stale by (metis option.inject ranI)
  finally show ?thesis using entries by blast
qed

theorem StaleReason_agrees_witness:
  "StaleReason (poll 2 (\<lambda>_. Inl ErrProviderFailed) None (poll 1 (\<lambda>_. Inr (42 :: int, ''r1'')) None (new_loader one_meta))) ''f'' ''k''
     = Some ErrProviderFailed"
  (is "StaleReason ?l _ _ = _")
proof -
  have "loader_reach one_meta ?l" by (intro polled fresh)
  moreover have "distinct (map (\<lambda>g. gm_folder g @ ''/'' @ gm_key g) one_meta)" by (simp add: one_meta_def)
  ultimately have "\<exists>e. ld_entries ?l ''A'' = Some e
      \<and> StaleReason ?l ''f'' ''k'' = (if ce_stale e then ce_fetchErr e else nil)"
    using StaleReason_agrees [of one_meta ?l] by (simp add: one_meta_def)
  moreover have "map_option (\<lambda>e. (ce_stale e, ce_fetchErr e)) (ld_entries ?l ''A'') = Some (True, Some ErrProviderFailed)"
    by (simp add: poll_def refreshAll_def refresh_meta_def refreshOne_def store_result_def new_loader_def one_meta_def
        new_entry_def ErrProviderFailed_def ErrNotFound_def cl_err_def sentinel_error_def plain_def)
  ultimately show ?thesis by auto
qed

text \<open>Stop is idempotent: the client is closed once, and only the first call reports its error.\<close>

lemma cl_Stop_once:
  "\<not> ch_stopped h \<Longrightarrow> snd (cl_Stop c h) = c \<and> ch_closes (fst (cl_Stop c' (fst (cl_Stop c h)))) = ch_closes h + 1
   \<and> snd (cl_Stop c' (fst (cl_Stop c h))) = nil"
  by (simp add: cl_Stop_def)

text \<open>
  A value that does not decode is final: the fetch returns an error that matches \<open>ErrParseFailed\<close> at once, without a retry
  and without asking the default folder, and the error text quotes at most 64 bytes of the value.
\<close>

theorem parse_failure_final:
  assumes "fe_fetch (envs folder) 0 = Inr (raw, revn)" and "unmarshal raw = Inl err"
  shows "\<exists>pe. fetchWithFallback scaleBy w envs (parseValue unmarshal typeName) folder = Inl pe \<and> errors_Is pe ErrParseFailed
    \<and> fetchRetried scaleBy w (envs folder) (parseValue unmarshal typeName) = (Inl pe, [])
    \<and> length (cl_truncate raw 64) \<le> 67"
proof -
  obtain t where p: "parseValue unmarshal typeName raw = Inl (errorf t [ErrParseFailed])"
    using assms(2) by (simp add: parseValue_def)
  have "fetchRetried scaleBy w (envs folder) (parseValue unmarshal typeName) = (Inl (errorf t [ErrParseFailed]), [])"
    using assms(1) p by (simp add: fetchRetried_def fetch_loop.simps)
  moreover have "errorf t [ErrParseFailed] \<noteq> ErrNotFound" by (simp add: errorf_def ErrNotFound_def sentinel_error_def)
  ultimately show ?thesis
    by (simp add: fetchWithFallback_def cl_truncate_def ErrParseFailed_def cl_err_def)
qed

theorem parse_failure_final_witness:
  "\<exists>pe. fetchWithFallback (\<lambda>_ d. d) \<lparr>PollingInterval = 1, PollingMaxRetries = 3, PollingRetryDelay = 1, PollingRetryBackoff = 2 :: nat\<rparr>
      (\<lambda>_. \<lparr>fe_fetch = (\<lambda>_. Inr (''x'', ''1'')), fe_ctxDone = (\<lambda>_. nil)\<rparr>) (parseValue (\<lambda>_. Inl ErrNotFound :: gerr + nat) ''int'') ''app'' = Inl pe
     \<and> errors_Is pe ErrParseFailed"
  using parse_failure_final [where envs = "\<lambda>_. \<lparr>fe_fetch = (\<lambda>_. Inr (''x'', ''1'')), fe_ctxDone = (\<lambda>_. nil)\<rparr>" and folder = "''app''"
      and raw = "''x''" and revn = "''1''" and unmarshal = "\<lambda>_. Inl ErrNotFound :: gerr + nat" and err = ErrNotFound]
  by fastforce

end
