(* ===== verification/Redis_Client.thy ===== *)
theory Redis_Client
  imports Telemetry Go_Net "HOL-Library.Word"
begin

text \<open>
  Package \<open>redis\<close>: configuration with its topology rules, the endpoint reported and dialed, the
  TLS settings, the instrumentation of commands and pipelines, the pool-metrics poller with its
  32-bit counters, and Close. The go-redis client, its server, the file system, the certificate
  parsers and the Unicode case tables are parameters.
\<close>

subsection \<open>Configuration\<close>

record rd_config =
  rd_Mode :: string
  rd_Host :: string
  rd_Port :: int
  rd_Addrs :: "string list"
  rd_Username :: string
  rd_Password :: string
  rd_DB :: int
  rd_MasterName :: string
  rd_SentinelUsername :: string
  rd_SentinelPassword :: string
  rd_MaxRedirects :: int
  rd_ReadOnly :: bool
  rd_RouteByLatency :: bool
  rd_RouteRandomly :: bool
  rd_TLSEnabled :: bool
  rd_TLSInsecureSkipVerify :: bool
  rd_TLSServerName :: string
  rd_TLSCACert :: string
  rd_TLSCert :: string
  rd_TLSKey :: string
  rd_DialTimeout :: duration
  rd_ReadTimeout :: duration
  rd_WriteTimeout :: duration
  rd_ConnectTimeout :: duration
  rd_PoolSize :: int
  rd_MinIdleConns :: int
  rd_MaxIdleConns :: int
  rd_ConnMaxIdleTime :: duration
  rd_ConnMaxLifetime :: duration

definition ModeStandalone :: string where "ModeStandalone = ''standalone''"
definition ModeSentinel :: string where "ModeSentinel = ''sentinel''"
definition ModeCluster :: string where "ModeCluster = ''cluster''"

lemmas mode_defs = ModeStandalone_def ModeSentinel_def ModeCluster_def

definition rd_defaultPort :: int where "rd_defaultPort = 6379"
definition defaultSentinelPort :: int where "defaultSentinelPort = 26379"
definition rd_defaultConnectTimeout :: duration where "rd_defaultConnectTimeout = 5 * second"
definition defaultMaxRedirects :: int where "defaultMaxRedirects = 3"

lemmas rd_consts = rd_defaultPort_def defaultSentinelPort_def rd_defaultConnectTimeout_def defaultMaxRedirects_def
  second_def millisecond_def

text \<open>The address one entry of Addrs becomes: a port is added to an entry without a colon.\<close>

definition addr_with_port :: "string \<Rightarrow> int \<Rightarrow> string \<Rightarrow> string" where
  "addr_with_port mode port0 entry =
     (let a = trim_space entry in
      if a \<noteq> '''' \<and> \<not> contains a '':'' then
        (if mode = ModeSentinel then JoinHostPort a (itoa defaultSentinelPort)
         else let port = (if port0 = 0 then rd_defaultPort else port0) in JoinHostPort a (itoa port))
      else entry)"

text \<open>
  SetDefaults, with the caller's Addrs as it is afterwards: the receiver is a copy of the
  struct, but the slice shares its array with the caller, and the loop writes to it. Only the
  slice made from Host is new.
\<close>

definition rd_SetDefaults :: "(string \<Rightarrow> string) \<Rightarrow> rd_config \<Rightarrow> rd_config \<times> string list" where
  "rd_SetDefaults uni c =
     (let m = to_lower uni (trim_space (rd_Mode c));
          mode = (if m = '''' then
                    (if rd_MasterName c \<noteq> '''' then ModeSentinel
                     else if length (rd_Addrs c) > 1 then ModeCluster else ModeStandalone)
                  else m);
          port = (if rd_Port c = 0 \<and> rd_Host c \<noteq> '''' then rd_defaultPort else rd_Port c);
          fresh = (rd_Addrs c = [] \<and> rd_Host c \<noteq> '''');
          addrs0 = (if fresh then [JoinHostPort (rd_Host c) (itoa (if port = 0 then rd_defaultPort else port))] else rd_Addrs c);
          addrs = map (addr_with_port mode port) addrs0;
          connect = (if rd_ConnectTimeout c \<le> 0 then rd_defaultConnectTimeout else rd_ConnectTimeout c);
          redirects = (if mode = ModeCluster \<and> rd_MaxRedirects c \<le> 0 then defaultMaxRedirects else rd_MaxRedirects c)
      in (c\<lparr>rd_Mode := mode, rd_Port := port, rd_Addrs := addrs, rd_ConnectTimeout := connect, rd_MaxRedirects := redirects\<rparr>,
          if fresh then rd_Addrs c else addrs))"

text \<open>\<open>quoteQ\<close> is the \<open>%q\<close> form of a string and \<open>durV\<close> the \<open>%v\<close> form of a duration.\<close>

definition mode_problems :: "(string \<Rightarrow> string) \<Rightarrow> rd_config \<Rightarrow> string list" where
  "mode_problems quoteQ c =
     (if rd_Mode c = ModeSentinel then
        (if rd_MasterName c = '''' then [''redis: master_name is required in sentinel mode''] else [])
        @ (if rd_Addrs c = [] then [''redis: at least one sentinel address in addrs is required in sentinel mode''] else [])
      else if rd_Mode c = ModeCluster then
        (if rd_Addrs c = [] then [''redis: at least one cluster seed address in addrs is required in cluster mode''] else [])
        @ (if rd_DB c \<noteq> 0 then [''redis: cluster mode only supports DB 0, got '' @ itoa (rd_DB c)] else [])
      else if rd_Mode c = ModeStandalone then
        (if rd_Addrs c = [] \<and> rd_Host c = '''' then [''redis: host or addrs is required''] else [])
        @ (if rd_Host c \<noteq> '''' \<and> (rd_Port c < 1 \<or> rd_Port c > 65535)
           then [''redis: port '' @ itoa (rd_Port c) @ '' is out of range (1-65535)''] else [])
      else [''redis: unknown mode '' @ quoteQ (rd_Mode c) @ '' (must be standalone, sentinel, or cluster)''])"

definition negative :: "string \<Rightarrow> (int \<Rightarrow> string) \<Rightarrow> int \<Rightarrow> string list" where
  "negative name render v = (if v < 0 then [''redis: '' @ name @ '' must not be negative, got '' @ render v] else [])"

definition rd_Validate :: "(string \<Rightarrow> string) \<Rightarrow> (duration \<Rightarrow> string) \<Rightarrow> rd_config \<Rightarrow> error" where
  "rd_Validate quoteQ durV c = errors_Join (map errors_New
     (mode_problems quoteQ c
      @ negative ''DB'' itoa (rd_DB c)
      @ negative ''DialTimeout'' durV (rd_DialTimeout c)
      @ negative ''ReadTimeout'' durV (rd_ReadTimeout c)
      @ negative ''WriteTimeout'' durV (rd_WriteTimeout c)
      @ negative ''ConnectTimeout'' durV (rd_ConnectTimeout c)
      @ negative ''PoolSize'' itoa (rd_PoolSize c)
      @ negative ''MinIdleConns'' itoa (rd_MinIdleConns c)
      @ negative ''MaxIdleConns'' itoa (rd_MaxIdleConns c)
      @ (if rd_PoolSize c > 0 \<and> rd_MinIdleConns c > rd_PoolSize c
         then [''redis: MinIdleConns ('' @ itoa (rd_MinIdleConns c) @ '') must not exceed PoolSize ('' @ itoa (rd_PoolSize c) @ '')''] else [])
      @ (if rd_PoolSize c > 0 \<and> rd_MaxIdleConns c > rd_PoolSize c
         then [''redis: MaxIdleConns ('' @ itoa (rd_MaxIdleConns c) @ '') must not exceed PoolSize ('' @ itoa (rd_PoolSize c) @ '')''] else [])
      @ (if rd_MaxIdleConns c > 0 \<and> rd_MinIdleConns c > rd_MaxIdleConns c
         then [''redis: MinIdleConns ('' @ itoa (rd_MinIdleConns c) @ '') must not exceed MaxIdleConns ('' @ itoa (rd_MaxIdleConns c) @ '')''] else [])
      @ (if (rd_TLSCert c = '''') \<noteq> (rd_TLSKey c = '''') then [''redis: TLSCert and TLSKey must both be set or both be empty''] else [])
      @ (if \<not> rd_TLSEnabled c \<and> (rd_TLSCACert c \<noteq> '''' \<or> rd_TLSCert c \<noteq> '''' \<or> rd_TLSKey c \<noteq> '''')
         then [''redis: TLSCACert, TLSCert, and TLSKey require TLSEnabled to be true''] else [])
      @ negative ''ConnMaxIdleTime'' durV (rd_ConnMaxIdleTime c)
      @ negative ''ConnMaxLifetime'' durV (rd_ConnMaxLifetime c)))"

subsection \<open>Endpoints, TLS and the client\<close>

definition rd_serverAddress :: "rd_config \<Rightarrow> string \<times> int" where
  "rd_serverAddress cfg =
     (case rd_Addrs cfg of
        [] \<Rightarrow> (rd_Host cfg, rd_Port cfg)
      | a # _ \<Rightarrow>
          (case SplitHostPort a of
             Some (host, portStr) \<Rightarrow> (case atoi portStr of (p, ok) \<Rightarrow> (host, if ok then p else rd_Port cfg))
           | None \<Rightarrow> (a, rd_Port cfg)))"

text \<open>\<open>tls.VersionTLS12\<close> is the minimum in every case. The pool and the key pair are opaque.\<close>

record ('pool, 'cert) tls_config =
  t_InsecureSkipVerify :: bool
  t_ServerName :: string
  t_MinVersion :: nat
  t_RootCAs :: "'pool option"
  t_Certificates :: "'cert list"

record ('pool, 'cert) tls_lib =
  readFile :: "string \<Rightarrow> gerr + string"
  appendCerts :: "string \<Rightarrow> 'pool option"
  x509KeyPair :: "string \<Rightarrow> string \<Rightarrow> gerr + 'cert"

definition tls_server_name :: "rd_config \<Rightarrow> string" where
  "tls_server_name cfg =
     (let s1 = (if rd_TLSServerName cfg = '''' then rd_Host cfg else rd_TLSServerName cfg) in
      if s1 = '''' \<and> rd_Addrs cfg \<noteq> [] then
        (case SplitHostPort (hd (rd_Addrs cfg)) of Some (host, _) \<Rightarrow> host | None \<Rightarrow> hd (rd_Addrs cfg))
      else s1)"

text \<open>PEM data as it is, anything else as a file name; \<open>what\<close> names it in the error.\<close>

definition pem_data :: "(string \<Rightarrow> gerr + string) \<Rightarrow> string \<Rightarrow> string \<Rightarrow> gerr + string" where
  "pem_data rf what v =
     (if contains v ''-----BEGIN'' then Inr v
      else case rf v of
        Inl e \<Rightarrow> Inl (errorf (''read '' @ what @ '': '' @ error_string e) [e])
      | Inr d \<Rightarrow> Inr d)"

definition buildTLSConfig :: "('pool, 'cert) tls_lib \<Rightarrow> rd_config \<Rightarrow> gerr + ('pool, 'cert) tls_config option" where
  "buildTLSConfig lib cfg =
     (if \<not> rd_TLSEnabled cfg then Inr None
      else
        (let t0 = \<lparr>t_InsecureSkipVerify = rd_TLSInsecureSkipVerify cfg, t_ServerName = tls_server_name cfg, t_MinVersion = 0x0303,
                   t_RootCAs = None, t_Certificates = []\<rparr>;
             ca = (if rd_TLSCACert cfg = '''' then Inr t0
                   else case pem_data (readFile lib) ''ca cert'' (rd_TLSCACert cfg) of
                     Inl e \<Rightarrow> Inl e
                   | Inr d \<Rightarrow>
                       (case appendCerts lib d of
                          None \<Rightarrow> Inl (errors_New ''failed to parse ca cert pem'')
                        | Some pool \<Rightarrow> Inr (t0\<lparr>t_RootCAs := Some pool\<rparr>)))
         in case ca of
              Inl e \<Rightarrow> Inl e
            | Inr t1 \<Rightarrow>
                if rd_TLSCert cfg = '''' \<or> rd_TLSKey cfg = '''' then Inr (Some t1)
                else (case pem_data (readFile lib) ''client cert'' (rd_TLSCert cfg) of
                        Inl e \<Rightarrow> Inl e
                      | Inr cert \<Rightarrow>
                          (case pem_data (readFile lib) ''client key'' (rd_TLSKey cfg) of
                             Inl e \<Rightarrow> Inl e
                           | Inr key \<Rightarrow>
                               (case x509KeyPair lib cert key of
                                  Inl e \<Rightarrow> Inl (errorf (''parse client key pair: '' @ error_string e) [e])
                                | Inr kp \<Rightarrow> Inr (Some (t1\<lparr>t_Certificates := [kp]\<rparr>)))))))"

text \<open>The options handed to go-redis: the settings every topology shares, and those of each.\<close>

record 'tls conn_opts =
  co_Username :: string
  co_Password :: string
  co_TLSConfig :: 'tls
  co_DialTimeout :: duration
  co_ReadTimeout :: duration
  co_WriteTimeout :: duration
  co_PoolSize :: int
  co_MinIdleConns :: int
  co_MaxIdleConns :: int
  co_ConnMaxIdleTime :: duration
  co_ConnMaxLifetime :: duration

record failover_opts =
  fo_MasterName :: string
  fo_SentinelAddrs :: "string list"
  fo_SentinelUsername :: string
  fo_SentinelPassword :: string
  fo_DB :: int
  fo_ReplicaOnly :: bool
  fo_RouteByLatency :: bool
  fo_RouteRandomly :: bool

record cluster_opts =
  cl_Addrs :: "string list"
  cl_MaxRedirects :: int
  cl_ReadOnly :: bool
  cl_RouteByLatency :: bool
  cl_RouteRandomly :: bool

datatype 'tls underlying =
    FailoverClient failover_opts "'tls conn_opts"
  | FailoverClusterClient failover_opts "'tls conn_opts"
  | ClusterClient cluster_opts "'tls conn_opts"
  | StandaloneClient string int "'tls conn_opts"

definition conn_opts_of :: "rd_config \<Rightarrow> 'tls \<Rightarrow> 'tls conn_opts" where
  "conn_opts_of cfg tls = \<lparr>co_Username = rd_Username cfg, co_Password = rd_Password cfg, co_TLSConfig = tls,
     co_DialTimeout = rd_DialTimeout cfg, co_ReadTimeout = rd_ReadTimeout cfg, co_WriteTimeout = rd_WriteTimeout cfg,
     co_PoolSize = rd_PoolSize cfg, co_MinIdleConns = rd_MinIdleConns cfg, co_MaxIdleConns = rd_MaxIdleConns cfg,
     co_ConnMaxIdleTime = rd_ConnMaxIdleTime cfg, co_ConnMaxLifetime = rd_ConnMaxLifetime cfg\<rparr>"

definition createUnderlyingClient :: "rd_config \<Rightarrow> 'tls \<Rightarrow> 'tls underlying" where
  "createUnderlyingClient cfg tls =
     (if rd_Mode cfg = ModeSentinel then
        (let opts = \<lparr>fo_MasterName = rd_MasterName cfg, fo_SentinelAddrs = rd_Addrs cfg, fo_SentinelUsername = rd_SentinelUsername cfg,
               fo_SentinelPassword = rd_SentinelPassword cfg, fo_DB = rd_DB cfg, fo_ReplicaOnly = rd_ReadOnly cfg,
               fo_RouteByLatency = rd_RouteByLatency cfg, fo_RouteRandomly = rd_RouteRandomly cfg\<rparr>
         in if rd_ReadOnly cfg \<or> rd_RouteByLatency cfg \<or> rd_RouteRandomly cfg
            then FailoverClusterClient opts (conn_opts_of cfg tls) else FailoverClient opts (conn_opts_of cfg tls))
      else if rd_Mode cfg = ModeCluster then
        ClusterClient \<lparr>cl_Addrs = rd_Addrs cfg, cl_MaxRedirects = rd_MaxRedirects cfg, cl_ReadOnly = rd_ReadOnly cfg,
            cl_RouteByLatency = rd_RouteByLatency cfg, cl_RouteRandomly = rd_RouteRandomly cfg\<rparr> (conn_opts_of cfg tls)
      else
        StandaloneClient (case rd_Addrs cfg of a # _ \<Rightarrow> a
                          | [] \<Rightarrow> if rd_Host cfg \<noteq> '''' then JoinHostPort (rd_Host cfg) (itoa (rd_Port cfg)) else '''')
          (rd_DB cfg) (conn_opts_of cfg tls))"

record rd_meta =
  serverAddr :: string
  rm_serverPort :: int
  namespace :: string

text \<open>
  New: \<open>ping\<close> is the result of the ping through the hooked client. The result is the error and
  whether the client was closed, or the client, its metadata and the name of the polled pool.
\<close>

definition rd_New ::
  "(string \<Rightarrow> string) \<Rightarrow> (string \<Rightarrow> string) \<Rightarrow> (duration \<Rightarrow> string) \<Rightarrow> ('pool, 'cert) tls_lib
   \<Rightarrow> (('pool, 'cert) tls_config option underlying \<Rightarrow> duration \<Rightarrow> error) \<Rightarrow> rd_config \<Rightarrow> duration
   \<Rightarrow> (gerr \<times> bool) + (('pool, 'cert) tls_config option underlying \<times> rd_meta \<times> string option)" where
  "rd_New uni quoteQ durV lib ping cfg0 interval =
     (let cfg = fst (rd_SetDefaults uni cfg0) in
      case rd_Validate quoteQ durV cfg of
        Some e \<Rightarrow> Inl (e, False)
      | None \<Rightarrow>
          (case buildTLSConfig lib cfg of
             Inl e \<Rightarrow> Inl (errorf (''redis: tls: '' @ error_string e) [e], False)
           | Inr tls \<Rightarrow>
               (let cli = createUnderlyingClient cfg tls;
                    (host, port) = rd_serverAddress cfg;
                    m = \<lparr>serverAddr = host, rm_serverPort = port, namespace = itoa (rd_DB cfg)\<rparr>
                in case ping cli (rd_ConnectTimeout cfg) of
                     Some e \<Rightarrow> Inl (errorf (''redis: ping: '' @ error_string e) [e], True)
                   | None \<Rightarrow>
                       Inr (cli, m, if interval > 0 then Some (JoinHostPort host (itoa port) @ ''/'' @ namespace m) else None))))"

subsection \<open>Instrumentation\<close>

text \<open>A command: its name, its arguments (the name is the first) and the result it holds.\<close>

record rcmd =
  cmd_Name :: string
  cmd_Args :: "string list"
  cmd_Err :: error

text \<open>\<open>redis.Nil\<close> is itself a server reply; \<open>redis.ErrPoolTimeout\<close> is not.\<close>

definition redis_Nil :: gerr where
  "redis_Nil = GErr ((plain ''redis: nil'')\<lparr>sentinel := Some ''redis.Nil'', redis_reply := True\<rparr>) []"

definition redis_ErrPoolTimeout :: gerr where
  "redis_ErrPoolTimeout = sentinel_error ''redis.ErrPoolTimeout'' ''redis: connection pool timeout''"

definition commandName :: "(string \<Rightarrow> string) \<Rightarrow> rcmd \<Rightarrow> string" where
  "commandName uni cmd = to_upper uni (cmd_Name cmd)"

definition queryText :: "(string \<Rightarrow> string) \<Rightarrow> rcmd \<Rightarrow> string" where
  "queryText uni cmd =
     (let op = commandName uni cmd; n = length (cmd_Args cmd) - 1 in
      if n > 0 then op @ concat (replicate n '' ?'') else op)"

definition maxPipelineCommandsInText :: nat where "maxPipelineCommandsInText = 50"

definition queuedCommands :: "(string \<Rightarrow> string) \<Rightarrow> rcmd list \<Rightarrow> rcmd list" where
  "queuedCommands uni cmds = filter (\<lambda>c. commandName uni c \<noteq> ''MULTI'' \<and> commandName uni c \<noteq> ''EXEC'') cmds"

definition pipelineText :: "(string \<Rightarrow> string) \<Rightarrow> rcmd list \<Rightarrow> string" where
  "pipelineText uni cmds =
     (let truncated = length cmds > maxPipelineCommandsInText;
          limit = (if truncated then maxPipelineCommandsInText else length cmds);
          parts = map (queryText uni) (take limit cmds)
            @ (if truncated then [''... ('' @ itoa (int (length cmds - limit)) @ '' more commands)''] else [])
      in join_with ''; '' parts)"

definition isUpperASCII :: "string \<Rightarrow> bool" where
  "isUpperASCII s = (if s = '''' then False else list_all (byte_between CHR ''A'' CHR ''Z'') s)"

definition redisErrorCode :: "gerr \<Rightarrow> string" where
  "redisErrorCode err =
     (case errors_AsNode redis_reply err of
        None \<Rightarrow> ''''
      | Some server \<Rightarrow>
          (let msg = error_string server;
               token = (case str_index msg '' '' of Some i \<Rightarrow> if i > 0 then take i msg else msg | None \<Rightarrow> msg)
           in if isUpperASCII token then token else ''''))"

definition rd_errorType :: "gerr \<Rightarrow> string" where
  "rd_errorType err =
     (if errors_Is err context_DeadlineExceeded then ''timeout''
      else if errors_Is err context_Canceled then ''canceled''
      else if errors_As net_timeout err = Some True then ''timeout''
      else if errors_Is err redis_ErrPoolTimeout then ''timeout''
      else if redisErrorCode err \<noteq> '''' then redisErrorCode err
      else ''_OTHER'')"

definition rd_attrs :: "rd_meta \<Rightarrow> string \<Rightarrow> string \<Rightarrow> string \<Rightarrow> attrs" where
  "rd_attrs m op code errType =
     (let a0 = [''db.system.name'' \<mapsto> VStr ''redis'', ''db.operation.name'' \<mapsto> VStr op];
          a1 = opt_attr (namespace m \<noteq> '''') ''db.namespace'' (VStr (namespace m)) a0;
          a2 = opt_attr (serverAddr m \<noteq> '''') ''server.address'' (VStr (serverAddr m)) a1;
          a3 = opt_attr (rm_serverPort m > 0) ''server.port'' (VInt (rm_serverPort m)) a2;
          a4 = opt_attr (code \<noteq> '''') ''db.response.status_code'' (VStr code) a3
      in opt_attr (errType \<noteq> '''') ''error.type'' (VStr errType) a4)"

text \<open>An error that is not \<open>redis.Nil\<close>.\<close>

definition real_err :: "error \<Rightarrow> bool" where
  "real_err err = (case err of None \<Rightarrow> False | Some e \<Rightarrow> \<not> errors_Is e redis_Nil)"

definition rd_metricDuration :: string where "rd_metricDuration = ''db.client.operation.duration''"

definition rd_instrument :: "(string \<Rightarrow> string) \<Rightarrow> rd_meta \<Rightarrow> rcmd \<Rightarrow> error \<Rightarrow> error \<times> event list" where
  "rd_instrument uni m cmd err =
     (let op = commandName uni cmd;
          (status, code, errType) =
            (if real_err err then ([SpanStatusError (error_string (the err))], redisErrorCode (the err), rd_errorType (the err))
             else ([], '''', ''''));
          attrs = rd_attrs m op code errType
      in (err, [SpanStart op (rd_attrs m op '''' '''')] @ status
            @ [SpanAttrs (attrs(''db.query.text'' \<mapsto> VStr (queryText uni cmd))), SpanEnd, MetricRecord rd_metricDuration attrs]))"

definition errToReport :: "rcmd list \<Rightarrow> error \<Rightarrow> error" where
  "errToReport cmds err =
     (if real_err err then err
      else first_some (\<lambda>c. if real_err (cmd_Err c) then cmd_Err c else None) cmds)"

definition instrumentPipeline :: "(string \<Rightarrow> string) \<Rightarrow> rd_meta \<Rightarrow> rcmd list \<Rightarrow> error \<Rightarrow> error \<times> event list" where
  "instrumentPipeline uni m cmds err =
     (let op = ''PIPELINE'';
          (status, code, errType) =
            (case errToReport cmds err of
               Some e \<Rightarrow> ([SpanStatusError (error_string e)], redisErrorCode e, rd_errorType e)
             | None \<Rightarrow> ([], '''', ''''));
          queued = queuedCommands uni cmds;
          attrs = rd_attrs m op code errType;
          spanAttrs = opt_attr (length queued \<ge> 2) ''db.operation.batch.size'' (VInt (int (length queued))) attrs
      in (err, [SpanStart op (rd_attrs m op '''' '''')] @ status
            @ [SpanAttrs (spanAttrs(''db.query.text'' \<mapsto> VStr (pipelineText uni queued))), SpanEnd, MetricRecord rd_metricDuration attrs]))"

subsection \<open>The pool poller\<close>

record pool_stats =
  IdleConns :: "32 word"
  TotalConns :: "32 word"
  Timeouts :: "32 word"

record poolPoller =
  pp_pool :: string
  prevIdle :: int
  prevUsed :: int
  prevTimeouts :: "32 word"

definition poolCount :: string where "poolCount = ''db.client.connection.count''"
definition poolTimeouts :: string where "poolTimeouts = ''db.client.connection.timeouts''"

definition pp_attrs :: "poolPoller \<Rightarrow> string \<Rightarrow> attrs" where
  "pp_attrs p st = opt_attr (st \<noteq> '''') ''db.client.connection.state'' (VStr st) [''db.client.connection.pool.name'' \<mapsto> VStr (pp_pool p)]"

definition addCount :: "poolPoller \<Rightarrow> int \<Rightarrow> int \<Rightarrow> event list" where
  "addCount p idleDelta usedDelta =
     (if idleDelta \<noteq> 0 then [MetricAdd poolCount idleDelta (pp_attrs p ''idle'')] else [])
     @ (if usedDelta \<noteq> 0 then [MetricAdd poolCount usedDelta (pp_attrs p ''used'')] else [])"

text \<open>A nil snapshot is skipped. The subtraction of the 32-bit timeouts wraps.\<close>

definition pp_poll :: "poolPoller \<Rightarrow> pool_stats option \<Rightarrow> poolPoller \<times> event list" where
  "pp_poll p snap =
     (case snap of
        None \<Rightarrow> (p, [])
      | Some s \<Rightarrow>
          (let idle = uint (IdleConns s);
               used = uint (TotalConns s) - idle;
               counts = addCount p (idle - prevIdle p) (used - prevUsed p);
               d = uint (Timeouts s - prevTimeouts p)
           in (p\<lparr>prevIdle := idle, prevUsed := used, prevTimeouts := Timeouts s\<rparr>,
               counts @ (if d > 0 then [MetricAdd poolTimeouts d (pp_attrs p '''')] else []))))"

definition withdraw :: "poolPoller \<Rightarrow> poolPoller \<times> event list" where
  "withdraw p = (p\<lparr>prevIdle := 0, prevUsed := 0\<rparr>, addCount p (- prevIdle p) (- prevUsed p))"

text \<open>The polls of a run, one per snapshot: the first at once, the others on ticks, until the stop.\<close>

fun pp_polls :: "poolPoller \<Rightarrow> pool_stats option list \<Rightarrow> poolPoller \<times> event list" where
  "pp_polls p [] = (p, [])"
| "pp_polls p (s # ss) = (case pp_poll p s of (p1, e1) \<Rightarrow> case pp_polls p1 ss of (p2, e2) \<Rightarrow> (p2, e1 @ e2))"

definition pp_run :: "poolPoller \<Rightarrow> pool_stats option \<Rightarrow> pool_stats option list \<Rightarrow> poolPoller \<times> event list" where
  "pp_run p first ticks = (case pp_polls p (first # ticks) of (p1, e1) \<Rightarrow> case withdraw p1 of (p2, e2) \<Rightarrow> (p2, e1 @ e2))"

definition new_poller :: "string \<Rightarrow> poolPoller" where
  "new_poller pool = \<lparr>pp_pool = pool, prevIdle = 0, prevUsed = 0, prevTimeouts = 0\<rparr>"

subsection \<open>Close\<close>

text \<open>
  The wrapper's state: whether it has a stop channel, whether that is closed, and whether the
  once has run. Closing a closed channel panics, which is \<^term>\<open>None\<close>. Close waits for the
  poller, which the closed channel stops, and then closes the pool with the result \<open>inner\<close>.
\<close>

record rd_client =
  hasStop :: bool
  stopClosed :: bool
  onceDone :: bool

definition close_chan :: "rd_client \<Rightarrow> rd_client option" where
  "close_chan c = (if stopClosed c then None else Some (c\<lparr>stopClosed := True\<rparr>))"

definition rd_Close :: "rd_client \<Rightarrow> error \<Rightarrow> (rd_client \<times> error) option" where
  "rd_Close c inner =
     (if onceDone c then Some (c, inner)
      else map_option (\<lambda>c'. (c'\<lparr>onceDone := True\<rparr>, inner)) (if hasStop c then close_chan c else Some c))"

subsection \<open>Configurations that New accepts\<close>

lemma negative_nil [simp]: "negative name render v = [] \<longleftrightarrow> 0 \<le> v"
  by (auto simp: negative_def)

text \<open>What a valid configuration of each topology has, and the bounds every one keeps.\<close>

definition topology_ok :: "rd_config \<Rightarrow> bool" where
  "topology_ok c \<longleftrightarrow>
     rd_Mode c = ModeSentinel \<and> rd_MasterName c \<noteq> '''' \<and> rd_Addrs c \<noteq> []
     \<or> rd_Mode c = ModeCluster \<and> rd_Addrs c \<noteq> [] \<and> rd_DB c = 0
     \<or> rd_Mode c = ModeStandalone \<and> (rd_Addrs c \<noteq> [] \<or> rd_Host c \<noteq> '''') \<and> (rd_Host c \<noteq> '''' \<longrightarrow> 1 \<le> rd_Port c \<and> rd_Port c \<le> 65535)"

definition pool_ok :: "rd_config \<Rightarrow> bool" where
  "pool_ok c \<longleftrightarrow> 0 \<le> rd_PoolSize c \<and> 0 \<le> rd_MinIdleConns c \<and> 0 \<le> rd_MaxIdleConns c
     \<and> (0 < rd_PoolSize c \<longrightarrow> rd_MinIdleConns c \<le> rd_PoolSize c \<and> rd_MaxIdleConns c \<le> rd_PoolSize c)
     \<and> (0 < rd_MaxIdleConns c \<longrightarrow> rd_MinIdleConns c \<le> rd_MaxIdleConns c)"

definition tls_ok :: "rd_config \<Rightarrow> bool" where
  "tls_ok c \<longleftrightarrow> (rd_TLSCert c = '''' \<longleftrightarrow> rd_TLSKey c = '''')
     \<and> (rd_TLSEnabled c \<or> rd_TLSCACert c = '''' \<and> rd_TLSCert c = '''' \<and> rd_TLSKey c = '''')"

definition times_ok :: "rd_config \<Rightarrow> bool" where
  "times_ok c \<longleftrightarrow> 0 \<le> rd_DialTimeout c \<and> 0 \<le> rd_ReadTimeout c \<and> 0 \<le> rd_WriteTimeout c \<and> 0 \<le> rd_ConnectTimeout c
     \<and> 0 \<le> rd_ConnMaxIdleTime c \<and> 0 \<le> rd_ConnMaxLifetime c"

lemma mode_problems_nil: "mode_problems quoteQ c = [] \<longleftrightarrow> topology_ok c"
  by (auto simp: mode_problems_def topology_ok_def mode_defs)

text \<open>
  \<open>Validate\<close> is exact. A configuration passes if and only if it names what its topology
  needs (a master and sentinel addresses; cluster seeds and database 0; a host with a port in
  range, or an address), its database and times are not negative, its pool bounds are
  consistent with each other, and its TLS material is complete and enabled.
\<close>

theorem rd_Validate_exact:
  "rd_Validate quoteQ durV c = nil \<longleftrightarrow> topology_ok c \<and> 0 \<le> rd_DB c \<and> times_ok c \<and> pool_ok c \<and> tls_ok c"
  unfolding rd_Validate_def errors_Join_nil_iff map_is_Nil_conv append_is_Nil_conv negative_nil mode_problems_nil if_Nil_simps
  by (auto simp: times_ok_def pool_ok_def tls_ok_def)

subsection \<open>Defaults\<close>

lemma JoinHostPort_colon [simp]: "CHR '':'' \<in> set (JoinHostPort h p)"
  by (simp add: JoinHostPort_def)

lemma trim_colon: "CHR '':'' \<in> set s \<Longrightarrow> CHR '':'' \<in> set (trim_space s)"
  by (rule trim_space_keeps) (simp_all add: space_seqs_def)

lemma addr_with_port_colon: "CHR '':'' \<in> set a \<Longrightarrow> addr_with_port m p a = a"
  using trim_colon [of a] by (auto simp: addr_with_port_def Let_def)

lemma addr_with_port_cases: "addr_with_port m p a = a \<or> CHR '':'' \<in> set (addr_with_port m p a)"
  by (simp add: addr_with_port_def Let_def)

lemma addr_with_port_idem: "addr_with_port m p (addr_with_port m p a) = addr_with_port m p a"
  using addr_with_port_cases [of m p a] addr_with_port_colon [of "addr_with_port m p a" m p] by auto

lemma rd_SetDefaults_fixed:
  assumes "to_lower uni (trim_space (rd_Mode d)) = rd_Mode d" and "rd_Mode d \<noteq> ''''"
    and "map (addr_with_port (rd_Mode d) (rd_Port d)) (rd_Addrs d) = rd_Addrs d"
    and "rd_Host d \<noteq> '''' \<Longrightarrow> rd_Port d \<noteq> 0" and "rd_Host d \<noteq> '''' \<Longrightarrow> rd_Addrs d \<noteq> []"
    and "0 < rd_ConnectTimeout d" and "rd_Mode d = ModeCluster \<Longrightarrow> 0 < rd_MaxRedirects d"
  shows "rd_SetDefaults uni d = (d, rd_Addrs d)"
proof -
  have "(if rd_Port d = 0 \<and> rd_Host d \<noteq> '''' then rd_defaultPort else rd_Port d) = rd_Port d"
    "(rd_Addrs d = [] \<and> rd_Host d \<noteq> '''') = False" "rd_ConnectTimeout d \<le> 0 \<longleftrightarrow> False"
    "(rd_Mode d = ModeCluster \<and> rd_MaxRedirects d \<le> 0) = False"
    using assms by auto
  with assms(1-3) show ?thesis by (simp add: rd_SetDefaults_def Let_def del: de_Morgan_conj)
qed

lemma modes_fixed: "m \<in> {ModeSentinel, ModeCluster, ModeStandalone} \<Longrightarrow> to_lower uni (trim_space m) = m \<and> m \<noteq> ''''"
  by (auto simp: mode_defs) (code_simp+)

text \<open>
  Applying the defaults again changes nothing. Once a configuration has been defaulted
  and accepted, defaulting it again returns it as it is and leaves its address list alone, so
  a port is never added twice, and every address that is not blank has one.
\<close>

theorem rd_SetDefaults_settled:
  assumes "rd_Validate quoteQ durV (fst (rd_SetDefaults uni c)) = nil"
  shows "rd_SetDefaults uni (fst (rd_SetDefaults uni c)) = (fst (rd_SetDefaults uni c), rd_Addrs (fst (rd_SetDefaults uni c)))
    \<and> (\<forall>a \<in> set (rd_Addrs (fst (rd_SetDefaults uni c))). trim_space a = '''' \<or> CHR '':'' \<in> set a)"
proof -
  let ?d = "fst (rd_SetDefaults uni c)"
  from assms have mode: "to_lower uni (trim_space (rd_Mode ?d)) = rd_Mode ?d" "rd_Mode ?d \<noteq> ''''"
    unfolding rd_Validate_exact topology_ok_def using modes_fixed [of "rd_Mode ?d"] by auto
  obtain as where as: "rd_Addrs ?d = map (addr_with_port (rd_Mode ?d) (rd_Port ?d)) as"
    by (simp add: rd_SetDefaults_def Let_def)
  then have addrs: "map (addr_with_port (rd_Mode ?d) (rd_Port ?d)) (rd_Addrs ?d) = rd_Addrs ?d"
    by (simp add: addr_with_port_idem)
  have rest: "rd_Host ?d \<noteq> '''' \<Longrightarrow> rd_Port ?d \<noteq> 0" "rd_Host ?d \<noteq> '''' \<Longrightarrow> rd_Addrs ?d \<noteq> []" "0 < rd_ConnectTimeout ?d"
    "rd_Mode ?d = ModeCluster \<Longrightarrow> 0 < rd_MaxRedirects ?d"
    by (auto simp: rd_SetDefaults_def Let_def rd_consts)
  have "rd_SetDefaults uni ?d = (?d, rd_Addrs ?d)"
    by (rule rd_SetDefaults_fixed) (fact mode addrs rest)+
  moreover have "trim_space a = '''' \<or> CHR '':'' \<in> set a" if "a \<in> set (rd_Addrs ?d)" for a
    using that unfolding as by (auto simp: addr_with_port_def Let_def dest: subsetD [OF trim_space_subset])
  ultimately show ?thesis by blast
qed

definition demo_rd :: rd_config where
  "demo_rd = \<lparr>rd_Mode = '''', rd_Host = '''', rd_Port = 0, rd_Addrs = [''a'', ''b''], rd_Username = '''', rd_Password = '''', rd_DB = 0,
     rd_MasterName = '''', rd_SentinelUsername = '''', rd_SentinelPassword = '''', rd_MaxRedirects = 0, rd_ReadOnly = False,
     rd_RouteByLatency = False, rd_RouteRandomly = False, rd_TLSEnabled = False, rd_TLSInsecureSkipVerify = False,
     rd_TLSServerName = '''', rd_TLSCACert = '''', rd_TLSCert = '''', rd_TLSKey = '''', rd_DialTimeout = 0, rd_ReadTimeout = 0,
     rd_WriteTimeout = 0, rd_ConnectTimeout = 0, rd_PoolSize = 0, rd_MinIdleConns = 0, rd_MaxIdleConns = 0, rd_ConnMaxIdleTime = 0,
     rd_ConnMaxLifetime = 0\<rparr>"

lemma demo_rd_valid: "rd_Validate quoteQ durV (fst (rd_SetDefaults uni demo_rd)) = nil"
  unfolding rd_Validate_exact
  by (simp add: rd_SetDefaults_def demo_rd_def Let_def to_lower_def topology_ok_def times_ok_def pool_ok_def tls_ok_def mode_defs rd_consts)

theorem rd_SetDefaults_settled_witness:
  "fst (rd_SetDefaults id (fst (rd_SetDefaults id demo_rd))) = fst (rd_SetDefaults id demo_rd)"
  using rd_SetDefaults_settled [OF demo_rd_valid, where uni = id] by simp

text \<open>
  SetDefaults writes to its caller. Although it works on a copy of the struct, the address
  slice is shared: after the call the caller's own list holds the addresses with their ports,
  whenever one had none.
\<close>

theorem rd_SetDefaults_writes_caller:
  assumes "rd_Addrs c \<noteq> []"
  shows "snd (rd_SetDefaults uni c) = rd_Addrs (fst (rd_SetDefaults uni c))
    \<and> snd (rd_SetDefaults uni demo_rd) = [''a:6379'', ''b:6379''] \<and> rd_Addrs demo_rd = [''a'', ''b'']"
proof (intro conjI)
  from assms show "snd (rd_SetDefaults uni c) = rd_Addrs (fst (rd_SetDefaults uni c))"
    by (simp add: rd_SetDefaults_def Let_def)
  have "to_lower uni (trim_space '''') = ''''" by (simp add: to_lower_def)
  moreover have "trim_space ''a'' = ''a''" "trim_space ''b'' = ''b''" by code_simp+
  moreover have "itoa 6379 = ''6379''" by (simp add: itoa_def utoa.simps) code_simp
  ultimately show "snd (rd_SetDefaults uni demo_rd) = [''a:6379'', ''b:6379'']"
    by (simp add: rd_SetDefaults_def demo_rd_def Let_def addr_with_port_def JoinHostPort_def mode_defs rd_consts)
qed (simp add: demo_rd_def)

theorem rd_SetDefaults_writes_caller_witness:
  "snd (rd_SetDefaults id demo_rd) \<noteq> rd_Addrs demo_rd"
  using rd_SetDefaults_writes_caller [of demo_rd id] by (auto simp: demo_rd_def [THEN arg_cong, of rd_Addrs])

subsection \<open>The poller keeps the counters\<close>

definition count_sum :: "string \<Rightarrow> event list \<Rightarrow> int" where
  "count_sum st evs = sum_list (map (\<lambda>e. case e of
     MetricAdd n i a \<Rightarrow> if n = poolCount \<and> a ''db.client.connection.state'' = Some (VStr st) then i else 0 | _ \<Rightarrow> 0) evs)"

definition timeout_sum :: "event list \<Rightarrow> int" where
  "timeout_sum evs = sum_list (map (\<lambda>e. case e of MetricAdd n i _ \<Rightarrow> if n = poolTimeouts then i else 0 | _ \<Rightarrow> 0) evs)"

lemma sums_append [simp]:
  "count_sum st (xs @ ys) = count_sum st xs + count_sum st ys" "timeout_sum (xs @ ys) = timeout_sum xs + timeout_sum ys"
  "count_sum st [] = 0" "timeout_sum [] = 0"
  by (simp_all add: count_sum_def timeout_sum_def)

lemma addCount_sums [simp]:
  "count_sum ''idle'' (addCount p i u) = i" "count_sum ''used'' (addCount p i u) = u" "timeout_sum (addCount p i u) = 0"
  by (auto simp: addCount_def count_sum_def timeout_sum_def pp_attrs_def opt_attr_def poolCount_def poolTimeouts_def)

lemma uint_pos_iff: "0 < uint w \<longleftrightarrow> uint w \<noteq> 0" for w :: "32 word"
  using unsigned_greater_eq [of w] by (auto simp: less_le)

lemma pp_poll_sums:
  assumes "pp_poll p s = (p', evs)"
  shows "count_sum ''idle'' evs = prevIdle p' - prevIdle p" "count_sum ''used'' evs = prevUsed p' - prevUsed p"
    "timeout_sum evs = uint (prevTimeouts p' - prevTimeouts p)"
  using assms unfolding pp_poll_def Let_def uint_pos_iff
  by (auto simp: count_sum_def [of _ "[_]"] timeout_sum_def [of "[_]"] poolCount_def poolTimeouts_def split: option.splits if_splits)

text \<open>The snapshots with the number of timeouts there really were, less than 2 to the 32 apart.\<close>

fun tracks :: "nat \<Rightarrow> (pool_stats option \<times> nat) list \<Rightarrow> bool" where
  "tracks t [] = True"
| "tracks t ((None, _) # r) = tracks t r"
| "tracks t ((Some s, n) # r) = (t \<le> n \<and> n - t < 2 ^ 32 \<and> Timeouts s = of_nat n \<and> tracks n r)"

fun last_true :: "nat \<Rightarrow> (pool_stats option \<times> nat) list \<Rightarrow> nat" where
  "last_true t [] = t"
| "last_true t ((None, _) # r) = last_true t r"
| "last_true t ((Some s, n) # r) = last_true n r"

lemma word_diff_true:
  assumes "t \<le> n" and "n - t < 2 ^ 32"
  shows "uint (of_nat n - of_nat t :: 32 word) = int n - int t"
proof -
  have "(of_nat n - of_nat t :: 32 word) = of_nat (n - t)" using assms(1) by simp
  moreover have "uint (of_nat (n - t) :: 32 word) = int (n - t)"
    using assms(2) by (simp add: unsigned_of_nat take_bit_nat_eq_self del: of_nat_diff)
  ultimately show ?thesis using assms(1) by simp
qed

lemma pp_polls_counts:
  "pp_polls p ss = (p', evs) \<Longrightarrow>
     count_sum ''idle'' evs = prevIdle p' - prevIdle p \<and> count_sum ''used'' evs = prevUsed p' - prevUsed p"
proof (induction ss arbitrary: p evs)
  case (Cons s ss)
  obtain p1 e1 where one: "pp_poll p s = (p1, e1)" by (cases "pp_poll p s")
  with Cons.prems obtain e2 where "pp_polls p1 ss = (p', e2)" "evs = e1 @ e2" by (auto split: prod.splits)
  with pp_poll_sums [OF one] Cons.IH show ?case by auto
qed simp

lemma pp_polls_timeouts:
  "pp_polls p (map fst sn) = (p', evs) \<Longrightarrow> tracks t sn \<Longrightarrow> prevTimeouts p = of_nat t \<Longrightarrow>
     timeout_sum evs = int (last_true t sn) - int t"
proof (induction t sn arbitrary: p evs rule: tracks.induct)
  case (2 t n r)
  then show ?case by (simp add: pp_poll_def)
next
  case (3 t s n r)
  obtain p1 e1 where one: "pp_poll p (Some s) = (p1, e1)" by (cases "pp_poll p (Some s)")
  with 3(2) obtain e2 where rest: "pp_polls p1 (map fst r) = (p', e2)" "evs = e1 @ e2" by (auto split: prod.splits)
  from 3(3) have tr: "t \<le> n" "n - t < 2 ^ 32" "Timeouts s = of_nat n" "tracks n r" by simp_all
  from one tr(3) have "prevTimeouts p1 = of_nat n" by (auto simp: pp_poll_def Let_def)
  with 3(1) [OF rest(1) tr(4)] pp_poll_sums(3) [OF one] word_diff_true [OF tr(1,2)] 3(4) rest(2) show ?case by simp
qed simp



subsection \<open>What the telemetry of a command says\<close>

text \<open>
  Telemetry of one command. The command's own result is returned as it is; there is one
  span, started and ended, and one duration sample; and the span and the sample are marked as
  failed, with an error type, exactly when the command failed with something other than a
  missing key.
\<close>

theorem command_telemetry:
  "case rd_instrument uni m cmd err of (err', evs) \<Rightarrow>
     err' = err \<and> spans_opened evs = 1 \<and> spans_ended evs = 1 \<and> recorded rd_metricDuration evs = 1
     \<and> ((\<exists>t. SpanStatusError t \<in> set evs) \<longleftrightarrow> real_err err)
     \<and> (\<forall>a. MetricRecord rd_metricDuration a \<in> set evs \<longrightarrow> (a ''error.type'' \<noteq> None \<longleftrightarrow> real_err err))"
proof -
  have "rd_errorType e \<noteq> ''''" for e by (simp add: rd_errorType_def)
  then show ?thesis
    by (auto simp: rd_instrument_def rd_attrs_def opt_attr_def Let_def real_err_def split: option.splits)
qed

theorem command_telemetry_witness:
  "\<forall>a. MetricRecord rd_metricDuration a \<in> set (snd (rd_instrument id \<lparr>serverAddr = ''h'', rm_serverPort = 6379, namespace = ''0''\<rparr>
     \<lparr>cmd_Name = ''get'', cmd_Args = [''get'', ''k''], cmd_Err = Some redis_Nil\<rparr> (Some redis_Nil))) \<longrightarrow> a ''error.type'' = None"
proof -
  have "\<not> real_err (Some redis_Nil)" by (simp add: real_err_def redis_Nil_def errors_Is_GErr)
  then show ?thesis
    using command_telemetry [where uni = id and m = "\<lparr>serverAddr = ''h'', rm_serverPort = 6379, namespace = ''0''\<rparr>"
        and cmd = "\<lparr>cmd_Name = ''get'', cmd_Args = [''get'', ''k''], cmd_Err = Some redis_Nil\<rparr>" and err = "Some redis_Nil"]
    by (auto split: prod.splits)
qed

lemma errToReport_None: "errToReport cmds err = nil \<longleftrightarrow> \<not> real_err err \<and> (\<forall>c \<in> set cmds. \<not> real_err (cmd_Err c))"
  by (auto simp: errToReport_def first_some_None_iff real_err_def split: option.splits if_splits)

lemma first_some_first:
  "first_some f xs = Some y \<Longrightarrow> \<exists>us x vs. xs = us @ x # vs \<and> f x = Some y \<and> (\<forall>u \<in> set us. f u = None)"
proof (induction xs)
  case (Cons x xs)
  show ?case
  proof (cases "f x")
    case None
    with Cons obtain us z vs where "xs = us @ z # vs" "f z = Some y" "\<forall>u \<in> set us. f u = None" by auto
    with None show ?thesis by (intro exI [of _ "x # us"] exI [of _ z] exI [of _ vs]) simp
  next
    case (Some z)
    with Cons.prems show ?thesis by (intro exI [of _ "[]"] exI [of _ x] exI [of _ xs]) simp
  qed
qed simp

text \<open>
  Telemetry of a pipeline. A pipeline is reported as failed exactly when its execution, or
  any of its commands, failed with something other than a missing key, even if go-redis returned
  the missing key of an earlier command; what is then reported is the execution's own error, or
  else the error of the first command that really failed. There is one span and one sample.
\<close>

theorem pipeline_telemetry:
  "case instrumentPipeline uni m cmds err of (err', evs) \<Rightarrow>
     err' = err \<and> spans_opened evs = 1 \<and> spans_ended evs = 1 \<and> recorded rd_metricDuration evs = 1
     \<and> ((\<exists>t. SpanStatusError t \<in> set evs) \<longleftrightarrow> real_err err \<or> (\<exists>c \<in> set cmds. real_err (cmd_Err c)))
     \<and> (\<forall>t. SpanStatusError t \<in> set evs \<longrightarrow>
          (if real_err err then t = error_string (the err)
           else \<exists>us c vs. cmds = us @ c # vs \<and> real_err (cmd_Err c) \<and> (\<forall>u \<in> set us. \<not> real_err (cmd_Err u)) \<and> t = error_string (the (cmd_Err c))))"
proof (cases "errToReport cmds err")
  case None
  with errToReport_None [of cmds err] show ?thesis by (auto simp: instrumentPipeline_def Let_def)
next
  case (Some e)
  with errToReport_None [of cmds err] have fail: "real_err err \<or> (\<exists>c \<in> set cmds. real_err (cmd_Err c))" by auto
  have "\<exists>us c vs. cmds = us @ c # vs \<and> real_err (cmd_Err c) \<and> (\<forall>u \<in> set us. \<not> real_err (cmd_Err u)) \<and> e = the (cmd_Err c)"
    if "\<not> real_err err"
  proof -
    from that Some have "first_some (\<lambda>c. if real_err (cmd_Err c) then cmd_Err c else None) cmds = Some e" by (simp add: errToReport_def)
    from first_some_first [OF this] obtain us c vs where split: "cmds = us @ c # vs"
      and c: "(if real_err (cmd_Err c) then cmd_Err c else None) = Some e"
      and us: "\<forall>u \<in> set us. (if real_err (cmd_Err u) then cmd_Err u else None) = None" by blast
    from c have "real_err (cmd_Err c)" "e = the (cmd_Err c)" by (auto split: if_splits)
    moreover from us have "\<forall>u \<in> set us. \<not> real_err (cmd_Err u)" by (auto simp: real_err_def split: if_splits)
    ultimately show ?thesis using split by blast
  qed
  moreover have "e = the err" if "real_err err" using that Some by (simp add: errToReport_def)
  ultimately show ?thesis using Some fail by (auto simp: instrumentPipeline_def Let_def)
qed

theorem pipeline_telemetry_witness:
  "\<exists>t. SpanStatusError t \<in> set (snd (instrumentPipeline id \<lparr>serverAddr = ''h'', rm_serverPort = 6379, namespace = ''0''\<rparr>
     [\<lparr>cmd_Name = ''get'', cmd_Args = [''get'', ''k''], cmd_Err = Some redis_Nil\<rparr>,
      \<lparr>cmd_Name = ''incr'', cmd_Args = [''incr'', ''k''], cmd_Err = Some (errors_New ''boom'')\<rparr>] (Some redis_Nil)))"
proof -
  have "real_err (Some (errors_New ''boom''))" by (simp add: real_err_def)
  then show ?thesis
    using pipeline_telemetry [where uni = id and m = "\<lparr>serverAddr = ''h'', rm_serverPort = 6379, namespace = ''0''\<rparr>"
        and cmds = "[\<lparr>cmd_Name = ''get'', cmd_Args = [''get'', ''k''], cmd_Err = Some redis_Nil\<rparr>,
          \<lparr>cmd_Name = ''incr'', cmd_Args = [''incr'', ''k''], cmd_Err = Some (errors_New ''boom'')\<rparr>]" and err = "Some redis_Nil"]
    by (auto split: prod.splits)
qed

lemma redisErrorCode_reply:
  assumes "redisErrorCode e \<noteq> ''''"
  shows "isUpperASCII (redisErrorCode e) \<and> (\<exists>n \<in> set (chain e). redis_reply (facets_of n) \<and> prefix (redisErrorCode e) (error_string n))"
proof (cases "errors_AsNode redis_reply e")
  case (Some n)
  then have n: "n \<in> set (chain e)" "redis_reply (facets_of n)" by (auto simp: errors_AsNode_def find_Some_iff)
  define token where "token = (case str_index (error_string n) '' '' of Some i \<Rightarrow> if i > 0 then take i (error_string n) else error_string n
    | None \<Rightarrow> error_string n)"
  have "prefix token (error_string n)" by (simp add: token_def take_is_prefix split: option.split)
  moreover have "redisErrorCode e = (if isUpperASCII token then token else '''')"
    using Some by (simp add: redisErrorCode_def token_def Let_def)
  ultimately show ?thesis using assms n by (metis (full_types))
qed (use assms in \<open>simp add: redisErrorCode_def\<close>)

text \<open>
  No value and no message leaks into bounded telemetry. The text of a command and of a
  pipeline depends only on the names of the commands and on how many arguments each has, and
  renders at most 50 commands and a note; and an error type is one of three fixed words or a
  word of upper-case letters at the start of a server reply.
\<close>

theorem telemetry_text_bounded:
  assumes "map cmd_Name cs = map cmd_Name ds" and "map (length \<circ> cmd_Args) cs = map (length \<circ> cmd_Args) ds"
  shows "pipelineText uni (queuedCommands uni cs) = pipelineText uni (queuedCommands uni ds)
    \<and> (\<exists>parts. pipelineText uni cs = join_with ''; '' parts \<and> length parts \<le> 51)
    \<and> (rd_errorType e \<in> {''timeout'', ''canceled'', ''_OTHER''}
        \<or> isUpperASCII (rd_errorType e) \<and> (\<exists>n \<in> set (chain e). redis_reply (facets_of n) \<and> prefix (rd_errorType e) (error_string n)))"
proof (intro conjI)
  let ?v = "\<lambda>c. (cmd_Name c, length (cmd_Args c))"
  have view: "map ?v cs = map ?v ds" using assms by (auto simp: list_eq_iff_nth_eq)
  let ?r = "\<lambda>(nm, k). if k - 1 > 0 then to_upper uni nm @ concat (replicate (k - 1) '' ?'') else to_upper uni nm"
  have rendering: "map (queryText uni) xs = map ?r (map ?v xs)" for xs
    by (simp add: queryText_def commandName_def Let_def)
  have "map ?v (queuedCommands uni xs) = filter (\<lambda>(nm, _). to_upper uni nm \<noteq> ''MULTI'' \<and> to_upper uni nm \<noteq> ''EXEC'') (map ?v xs)" for xs
    by (simp add: queuedCommands_def commandName_def filter_map comp_def)
  then have q: "map ?v (queuedCommands uni cs) = map ?v (queuedCommands uni ds)" by (simp only: view)
  then have "length (queuedCommands uni cs) = length (queuedCommands uni ds)" by (rule map_eq_imp_length_eq)
  moreover have "map (queryText uni) (queuedCommands uni cs) = map (queryText uni) (queuedCommands uni ds)"
    unfolding rendering q ..
  ultimately show "pipelineText uni (queuedCommands uni cs) = pipelineText uni (queuedCommands uni ds)"
    by (simp add: pipelineText_def Let_def take_map [symmetric])
  show "\<exists>parts. pipelineText uni cs = join_with ''; '' parts \<and> length parts \<le> 51"
    by (auto simp: pipelineText_def Let_def maxPipelineCommandsInText_def)
  show "rd_errorType e \<in> {''timeout'', ''canceled'', ''_OTHER''}
      \<or> isUpperASCII (rd_errorType e) \<and> (\<exists>n \<in> set (chain e). redis_reply (facets_of n) \<and> prefix (rd_errorType e) (error_string n))"
    using redisErrorCode_reply [of e] by (simp add: rd_errorType_def)
qed

theorem telemetry_text_bounded_witness:
  "pipelineText id (queuedCommands id [\<lparr>cmd_Name = ''set'', cmd_Args = [''set'', ''user:1'', ''s3cret''], cmd_Err = nil\<rparr>])
   = pipelineText id (queuedCommands id [\<lparr>cmd_Name = ''set'', cmd_Args = [''set'', '''', ''''], cmd_Err = nil\<rparr>])"
  using telemetry_text_bounded [where cs = "[\<lparr>cmd_Name = ''set'', cmd_Args = [''set'', ''user:1'', ''s3cret''], cmd_Err = nil\<rparr>]"
      and ds = "[\<lparr>cmd_Name = ''set'', cmd_Args = [''set'', '''', ''''], cmd_Err = nil\<rparr>]" and uni = id] by simp

subsection \<open>Close and the reported endpoint\<close>

fun closes :: "rd_client \<Rightarrow> error list \<Rightarrow> error list option" where
  "closes c [] = Some []"
| "closes c (i # es) = (case rd_Close c i of None \<Rightarrow> None | Some (c', e) \<Rightarrow> map_option ((#) e) (closes c' es))"

text \<open>
  Close can be called any number of times: the stop channel is closed once, no call
  panics, and each call returns the result of closing the pool.
\<close>

theorem rd_Close_repeatable: "closes \<lparr>hasStop = b, stopClosed = False, onceDone = False\<rparr> es = Some es"
proof -
  have again: "closes c es = Some es" if "onceDone c" for c es
    using that by (induction es) (simp_all add: rd_Close_def)
  show ?thesis
    by (cases es) (simp_all add: rd_Close_def close_chan_def again)
qed

lemma standalone_topology:
  assumes "topology_ok cfg" and "rd_Mode cfg = ModeStandalone"
  shows "rd_Addrs cfg \<noteq> [] \<or> rd_Host cfg \<noteq> ''''" "rd_Host cfg \<noteq> '''' \<Longrightarrow> 1 \<le> rd_Port cfg \<and> rd_Port cfg \<le> 65535"
  using assms by (simp_all add: topology_ok_def mode_defs)

text \<open>
  The endpoint in the telemetry is the one that is dialed. With a host and no address
  list, a standalone client dials the host at the configured or the default port, and reports
  exactly that host and port, IPv6 literals included.
\<close>

theorem rd_endpoint:
  assumes "fst (rd_SetDefaults uni c) = cfg" and "rd_Validate quoteQ durV cfg = nil" and "rd_Mode cfg = ModeStandalone"
    and "rd_Addrs c = []" and "CHR ''['' \<notin> set (rd_Host c)" and "CHR '']'' \<notin> set (rd_Host c)"
  shows "let port = (if rd_Port c = 0 then 6379 else rd_Port c) in
    createUnderlyingClient cfg tls = StandaloneClient (JoinHostPort (rd_Host c) (itoa port)) (rd_DB c) (conn_opts_of cfg tls)
    \<and> rd_serverAddress cfg = (rd_Host c, port)"
proof -
  let ?port = "if rd_Port c = 0 then 6379 else rd_Port c"
  from assms(1,4) have f: "rd_Host cfg = rd_Host c" "rd_DB cfg = rd_DB c"
    "rd_Host c = '''' \<Longrightarrow> rd_Addrs cfg = []"
    "rd_Host c \<noteq> '''' \<Longrightarrow> rd_Port cfg = ?port \<and> rd_Addrs cfg = [JoinHostPort (rd_Host c) (itoa ?port)]"
    by (auto simp: rd_SetDefaults_def Let_def rd_consts addr_with_port_colon)
  from assms(2) have "topology_ok cfg" by (simp add: rd_Validate_exact)
  note topo = standalone_topology [OF this assms(3)]
  have host: "rd_Host c \<noteq> ''''"
  proof
    assume "rd_Host c = ''''"
    with f(3) have "rd_Addrs cfg = []" by blast
    with topo(1) f(1) \<open>rd_Host c = ''''\<close> show False by metis
  qed
  from topo(2) f(4) [OF host] host have port: "1 \<le> ?port" "?port \<le> 65535" unfolding f(1) by metis+
  have "SplitHostPort (JoinHostPort (rd_Host c) (itoa ?port)) = Some (rd_Host c, itoa ?port)"
    using assms(5,6) port utoa_no_special [where n = "nat ?port"]
    by (intro SplitHostPort_JoinHostPort) (simp_all add: itoa_def is_digit_def)
  moreover have "atoi (itoa ?port) = (?port, True)" using port by (intro atoi_itoa) simp_all
  ultimately show ?thesis
    using f(4) [OF host] f(2) assms(3) by (simp add: createUnderlyingClient_def rd_serverAddress_def Let_def mode_defs)
qed

theorem rd_endpoint_witness:
  "rd_serverAddress (fst (rd_SetDefaults id (demo_rd\<lparr>rd_Addrs := [], rd_Host := ''::1''\<rparr>))) = (''::1'', 6379)"
proof -
  let ?c = "demo_rd\<lparr>rd_Addrs := [], rd_Host := ''::1''\<rparr>"
  have "rd_Validate id (\<lambda>_. '''') (fst (rd_SetDefaults id ?c)) = nil" "rd_Mode (fst (rd_SetDefaults id ?c)) = ModeStandalone"
    unfolding rd_Validate_exact
    by (simp_all add: rd_SetDefaults_def demo_rd_def Let_def to_lower_def topology_ok_def times_ok_def pool_ok_def tls_ok_def mode_defs rd_consts)
  from rd_endpoint [where c = ?c and uni = id and tls = "()", OF refl this] show ?thesis by (simp add: demo_rd_def Let_def)
qed

end
