(* ===== verification/S3_Client.thy ===== *)
theory S3_Client
  imports Telemetry Go_Net
begin

text \<open>
  Package \<open>s3\<close>: configuration, the two SDK clients it builds (an instrumented one for calls, a
  plain one for presigning), the Smithy middleware that records an operation, presigning with
  the default expiry, the bucket an operation names, and the classification of errors. The AWS
  SDK, its transfer manager, its credentials chain and \<open>url.Parse\<close> are parameters.
\<close>

subsection \<open>Configuration\<close>

record s3_config =
  s3_Region :: string
  s3_Endpoint :: string
  s3_AccessKeyID :: string
  s3_SecretAccessKey :: string
  s3_SessionToken :: string
  s3_UsePathStyle :: "bool option"
  s3_UploadPartSizeBytes :: int
  s3_UploadMultipartThreshold :: int
  s3_TransferConcurrency :: int
  s3_PresignDefaultExpiry :: duration

definition minimumUploadPartSize :: int where "minimumUploadPartSize = 5 * 1024 * 1024"
definition DefaultPresignExpiry :: duration where "DefaultPresignExpiry = 15 * minute"

definition s3_SetDefaults :: "s3_config \<Rightarrow> s3_config" where
  "s3_SetDefaults c = (if s3_PresignDefaultExpiry c = 0 then c\<lparr>s3_PresignDefaultExpiry := DefaultPresignExpiry\<rparr> else c)"

text \<open>What the code reads of a parsed URL.\<close>

record s3_url =
  su_Scheme :: string
  su_Hostname :: string
  su_Port :: string

text \<open>\<open>quoteQ\<close> is the \<open>%q\<close> form of a string and \<open>durV\<close> the \<open>%v\<close> form of a duration.\<close>

definition s3_Validate ::
  "(string \<Rightarrow> gerr + s3_url) \<Rightarrow> (string \<Rightarrow> string) \<Rightarrow> (duration \<Rightarrow> string) \<Rightarrow> s3_config \<Rightarrow> error" where
  "s3_Validate parse quoteQ durV c = errors_Join
     ((if s3_Region c = '''' then [errors_New ''s3: region is required''] else [])
      @ (if (s3_AccessKeyID c = '''') \<noteq> (s3_SecretAccessKey c = '''')
         then [errors_New ''s3: access_key_id and secret_access_key must both be set or both be empty''] else [])
      @ (if s3_SessionToken c \<noteq> '''' \<and> (s3_AccessKeyID c = '''' \<or> s3_SecretAccessKey c = '''')
         then [errors_New ''s3: session_token requires access_key_id and secret_access_key to be set''] else [])
      @ (if s3_Endpoint c \<noteq> '''' then
           (case parse (s3_Endpoint c) of
              Inl e \<Rightarrow> [errorf (''s3: endpoint '' @ quoteQ (s3_Endpoint c) @ '' is not a valid URL: '' @ error_string e) [e]]
            | Inr u \<Rightarrow> if su_Scheme u \<noteq> ''http'' \<and> su_Scheme u \<noteq> ''https''
                then [errors_New (''s3: endpoint '' @ quoteQ (s3_Endpoint c) @ '' must use http or https scheme'')] else [])
         else [])
      @ (if s3_UploadPartSizeBytes c < 0
         then [errors_New (''s3: UploadPartSizeBytes must not be negative, got '' @ itoa (s3_UploadPartSizeBytes c))] else [])
      @ (if s3_UploadPartSizeBytes c > 0 \<and> s3_UploadPartSizeBytes c < minimumUploadPartSize
         then [errors_New (''s3: UploadPartSizeBytes must be at least '' @ itoa minimumUploadPartSize @ '' bytes, got ''
                 @ itoa (s3_UploadPartSizeBytes c))] else [])
      @ (if s3_UploadMultipartThreshold c < 0
         then [errors_New (''s3: UploadMultipartThreshold must not be negative, got '' @ itoa (s3_UploadMultipartThreshold c))] else [])
      @ (if s3_TransferConcurrency c < 0
         then [errors_New (''s3: TransferConcurrency must not be negative, got '' @ itoa (s3_TransferConcurrency c))] else [])
      @ (if s3_PresignDefaultExpiry c \<le> 0
         then [errors_New (''s3: PresignDefaultExpiry must be positive, got '' @ durV (s3_PresignDefaultExpiry c))] else []))"

definition endpointAddress :: "(string \<Rightarrow> gerr + s3_url) \<Rightarrow> string \<Rightarrow> string \<times> int" where
  "endpointAddress parse endpoint =
     (if endpoint = '''' then ('''', 0)
      else case parse endpoint of
        Inl _ \<Rightarrow> ('''', 0)
      | Inr u \<Rightarrow>
          (let addr = su_Hostname u in
           if addr = '''' then ('''', 0)
           else if su_Port u \<noteq> '''' then
             (case atoi (su_Port u) of (port, ok) \<Rightarrow> if ok then (addr, port) else ('''', 0))
           else if su_Scheme u = ''http'' then (addr, 80)
           else if su_Scheme u = ''https'' then (addr, 443)
           else (addr, 0)))"

subsection \<open>The clients\<close>

record s3_meta =
  sm_region :: string
  sm_serverAddr :: string
  sm_serverPort :: int
  sm_presignDefaultExpiry :: duration

text \<open>The options of an SDK client; \<open>so_instrumented\<close> counts the registered instrumentation.\<close>

record s3_options =
  so_BaseEndpoint :: "string option"
  so_UsePathStyle :: bool
  so_instrumented :: "s3_meta list"

definition sdk_options :: s3_options where
  "sdk_options = \<lparr>so_BaseEndpoint = None, so_UsePathStyle = False, so_instrumented = []\<rparr>"

definition newMiddleware :: "s3_meta \<Rightarrow> s3_options \<Rightarrow> s3_options" where
  "newMiddleware m o0 = o0\<lparr>so_instrumented := so_instrumented o0 @ [m]\<rparr>"

text \<open>
  \<open>load\<close> is the loading of the AWS configuration, from the region and the static credentials;
  the result is that configuration with the options of the instrumented and of the plain client.
\<close>

definition usePathStyle :: "s3_config \<Rightarrow> bool" where
  "usePathStyle cfg = (case s3_UsePathStyle cfg of Some b \<Rightarrow> b | None \<Rightarrow> s3_Endpoint cfg \<noteq> '''')"

definition buildClients ::
  "(string \<Rightarrow> (string \<times> string \<times> string) option \<Rightarrow> gerr + 'aws) \<Rightarrow> s3_config \<Rightarrow> s3_meta
   \<Rightarrow> gerr + ('aws \<times> s3_options \<times> s3_options)" where
  "buildClients load cfg m =
     (let creds = (if s3_AccessKeyID cfg \<noteq> '''' \<and> s3_SecretAccessKey cfg \<noteq> ''''
                   then Some (s3_AccessKeyID cfg, s3_SecretAccessKey cfg, s3_SessionToken cfg) else None)
      in case load (s3_Region cfg) creds of
           Inl e \<Rightarrow> Inl (errorf (''s3: loading aws config: '' @ error_string e) [e])
         | Inr aws \<Rightarrow>
             (let baseOpts = (if s3_Endpoint cfg \<noteq> ''''
                    then [\<lambda>o0. o0\<lparr>so_BaseEndpoint := Some (s3_Endpoint cfg), so_UsePathStyle := usePathStyle cfg\<rparr>]
                    else if usePathStyle cfg then [\<lambda>o0. o0\<lparr>so_UsePathStyle := True\<rparr>] else [])
              in Inr (aws, foldl (\<lambda>o0 f. f o0) sdk_options (baseOpts @ [newMiddleware m]), foldl (\<lambda>o0 f. f o0) sdk_options baseOpts)))"

text \<open>The settings of the transfer manager: its own defaults where the configuration has none.\<close>

definition tm_setting :: "int \<Rightarrow> int \<Rightarrow> int" where
  "tm_setting dflt v = (if v > 0 then v else dflt)"

record 'aws s3_client =
  sc_aws :: 'aws
  sc_api :: s3_options
  sc_presign :: s3_options
  sc_tm :: "int \<times> int \<times> int"
  sc_meta :: s3_meta

definition s3_New ::
  "(string \<Rightarrow> gerr + s3_url) \<Rightarrow> (string \<Rightarrow> string) \<Rightarrow> (duration \<Rightarrow> string)
   \<Rightarrow> (string \<Rightarrow> (string \<times> string \<times> string) option \<Rightarrow> gerr + 'aws) \<Rightarrow> int \<times> int \<times> int \<Rightarrow> error \<Rightarrow> s3_config
   \<Rightarrow> gerr + 'aws s3_client" where
  "s3_New parse quoteQ durV load tmDefaults ctxErr cfg0 =
     (case ctxErr of
        Some e \<Rightarrow> Inl (errorf (''s3: '' @ error_string e) [e])
      | None \<Rightarrow>
          (let cfg = s3_SetDefaults cfg0 in
           case s3_Validate parse quoteQ durV cfg of
             Some e \<Rightarrow> Inl e
           | None \<Rightarrow>
               (let (host, port) = endpointAddress parse (s3_Endpoint cfg);
                    m = \<lparr>sm_region = s3_Region cfg, sm_serverAddr = host, sm_serverPort = port,
                         sm_presignDefaultExpiry = s3_PresignDefaultExpiry cfg\<rparr>
                in case buildClients load cfg m of
                     Inl e \<Rightarrow> Inl e
                   | Inr (aws, api, plainc) \<Rightarrow>
                       (case tmDefaults of (partSize, threshold, conc) \<Rightarrow>
                          Inr \<lparr>sc_aws = aws, sc_api = api, sc_presign = plainc,
                            sc_tm = (tm_setting partSize (s3_UploadPartSizeBytes cfg), tm_setting threshold (s3_UploadMultipartThreshold cfg),
                                     tm_setting conc (s3_TransferConcurrency cfg)),
                            sc_meta = m\<rparr>))))"

subsection \<open>Errors\<close>

definition not_found_codes :: "string list" where
  "not_found_codes = [''NoSuchKey'', ''NotFound'', ''NoSuchBucket'', ''404'']"

definition IsNotFound :: "error \<Rightarrow> bool" where
  "IsNotFound err =
     (case err of
        None \<Rightarrow> False
      | Some e \<Rightarrow> (case errors_As smithy_code e of Some code \<Rightarrow> code \<in> set not_found_codes | None \<Rightarrow> False))"

text \<open>The error a node wraps, as its field \<open>Err\<close>.\<close>

definition inner_err :: "gerr \<Rightarrow> error" where
  "inner_err n = (case unwrap n of [] \<Rightarrow> nil | x # _ \<Rightarrow> Some x)"

lemma inner_err_size [simp]: "inner_err n = Some x \<Longrightarrow> size x < size n"
  by (cases n) (auto simp: inner_err_def split: list.splits)

text \<open>The part of \<open>errorType\<close> for an error that is neither an API error nor an operation error.\<close>

definition transport_type :: "gerr \<Rightarrow> string" where
  "transport_type err =
     (if errors_Is err context_DeadlineExceeded then ''timeout''
      else if errors_Is err context_Canceled then ''canceled''
      else if errors_As net_timeout err = Some True then ''timeout''
      else case errors_AsNode (\<lambda>f. net_op f \<noteq> None) err of
        Some opErr \<Rightarrow>
          (case inner_err opErr of
             Some x \<Rightarrow>
               if errors_As errno x = Some ''ECONNREFUSED'' then ''connection_refused''
               else if errors_As errno x = Some ''ECONNRESET'' then ''connection_reset''
               else if errors_As dns_notfound x \<noteq> None then ''dns_error''
               else ''network_error''
           | None \<Rightarrow> ''network_error'')
      | None \<Rightarrow>
          if errors_As dns_notfound err \<noteq> None then ''dns_error''
          else if errors_As net_timeout err \<noteq> None then ''network_error''
          else if contains (error_string err) ''context deadline exceeded'' then ''timeout''
          else if contains (error_string err) ''context canceled'' then ''canceled''
          else ''_OTHER'')"

function s3_errorType :: "gerr \<Rightarrow> string" where
  "s3_errorType err =
     (case errors_As smithy_code err of
        Some code \<Rightarrow>
          if code \<noteq> '''' then code
          else (case Option.bind (errors_AsNode smithy_op err) inner_err of Some x \<Rightarrow> s3_errorType x | None \<Rightarrow> transport_type err)
      | None \<Rightarrow>
          (case Option.bind (errors_AsNode smithy_op err) inner_err of Some x \<Rightarrow> s3_errorType x | None \<Rightarrow> transport_type err))"
  by pat_completeness auto
termination
proof (relation "measure size")
  have "size x < size err" if "Option.bind (errors_AsNode smithy_op err) inner_err = Some x" for x err
    using that errors_AsNode_size [of smithy_op err]
    by (cases "errors_AsNode smithy_op err") (auto dest!: inner_err_size)
  then show "\<And>err x2 x2a. errors_As smithy_code err = Some x2 \<Longrightarrow> \<not> x2 \<noteq> '''' \<Longrightarrow>
      Option.bind (errors_AsNode smithy_op err) inner_err = Some x2a \<Longrightarrow> (x2a, err) \<in> measure size"
    "\<And>err x2. errors_As smithy_code err = None \<Longrightarrow>
      Option.bind (errors_AsNode smithy_op err) inner_err = Some x2 \<Longrightarrow> (x2, err) \<in> measure size" by auto
qed simp

declare s3_errorType.simps [simp del]

subsection \<open>One operation\<close>

definition s3_attrs :: "s3_meta \<Rightarrow> string \<Rightarrow> string \<Rightarrow> attrs" where
  "s3_attrs m op bucket =
     (let a0 = [''rpc.system.name'' \<mapsto> VStr ''aws-api'', ''rpc.method'' \<mapsto> VStr (''S3/'' @ op)];
          a1 = opt_attr (bucket \<noteq> '''') ''aws.s3.bucket'' (VStr bucket) a0;
          a2 = opt_attr (sm_region m \<noteq> '''') ''cloud.region'' (VStr (sm_region m)) a1;
          a3 = opt_attr (sm_serverAddr m \<noteq> '''') ''server.address'' (VStr (sm_serverAddr m)) a2
      in opt_attr (sm_serverPort m \<noteq> 0) ''server.port'' (VInt (sm_serverPort m)) a3)"

definition rpcCallDuration :: string where "rpcCallDuration = ''rpc.client.call.duration''"

definition finish :: "attrs \<Rightarrow> error \<Rightarrow> event list" where
  "finish attrs err =
     (case err of
        Some e \<Rightarrow>
          (let etype = s3_errorType e in
           [SpanStatusError (error_string e), SpanAttrs [''error.type'' \<mapsto> VStr etype], SpanEnd,
            MetricRecord rpcCallDuration (attrs(''error.type'' \<mapsto> VStr etype))])
      | None \<Rightarrow> [SpanEnd, MetricRecord rpcCallDuration attrs])"

text \<open>
  The input of an operation: one of the thirty types the switch lists, by its Bucket field (the
  SDK replaces a nil input before the middleware runs), or a value that reflection looks into.
\<close>

datatype rfield = FString string | FPtrString "string option" | FOtherKind
datatype rvalue = RInvalid | RPointer "rvalue option" | RStruct "rfield option" | ROtherKind
datatype s3_params = NilParams | Listed "string option" | Unlisted rvalue

definition struct_bucket :: "rvalue \<Rightarrow> string" where
  "struct_bucket v =
     (case v of
        RStruct (Some f) \<Rightarrow> (case f of FPtrString (Some s) \<Rightarrow> s | FString s \<Rightarrow> s | _ \<Rightarrow> '''')
      | _ \<Rightarrow> '''')"

definition reflectBucket :: "rvalue \<Rightarrow> string" where
  "reflectBucket v =
     (case v of
        RInvalid \<Rightarrow> ''''
      | RPointer None \<Rightarrow> ''''
      | RPointer (Some w) \<Rightarrow> struct_bucket w
      | _ \<Rightarrow> struct_bucket v)"

definition extractBucket :: "s3_params \<Rightarrow> string" where
  "extractBucket params =
     (case params of
        NilParams \<Rightarrow> ''''
      | Listed (Some b) \<Rightarrow> b
      | Listed None \<Rightarrow> ''''
      | Unlisted v \<Rightarrow> reflectBucket v)"

text \<open>\<open>res\<close> is what the rest of the Smithy stack returns.\<close>

definition HandleInitialize :: "s3_meta \<Rightarrow> string \<Rightarrow> s3_params \<Rightarrow> error \<Rightarrow> error \<times> event list" where
  "HandleInitialize m op0 params res =
     (let opName = (if op0 = '''' then ''S3Operation'' else op0);
          attrs = s3_attrs m opName (extractBucket params)
      in (res, SpanStart opName attrs # finish attrs res))"

text \<open>
  An operation through a client runs the middleware registered in its options, outermost first.
\<close>

definition s3_operation :: "s3_options \<Rightarrow> string \<Rightarrow> s3_params \<Rightarrow> error \<Rightarrow> error \<times> event list" where
  "s3_operation opts op params res =
     foldr (\<lambda>m (r, evs). case HandleInitialize m op params r of
              (r', e # es) \<Rightarrow> (r', e # evs @ es) | (r', []) \<Rightarrow> (r', evs))
       (so_instrumented opts) (res, [])"

subsection \<open>Presigning\<close>

text \<open>
  A presign option changes the expiry. The default is put before the caller's options, and
  \<open>sign\<close> is the presigning itself, given the expiry the options leave.
\<close>

definition presign_options :: "duration \<Rightarrow> (duration \<Rightarrow> duration) list \<Rightarrow> (duration \<Rightarrow> duration) list" where
  "presign_options dflt optFns = (if dflt > 0 then (\<lambda>ex. if ex = 0 then dflt else ex) # optFns else optFns)"

definition presign_expiry :: "duration \<Rightarrow> (duration \<Rightarrow> duration) list \<Rightarrow> duration" where
  "presign_expiry dflt optFns = foldl (\<lambda>ex f. f ex) 0 (presign_options dflt optFns)"

definition presign :: "string \<Rightarrow> s3_meta \<Rightarrow> string option option \<Rightarrow> (duration \<Rightarrow> duration) list \<Rightarrow> (duration \<Rightarrow> error \<times> 'req)
    \<Rightarrow> 'req \<times> error \<times> event list" where
  "presign opName m params optFns sign =
     (let bucket = (case params of Some (Some b) \<Rightarrow> b | _ \<Rightarrow> '''');
          attrs = s3_attrs m opName bucket;
          (err, req) = sign (presign_expiry (sm_presignDefaultExpiry m) optFns)
      in (req, err, SpanStart opName attrs # finish attrs err))"

definition PresignGetObject :: "s3_meta \<Rightarrow> string option option \<Rightarrow> (duration \<Rightarrow> duration) list \<Rightarrow> (duration \<Rightarrow> error \<times> 'req)
    \<Rightarrow> 'req \<times> error \<times> event list" where
  "PresignGetObject = presign ''PresignGetObject''"

definition PresignPutObject :: "s3_meta \<Rightarrow> string option option \<Rightarrow> (duration \<Rightarrow> duration) list \<Rightarrow> (duration \<Rightarrow> error \<times> 'req)
    \<Rightarrow> 'req \<times> error \<times> event list" where
  "PresignPutObject = presign ''PresignPutObject''"

subsection \<open>Configurations\<close>

text \<open>
  \<open>Validate\<close> is exact. A configuration passes if and only if it has a region, its static
  credentials are complete and a session token comes with them, its endpoint, if any, is an
  http or https URL, its part size is unset or at least what S3 accepts, its other transfer
  settings are not negative and its default expiry is positive; and the defaults give it a
  positive expiry unless the caller set a negative one.
\<close>

theorem s3_Validate_exact:
  "(s3_Validate parse quoteQ durV c = nil \<longleftrightarrow>
     s3_Region c \<noteq> '''' \<and> (s3_AccessKeyID c = '''' \<longleftrightarrow> s3_SecretAccessKey c = '''')
     \<and> (s3_SessionToken c = '''' \<or> s3_AccessKeyID c \<noteq> '''' \<and> s3_SecretAccessKey c \<noteq> '''')
     \<and> (s3_Endpoint c = '''' \<or> (\<exists>u. parse (s3_Endpoint c) = Inr u \<and> su_Scheme u \<in> {''http'', ''https''}))
     \<and> (s3_UploadPartSizeBytes c = 0 \<or> 5242880 \<le> s3_UploadPartSizeBytes c)
     \<and> 0 \<le> s3_UploadMultipartThreshold c \<and> 0 \<le> s3_TransferConcurrency c \<and> 0 < s3_PresignDefaultExpiry c)
   \<and> (0 < s3_PresignDefaultExpiry (s3_SetDefaults c) \<longleftrightarrow> 0 \<le> s3_PresignDefaultExpiry c)"
proof
  have endpoint: "(case parse (s3_Endpoint c) of
        Inl e \<Rightarrow> [errorf (''s3: endpoint '' @ quoteQ (s3_Endpoint c) @ '' is not a valid URL: '' @ error_string e) [e]]
      | Inr u \<Rightarrow> if su_Scheme u \<noteq> ''http'' \<and> su_Scheme u \<noteq> ''https''
          then [errors_New (''s3: endpoint '' @ quoteQ (s3_Endpoint c) @ '' must use http or https scheme'')] else []) = []
      \<longleftrightarrow> (\<exists>u. parse (s3_Endpoint c) = Inr u \<and> su_Scheme u \<in> {''http'', ''https''})"
    by (cases "parse (s3_Endpoint c)") auto
  have outer: "(if b then xs else []) = [] \<longleftrightarrow> \<not> b \<or> xs = []" for b and xs :: "gerr list" by simp
  show "s3_Validate parse quoteQ durV c = nil \<longleftrightarrow>
     s3_Region c \<noteq> '''' \<and> (s3_AccessKeyID c = '''' \<longleftrightarrow> s3_SecretAccessKey c = '''')
     \<and> (s3_SessionToken c = '''' \<or> s3_AccessKeyID c \<noteq> '''' \<and> s3_SecretAccessKey c \<noteq> '''')
     \<and> (s3_Endpoint c = '''' \<or> (\<exists>u. parse (s3_Endpoint c) = Inr u \<and> su_Scheme u \<in> {''http'', ''https''}))
     \<and> (s3_UploadPartSizeBytes c = 0 \<or> 5242880 \<le> s3_UploadPartSizeBytes c)
     \<and> 0 \<le> s3_UploadMultipartThreshold c \<and> 0 \<le> s3_TransferConcurrency c \<and> 0 < s3_PresignDefaultExpiry c"
    unfolding s3_Validate_def errors_Join_nil_iff append_is_Nil_conv if_Nil_simps outer endpoint
    by (auto simp: minimumUploadPartSize_def)
  show "0 < s3_PresignDefaultExpiry (s3_SetDefaults c) \<longleftrightarrow> 0 \<le> s3_PresignDefaultExpiry c"
    by (auto simp: s3_SetDefaults_def DefaultPresignExpiry_def minute_def second_def millisecond_def)
qed

subsection \<open>Clients and operations\<close>

lemma HandleInitialize_events:
  "HandleInitialize m op params res = (res, evs) \<Longrightarrow>
     spans_opened evs = 1 \<and> spans_ended evs = 1 \<and> recorded rpcCallDuration evs = 1"
  by (auto simp: HandleInitialize_def finish_def Let_def split: option.split)

text \<open>
  What New builds. The client for calls is instrumented exactly once, so one call is one
  span, one duration sample and the call's own result, whatever the operation; the client for
  presigning has the same endpoint and addressing style and no instrumentation, so signing a
  URL locally never looks like a call. Path-style addressing is the configured one, else on
  exactly for a self-hosted endpoint. Credentials are static exactly when configured.
\<close>

theorem s3_New_clients:
  assumes "s3_New parse quoteQ durV load tmd nil cfg = Inr cli"
  shows "so_instrumented (sc_api cli) = [sc_meta cli] \<and> so_instrumented (sc_presign cli) = []
    \<and> so_BaseEndpoint (sc_api cli) = so_BaseEndpoint (sc_presign cli) \<and> so_UsePathStyle (sc_api cli) = so_UsePathStyle (sc_presign cli)
    \<and> so_BaseEndpoint (sc_api cli) = (if s3_Endpoint cfg = '''' then None else Some (s3_Endpoint cfg))
    \<and> so_UsePathStyle (sc_api cli) = (case s3_UsePathStyle cfg of Some b \<Rightarrow> b | None \<Rightarrow> s3_Endpoint cfg \<noteq> '''')
    \<and> load (s3_Region cfg) (if s3_AccessKeyID cfg = '''' then None
        else Some (s3_AccessKeyID cfg, s3_SecretAccessKey cfg, s3_SessionToken cfg)) = Inr (sc_aws cli)
    \<and> 0 < sm_presignDefaultExpiry (sc_meta cli)
    \<and> (\<forall>op params res. case s3_operation (sc_api cli) op params res of (r, evs) \<Rightarrow>
        r = res \<and> spans_opened evs = 1 \<and> spans_ended evs = 1 \<and> recorded rpcCallDuration evs = 1)
    \<and> (\<forall>op params res. s3_operation (sc_presign cli) op params res = (res, []))"
proof -
  let ?c = "s3_SetDefaults cfg"
  have same: "s3_Endpoint ?c = s3_Endpoint cfg" "s3_UsePathStyle ?c = s3_UsePathStyle cfg" "s3_Region ?c = s3_Region cfg"
    "s3_AccessKeyID ?c = s3_AccessKeyID cfg" "s3_SecretAccessKey ?c = s3_SecretAccessKey cfg" "s3_SessionToken ?c = s3_SessionToken cfg"
    by (simp_all add: s3_SetDefaults_def)
  from assms obtain m aws api plainc where v: "s3_Validate parse quoteQ durV ?c = nil"
    and b: "buildClients load ?c m = Inr (aws, api, plainc)" "sm_presignDefaultExpiry m = s3_PresignDefaultExpiry ?c"
    and cli: "sc_aws cli = aws" "sc_api cli = api" "sc_presign cli = plainc" "sc_meta cli = m"
    by (auto simp: s3_New_def Let_def split: option.splits sum.splits prod.splits)
  from v have creds: "s3_AccessKeyID cfg = '''' \<longleftrightarrow> s3_SecretAccessKey cfg = ''''" and pos: "0 < s3_PresignDefaultExpiry ?c"
    using s3_Validate_exact [of parse quoteQ durV ?c] same by auto
  note B = b(1) [unfolded buildClients_def usePathStyle_def same Let_def]
  from B have inst: "so_instrumented api = [m]" "so_instrumented plainc = []"
    by (auto simp: newMiddleware_def sdk_options_def split: sum.splits if_splits)
  from B have opts: "so_BaseEndpoint api = (if s3_Endpoint cfg = '''' then None else Some (s3_Endpoint cfg))"
    "so_BaseEndpoint plainc = so_BaseEndpoint api" "so_UsePathStyle plainc = so_UsePathStyle api"
    "so_UsePathStyle api = (case s3_UsePathStyle cfg of Some b \<Rightarrow> b | None \<Rightarrow> s3_Endpoint cfg \<noteq> '''')"
    by (auto simp: newMiddleware_def sdk_options_def split: sum.splits if_splits option.splits)
  from B creds have "load (s3_Region cfg) (if s3_AccessKeyID cfg = '''' then None
      else Some (s3_AccessKeyID cfg, s3_SecretAccessKey cfg, s3_SessionToken cfg)) = Inr aws"
    by (auto split: sum.splits if_splits)
  moreover have "case s3_operation api op params res of (r, evs) \<Rightarrow>
      r = res \<and> spans_opened evs = 1 \<and> spans_ended evs = 1 \<and> recorded rpcCallDuration evs = 1" for op params res
    using HandleInitialize_events [of m op params res]
    by (simp add: s3_operation_def inst HandleInitialize_def Let_def)
  moreover have "s3_operation plainc op params res = (res, [])" for op params res by (simp add: s3_operation_def inst)
  ultimately show ?thesis using inst opts pos b(2) unfolding cli by simp
qed

definition demo_s3 :: s3_config where
  "demo_s3 = \<lparr>s3_Region = ''eu-1'', s3_Endpoint = ''http://minio:9000'', s3_AccessKeyID = '''', s3_SecretAccessKey = '''', s3_SessionToken = '''',
     s3_UsePathStyle = None, s3_UploadPartSizeBytes = 0, s3_UploadMultipartThreshold = 0, s3_TransferConcurrency = 0, s3_PresignDefaultExpiry = 0\<rparr>"

definition demo_parse :: "string \<Rightarrow> gerr + s3_url" where
  "demo_parse s = Inr \<lparr>su_Scheme = ''http'', su_Hostname = ''minio'', su_Port = ''9000''\<rparr>"

theorem s3_New_clients_witness:
  "\<exists>cli. s3_New demo_parse id (\<lambda>_. '''') (\<lambda>_ _. Inr ()) (8, 16, 5) nil demo_s3 = Inr cli \<and> so_UsePathStyle (sc_api cli)"
proof -
  have "s3_Validate demo_parse id (\<lambda>_. '''') (s3_SetDefaults demo_s3) = nil"
    using s3_Validate_exact [of demo_parse id "\<lambda>_. ''''" "s3_SetDefaults demo_s3"]
    by (simp add: demo_s3_def demo_parse_def s3_SetDefaults_def DefaultPresignExpiry_def minute_def second_def millisecond_def)
  then obtain cli where "s3_New demo_parse id (\<lambda>_. '''') (\<lambda>_ _. Inr ()) (8, 16, 5) nil demo_s3 = Inr cli"
    by (cases "endpointAddress demo_parse (s3_Endpoint (s3_SetDefaults demo_s3))") (simp add: s3_New_def buildClients_def Let_def)
  moreover from s3_New_clients [OF this] have "so_UsePathStyle (sc_api cli)" unfolding demo_s3_def by (elim conjE) simp
  ultimately show ?thesis by blast
qed

subsection \<open>Error types\<close>

definition transport_types :: "string list" where
  "transport_types = [''timeout'', ''canceled'', ''connection_refused'', ''connection_reset'', ''dns_error'', ''network_error'', ''_OTHER'']"

lemma transport_type_fixed: "transport_type e \<in> set transport_types"
  by (simp add: transport_type_def transport_types_def split: option.split)

lemma inner_in_chain: "inner_err n = Some x \<Longrightarrow> m \<in> set (chain x) \<Longrightarrow> m \<in> set (chain n)"
  by (cases n) (auto simp: inner_err_def split: list.splits)

lemma s3_errorType_source:
  "s3_errorType e \<in> set transport_types \<or> s3_errorType e \<noteq> '''' \<and> (\<exists>n \<in> set (chain e). smithy_code (facets_of n) = Some (s3_errorType e))"
proof (induction e rule: s3_errorType.induct)
  case (1 e)
  have down: "m \<in> set (chain e)" if "Option.bind (errors_AsNode smithy_op e) inner_err = Some x" "m \<in> set (chain x)" for x m
    using that by (auto simp: bind_eq_Some_conv dest: errors_AsNode_chain intro: chain_trans inner_in_chain)
  note unfold = s3_errorType.simps [of e]
  show ?case
  proof (cases "errors_As smithy_code e = None \<or> errors_As smithy_code e = Some ''''")
    case True
    show ?thesis
    proof (cases "Option.bind (errors_AsNode smithy_op e) inner_err")
      case None
      with True have "s3_errorType e = transport_type e" by (auto simp: unfold)
      then show ?thesis using transport_type_fixed by simp
    next
      case (Some x)
      with True have eq: "s3_errorType e = s3_errorType x" by (auto simp: unfold)
      from True Some 1 have "s3_errorType x \<in> set transport_types
          \<or> s3_errorType x \<noteq> '''' \<and> (\<exists>n \<in> set (chain x). smithy_code (facets_of n) = Some (s3_errorType x))" by auto
      with down [OF Some] show ?thesis unfolding eq by blast
    qed
  next
    case False
    then obtain code where "errors_As smithy_code e = Some code" "code \<noteq> ''''" by auto
    with errors_As_Some [of smithy_code e] show ?thesis by (auto simp: unfold)
  qed
qed



text \<open>
  Telemetry of an operation. The result is passed on; the span and the duration sample carry
  the same attributes, none of them empty, with an error type exactly when the operation failed.
\<close>

theorem s3_operation_telemetry:
  "case HandleInitialize m op params res of (r, evs) \<Rightarrow>
     r = res \<and> (\<exists>name a. hd evs = SpanStart name a \<and> name \<noteq> ''''
       \<and> (\<forall>k. a k \<noteq> Some (VStr ''''))
       \<and> last evs = MetricRecord rpcCallDuration (case res of None \<Rightarrow> a | Some e \<Rightarrow> a(''error.type'' \<mapsto> VStr (s3_errorType e)))
       \<and> a ''error.type'' = None)
     \<and> ((\<exists>t. SpanStatusError t \<in> set evs) \<longleftrightarrow> res \<noteq> nil)"
proof -
  have "s3_attrs m name b k \<noteq> Some (VStr '''')" "s3_attrs m name b ''error.type'' = None" for name b k
    by (simp_all add: s3_attrs_def opt_attr_def Let_def)
  then show ?thesis
    by (auto simp: HandleInitialize_def finish_def Let_def split: option.split)
qed

subsection \<open>Expiry of presigned URLs\<close>

text \<open>
  A presigned URL has the default expiry unless the caller's options say otherwise: the
  default is what the caller's options see first, so options that do not touch the expiry leave
  it, and one that sets it wins; and presigning records one span and one sample.
\<close>

theorem presign_default:
  assumes "0 < sm_presignDefaultExpiry m"
  shows "presign_expiry (sm_presignDefaultExpiry m) optFns = foldl (\<lambda>ex f. f ex) (sm_presignDefaultExpiry m) optFns
    \<and> ((\<forall>f \<in> set optFns. f = id) \<longrightarrow> presign_expiry (sm_presignDefaultExpiry m) optFns = sm_presignDefaultExpiry m)
    \<and> presign_expiry (sm_presignDefaultExpiry m) (optFns @ [\<lambda>_. d]) = d
    \<and> (case PresignGetObject m params optFns sign of (req, err, evs) \<Rightarrow>
         (err, req) = sign (presign_expiry (sm_presignDefaultExpiry m) optFns)
         \<and> spans_opened evs = 1 \<and> spans_ended evs = 1 \<and> recorded rpcCallDuration evs = 1)"
proof -
  have "foldl (\<lambda>ex f. f ex) x optFns = x" if "\<forall>f \<in> set optFns. f = id" for x :: duration
    using that by (induction optFns arbitrary: x) simp_all
  with assms show ?thesis
    by (auto simp: presign_expiry_def presign_options_def PresignGetObject_def presign_def finish_def Let_def split: option.split prod.split)
qed

theorem presign_default_witness:
  "presign_expiry (sm_presignDefaultExpiry \<lparr>sm_region = '''', sm_serverAddr = '''', sm_serverPort = 0, sm_presignDefaultExpiry = 900\<rparr>) [] = 900"
  using presign_default [where m = "\<lparr>sm_region = '''', sm_serverAddr = '''', sm_serverPort = 0, sm_presignDefaultExpiry = 900\<rparr>" and optFns = "[]"
      and d = 5 and params = None and sign = "\<lambda>_. (nil, ())"] by simp

end
