(* ===== verification/Rest_Semconv.thy ===== *)
theory Rest_Semconv
  imports Telemetry
begin

text \<open>
  Package \<open>rest/internal/semconv\<close>: the telemetry rules the REST client and server share.
\<close>

definition ErrsCodeKey :: string where "ErrsCodeKey = ''errs.code''"

definition known_methods :: "string list" where
  "known_methods = [''GET'', ''HEAD'', ''POST'', ''PUT'', ''DELETE'', ''CONNECT'', ''OPTIONS'', ''TRACE'', ''PATCH'']"

definition Method :: "string \<Rightarrow> string \<times> string" where
  "Method raw = (if raw \<in> set known_methods then (raw, '''') else (''_OTHER'', raw))"

definition SpanName :: "string \<Rightarrow> string \<Rightarrow> string" where
  "SpanName method0 route =
     (let method = (if method0 = ''_OTHER'' then ''HTTP'' else method0)
      in if route = '''' then method else method @ '' '' @ route)"

definition ProtocolVersion :: "string \<Rightarrow> string" where
  "ProtocolVersion proto =
     (case cut_prefix proto ''HTTP/'' of
        None \<Rightarrow> ''''
      | Some version \<Rightarrow> if version = ''2.0'' then ''2'' else if version = ''3.0'' then ''3'' else version)"

text \<open>
  \<open>strings.EqualFold(raw, "https")\<close>: besides the ASCII cases, Unicode folding makes the long
  s, U+017F, equal to s.
\<close>

definition fold_https :: "string \<Rightarrow> bool" where
  "fold_https raw \<longleftrightarrow> (\<exists>a \<in> set ''hH''. \<exists>b \<in> set ''tT''. \<exists>c \<in> set ''tT''. \<exists>d \<in> set ''pP''.
     raw \<in> {[a, b, c, d] @ ''s'', [a, b, c, d] @ ''S'', [a, b, c, d, CHR 0xC5, CHR 0xBF]})"

definition Scheme :: "string \<Rightarrow> string" where
  "Scheme raw = (if fold_https raw then ''https'' else ''http'')"

text \<open>A nil \<open>*errs.Error\<close> inside an interface has the address 0.\<close>

definition errs_node :: "gerr \<Rightarrow> app_error option" where
  "errs_node e = Option.bind (errors_AsNode (\<lambda>f. app f \<noteq> None) e) (\<lambda>n. app (facets_of n))"

definition ErrsCode :: "error \<Rightarrow> int \<times> bool" where
  "ErrsCode err =
     (case err of
        None \<Rightarrow> (0, False)
      | Some e \<Rightarrow>
          (case errors_AsNode (\<lambda>f. app f \<noteq> None) e of
             None \<Rightarrow> (0, False)
           | Some n \<Rightarrow>
               if addr (the (app (facets_of n))) = 0 then (0, False)
               else (let code = the (err_code (facets_of n)) in (code, code \<noteq> 0))))"

definition ServerErrorType :: "int \<Rightarrow> string" where
  "ServerErrorType status = (if status < 500 then '''' else itoa status)"

definition ClientErrorType :: "int \<Rightarrow> error \<Rightarrow> string" where
  "ClientErrorType status err =
     (case err of
        None \<Rightarrow> if status \<ge> 400 then itoa status else ''''
      | Some e \<Rightarrow>
          if errors_Is e context_DeadlineExceeded then ''timeout''
          else if errors_Is e context_Canceled then ''canceled''
          else ''_OTHER'')"

subsection \<open>The standard library\<close>

text \<open>\<open>http.StatusText\<close>.\<close>

definition status_texts :: "(int \<times> string) list" where
  "status_texts =
     [(100, ''Continue''), (101, ''Switching Protocols''), (102, ''Processing''), (103, ''Early Hints''),
      (200, ''OK''), (201, ''Created''), (202, ''Accepted''), (203, ''Non-Authoritative Information''), (204, ''No Content''),
      (205, ''Reset Content''), (206, ''Partial Content''), (207, ''Multi-Status''), (208, ''Already Reported''), (226, ''IM Used''),
      (300, ''Multiple Choices''), (301, ''Moved Permanently''), (302, ''Found''), (303, ''See Other''), (304, ''Not Modified''),
      (305, ''Use Proxy''), (307, ''Temporary Redirect''), (308, ''Permanent Redirect''),
      (400, ''Bad Request''), (401, ''Unauthorized''), (402, ''Payment Required''), (403, ''Forbidden''), (404, ''Not Found''),
      (405, ''Method Not Allowed''), (406, ''Not Acceptable''), (407, ''Proxy Authentication Required''), (408, ''Request Timeout''),
      (409, ''Conflict''), (410, ''Gone''), (411, ''Length Required''), (412, ''Precondition Failed''),
      (413, ''Request Entity Too Large''), (414, ''Request URI Too Long''), (415, ''Unsupported Media Type''),
      (416, ''Requested Range Not Satisfiable''), (417, ''Expectation Failed''), (418, ''I'' @ [CHR 0x27] @ ''m a teapot''),
      (421, ''Misdirected Request''), (422, ''Unprocessable Entity''), (423, ''Locked''), (424, ''Failed Dependency''),
      (425, ''Too Early''), (426, ''Upgrade Required''), (428, ''Precondition Required''), (429, ''Too Many Requests''),
      (431, ''Request Header Fields Too Large''), (451, ''Unavailable For Legal Reasons''),
      (500, ''Internal Server Error''), (501, ''Not Implemented''), (502, ''Bad Gateway''), (503, ''Service Unavailable''),
      (504, ''Gateway Timeout''), (505, ''HTTP Version Not Supported''), (506, ''Variant Also Negotiates''),
      (507, ''Insufficient Storage''), (508, ''Loop Detected''), (510, ''Not Extended''), (511, ''Network Authentication Required'')]"

definition StatusText :: "int \<Rightarrow> string" where
  "StatusText status = (case map_of status_texts status of Some t \<Rightarrow> t | None \<Rightarrow> '''')"

text \<open>
  \<open>http.CanonicalHeaderKey\<close>: letters in upper case at the start and after a hyphen, in lower
  case elsewhere; a key with a byte that no header name can have is left as it is.
\<close>

definition header_byte :: "char \<Rightarrow> bool" where
  "header_byte c \<longleftrightarrow> byte_between CHR ''a'' CHR ''z'' c \<or> byte_between CHR ''A'' CHR ''Z'' c \<or> byte_between CHR ''0'' CHR ''9'' c
     \<or> c \<in> set ''!#$%&*+-.^_|~'' \<or> c = CHR 0x27 \<or> c = CHR 0x60"

fun canon_loop :: "bool \<Rightarrow> string \<Rightarrow> string" where
  "canon_loop up [] = []"
| "canon_loop up (c # cs) = (if up then ascii_upper c else ascii_lower c) # canon_loop (c = CHR ''-'') cs"

definition CanonicalHeaderKey :: "string \<Rightarrow> string" where
  "CanonicalHeaderKey s = (if list_all header_byte s then canon_loop True s else s)"

subsection \<open>Bounded values\<close>

text \<open>
  Every value that goes into a metric is from a small set, whatever the request holds:
  the method is one of ten, the scheme one of two.
\<close>

lemma Method_bounded: "fst (Method raw) \<in> insert ''_OTHER'' (set known_methods)"
  by (simp add: Method_def)

lemma Method_original: "snd (Method raw) \<noteq> '''' \<Longrightarrow> fst (Method raw) = ''_OTHER'' \<and> snd (Method raw) = raw"
  by (auto simp: Method_def split: if_splits)

lemma Scheme_bounded: "Scheme raw \<in> {''http'', ''https''}"
  by (simp add: Scheme_def)

lemma ClientErrorType_iff: "ClientErrorType status err = '''' \<longleftrightarrow> err = nil \<and> status < 400"
  by (auto simp: ClientErrorType_def split: option.split)

lemma ServerErrorType_iff: "ServerErrorType status = '''' \<longleftrightarrow> status < 500"
  by (simp add: ServerErrorType_def)

end
