(* ===== verification/Rest_Client.thy ===== *)
theory Rest_Client
  imports Rest_Semconv Go_Net
begin

text \<open>
  Package \<open>rest/client\<close>: configuration, the middleware chain of an outbound call (logging,
  retry, tracing, metrics, deadline) around the Hertz transport, the retry policy with its
  backoff and Retry-After rules, URL redaction, and the mapping of the RoundTripper. The
  transport, the clock, the random source, the HTTP date parser and \<open>url.Parse\<close> are
  parameters.
\<close>

subsection \<open>Configuration\<close>

record rc_config =
  rc_Timeout :: duration
  rc_AttemptTimeout :: duration
  rc_MaxAttempts :: int
  rc_BackoffBase :: duration
  rc_BackoffMax :: duration
  rc_MaxRetryAfter :: duration
  rc_DialTimeout :: duration
  rc_Proxy :: string

definition rc_defaultTimeout :: duration where "rc_defaultTimeout = 30 * second"
definition defaultAttemptTimeout :: duration where "defaultAttemptTimeout = 10 * second"
definition defaultMaxAttempts :: int where "defaultMaxAttempts = 3"
definition defaultBackoffBase :: duration where "defaultBackoffBase = 100 * millisecond"
definition defaultBackoffMax :: duration where "defaultBackoffMax = 2 * second"
definition defaultMaxRetryAfter :: duration where "defaultMaxRetryAfter = 10 * second"
definition rc_defaultDialTimeout :: duration where "rc_defaultDialTimeout = 5 * second"

lemmas rc_consts = rc_defaultTimeout_def defaultAttemptTimeout_def defaultMaxAttempts_def defaultBackoffBase_def
  defaultBackoffMax_def defaultMaxRetryAfter_def rc_defaultDialTimeout_def second_def millisecond_def

definition rc_SetDefaults :: "rc_config \<Rightarrow> rc_config" where
  "rc_SetDefaults c0 =
     (let c1 = (if rc_Timeout c0 = 0 then c0\<lparr>rc_Timeout := rc_defaultTimeout\<rparr> else c0);
          c2 = (if rc_AttemptTimeout c1 = 0 then c1\<lparr>rc_AttemptTimeout := defaultAttemptTimeout\<rparr> else c1);
          c3 = (if rc_MaxAttempts c2 = 0 then c2\<lparr>rc_MaxAttempts := defaultMaxAttempts\<rparr> else c2);
          c4 = (if rc_BackoffBase c3 = 0 then c3\<lparr>rc_BackoffBase := defaultBackoffBase\<rparr> else c3);
          c5 = (if rc_BackoffMax c4 = 0 then c4\<lparr>rc_BackoffMax := defaultBackoffMax\<rparr> else c4);
          c6 = (if rc_MaxRetryAfter c5 = 0 then c5\<lparr>rc_MaxRetryAfter := defaultMaxRetryAfter\<rparr> else c5)
      in if rc_DialTimeout c6 = 0 then c6\<lparr>rc_DialTimeout := rc_defaultDialTimeout\<rparr> else c6)"

text \<open>What the code reads of a parsed URL: scheme, host, and the decoded userinfo.\<close>

record parsed_url =
  u_Scheme :: string
  u_Host :: string
  u_User :: "(string \<times> string) option"

definition validateProxy :: "(string \<Rightarrow> parsed_url option) \<Rightarrow> string \<Rightarrow> error" where
  "validateProxy parse proxy =
     (case parse proxy of
        None \<Rightarrow> Some (errors_New ''rest/client: proxy must be a valid URL'')
      | Some u \<Rightarrow>
          if u_Scheme u \<noteq> ''http'' then Some (errors_New ''rest/client: proxy scheme must be http'')
          else if u_Host u = '''' then Some (errors_New ''rest/client: proxy must have a host'')
          else nil)"

text \<open>\<open>durV\<close> is the \<open>%v\<close> form of a duration; \<open>errors.Join\<close> drops the nil of an accepted proxy.\<close>

definition rc_Validate :: "(string \<Rightarrow> parsed_url option) \<Rightarrow> (duration \<Rightarrow> string) \<Rightarrow> rc_config \<Rightarrow> error" where
  "rc_Validate parse durV c = errors_Join
     (map (\<lambda>(name, d). errors_New (''rest/client: '' @ name @ '' '' @ durV d @ '' must not be negative''))
        (filter (\<lambda>(_, d). d < 0)
          [(''timeout'', rc_Timeout c), (''attempt_timeout'', rc_AttemptTimeout c), (''backoff_base'', rc_BackoffBase c),
           (''backoff_max'', rc_BackoffMax c), (''max_retry_after'', rc_MaxRetryAfter c), (''dial_timeout'', rc_DialTimeout c)])
      @ (if rc_MaxAttempts c < 1
         then [errors_New (''rest/client: max_attempts '' @ itoa (rc_MaxAttempts c) @ '' must be at least 1'')] else [])
      @ (if rc_BackoffBase c > rc_BackoffMax c
         then [errors_New (''rest/client: backoff_base '' @ durV (rc_BackoffBase c) @ '' must not exceed backoff_max ''
                 @ durV (rc_BackoffMax c))] else [])
      @ (if rc_Proxy c \<noteq> '''' then (case validateProxy parse (rc_Proxy c) of Some e \<Rightarrow> [e] | None \<Rightarrow> []) else []))"

text \<open>The proxy address given to Hertz: the URI, with the decoded credentials set apart.\<close>

definition proxyURI :: "(string \<Rightarrow> parsed_url option) \<Rightarrow> string \<Rightarrow> gerr + (string \<times> (string \<times> string) option)" where
  "proxyURI parse proxy =
     (case parse proxy of
        None \<Rightarrow> Inl (errors_New ''rest/client: proxy must be a valid URL'')
      | Some u \<Rightarrow> Inr (u_Scheme u @ ''://'' @ u_Host u, u_User u))"

text \<open>New, up to the Hertz client: \<open>mk\<close> is the error of building it. The result is the
  configuration the chain runs with and the proxy set on the client.\<close>

definition rc_New ::
  "(string \<Rightarrow> parsed_url option) \<Rightarrow> (duration \<Rightarrow> string) \<Rightarrow> error \<Rightarrow> rc_config
   \<Rightarrow> gerr + (rc_config \<times> (string \<times> (string \<times> string) option) option)" where
  "rc_New parse durV mk cfg0 =
     (let cfg = rc_SetDefaults cfg0 in
      case rc_Validate parse durV cfg of
        Some e \<Rightarrow> Inl e
      | None \<Rightarrow>
          (case mk of
             Some e \<Rightarrow> Inl (errorf (''rest/client: new hertz client: '' @ error_string e) [e])
           | None \<Rightarrow>
               if rc_Proxy cfg \<noteq> '''' then
                 (case proxyURI parse (rc_Proxy cfg) of Inl e \<Rightarrow> Inl e | Inr uri \<Rightarrow> Inr (cfg, Some uri))
               else Inr (cfg, None)))"

subsection \<open>Requests and responses\<close>

text \<open>What the chain reads of a request. \<open>hr_files\<close> and \<open>hr_fields\<close> say for each multipart part
  whether it is backed by a reader.\<close>

record hreq =
  hr_method :: string
  hr_scheme :: string
  hr_host :: string
  hr_path :: string
  hr_pathOriginal :: string
  hr_query :: string
  hr_isStream :: bool
  hr_files :: "bool list"
  hr_fields :: "bool list"
  hr_idempotencyKey :: string
  hr_timeout :: duration

record hresp =
  hs_status :: int
  hs_proto :: string
  hs_retryAfter :: string

definition ErrInformationalResponse :: gerr where
  "ErrInformationalResponse = sentinel_error ''client.ErrInformationalResponse'' ''rest/client: unexpected informational response''"

text \<open>The sentinels of Hertz and of package \<open>os\<close> the chain matches.\<close>

definition herrs_ErrTimeout :: gerr where "herrs_ErrTimeout = sentinel_error ''hertz.ErrTimeout'' ''timeout''"
definition herrs_ErrBodyTooLarge :: gerr where "herrs_ErrBodyTooLarge = sentinel_error ''hertz.ErrBodyTooLarge'' ''body size exceeds the given limit''"
definition herrs_ErrNotSupportProtocol :: gerr where
  "herrs_ErrNotSupportProtocol = sentinel_error ''hertz.ErrNotSupportProtocol'' ''not support protocol''"
definition os_ErrDeadlineExceeded :: gerr where "os_ErrDeadlineExceeded = sentinel_error ''os.ErrDeadlineExceeded'' ''i/o timeout''"

definition checkURL :: "hreq \<Rightarrow> error" where
  "checkURL req =
     (if (hr_scheme req \<noteq> ''http'' \<and> hr_scheme req \<noteq> ''https'') \<or> hr_host req = ''''
      then Some (errors_New ''rest/client: request URL must be http or https with a host'') else nil)"

definition rc_serverAddress :: "string \<Rightarrow> string" where
  "rc_serverAddress authority =
     (case SplitHostPort authority of
        Some (host, _) \<Rightarrow> host
      | None \<Rightarrow>
          if prefix ''['' authority \<and> suffix '']'' authority then take (length authority - 2) (drop 1 authority)
          else authority)"

definition serverPort :: "hreq \<Rightarrow> int" where
  "serverPort req =
     (let fallback = (if Scheme (hr_scheme req) = ''https'' then 443 else 80) in
      case SplitHostPort (hr_host req) of
        Some (_, port) \<Rightarrow> (case atoi port of (n, ok) \<Rightarrow> if ok then n else fallback)
      | None \<Rightarrow> fallback)"

subsection \<open>Redaction\<close>

text \<open>The builder holds what was written so far.\<close>

fun redact_loop :: "string list \<Rightarrow> string \<Rightarrow> string" where
  "redact_loop [] b = b"
| "redact_loop (seg # segs) b =
     (if seg = '''' then redact_loop segs b
      else let b1 = (if b \<noteq> '''' then b @ ''&'' else b) in
        case cut CHR ''='' seg of
          (key, _, hasValue) \<Rightarrow>
            if \<not> hasValue then redact_loop segs (b1 @ ''REDACTED'')
            else redact_loop segs (b1 @ key @ ''=REDACTED''))"

definition redactQuery :: "string \<Rightarrow> string" where
  "redactQuery raw = redact_loop (split_on CHR ''&'' raw) ''''"

definition redactURL :: "hreq \<Rightarrow> string" where
  "redactURL req =
     (let path = (if hr_pathOriginal req = '''' then ''/'' else hr_pathOriginal req);
          u = hr_scheme req @ ''://'' @ hr_host req @ path;
          q = redactQuery (hr_query req)
      in if q \<noteq> '''' then u @ ''?'' @ q else u)"

subsection \<open>The retry policy\<close>

definition idempotent_methods :: "string list" where
  "idempotent_methods = [''GET'', ''HEAD'', ''OPTIONS'', ''PUT'', ''DELETE'', ''TRACE'']"

definition retryable :: "hreq \<Rightarrow> bool" where
  "retryable req =
     (if hr_isStream req then False
      else if list_ex id (hr_files req) then False
      else if list_ex id (hr_fields req) then False
      else if hr_method req \<in> set idempotent_methods then True
      else hr_idempotencyKey req \<noteq> '''')"

definition retryErr :: "gerr \<Rightarrow> bool" where
  "retryErr e =
     (if errors_AsNode tls_failure e \<noteq> None then False
      else if errors_As net_op e = Some ''remote error'' then False
      else if errors_As dns_notfound e = Some True then False
      else if errors_Is e herrs_ErrBodyTooLarge \<or> errors_Is e herrs_ErrNotSupportProtocol then False
      else if errors_Is e ErrInformationalResponse then False
      else True)"

definition retryableStatuses :: "int list" where
  "retryableStatuses = [429, 502, 503, 504]"

text \<open>
  The bound handed to \<open>rand.N\<close> and the delay. A right shift by 64 or more of a value that is
  not negative is zero, as dividing by the power of two is; a left shift wraps. \<open>rand.N\<close> panics
  unless its bound is positive; \<open>pick\<close> is the number it draws.
\<close>

definition backoff_bound :: "rc_config \<Rightarrow> int \<Rightarrow> int" where
  "backoff_bound cfg n =
     (let shift = nat (n - 1) in
      if rc_BackoffBase cfg \<le> rc_BackoffMax cfg div 2 ^ shift
      then int64_wrap (rc_BackoffBase cfg * 2 ^ shift) else rc_BackoffMax cfg)"

definition backoff :: "(int \<Rightarrow> int) \<Rightarrow> rc_config \<Rightarrow> int \<Rightarrow> duration option" where
  "backoff pick cfg n = (let b = backoff_bound cfg n in if b \<le> 0 then None else Some (pick b))"

definition maxRetryAfterSeconds :: int where
  "maxRetryAfterSeconds = (2 ^ 63 - 1) div second"

text \<open>\<open>atoi\<close> yields a value other than 0 with an error only out of range. \<open>untilDate\<close> is the time
  until an HTTP date, when the text is one.\<close>

definition parseRetryAfter :: "(string \<Rightarrow> duration option) \<Rightarrow> string \<Rightarrow> duration option" where
  "parseRetryAfter untilDate v =
     (case atoi v of (secs, ok) \<Rightarrow>
        if ok \<or> secs \<noteq> 0 then
          (if secs < 0 then None else Some (int64_wrap (min secs maxRetryAfterSeconds * second)))
        else (case untilDate v of None \<Rightarrow> None | Some d \<Rightarrow> Some (max d 0)))"

text \<open>
  What a call meets, by the number of the attempt: the context's error at the entry of the
  deadline step, after the transport returned, and at the retry step; the time left to the
  deadline, if any, at the deadline step and at the retry step; the transport's result; the
  draws of the random source; the result of the wait.
\<close>

record rc_env =
  ev_entryErr :: "nat \<Rightarrow> error"
  ev_afterErr :: "nat \<Rightarrow> error"
  ev_retryErr :: "nat \<Rightarrow> error"
  ev_left :: "nat \<Rightarrow> duration option"
  ev_leftRetry :: "nat \<Rightarrow> duration option"
  ev_transport :: "nat \<Rightarrow> error \<times> hresp"
  ev_pick :: "nat \<Rightarrow> int \<Rightarrow> int"
  ev_untilDate :: "string \<Rightarrow> duration option"
  ev_wait :: "nat \<Rightarrow> duration \<Rightarrow> error"

datatype retry_decision = Stop | RetryIn duration | BackoffPanic

definition retryDelay :: "rc_env \<Rightarrow> rc_config \<Rightarrow> nat \<Rightarrow> error \<Rightarrow> hresp \<Rightarrow> retry_decision" where
  "retryDelay env cfg attempt err resp =
     (case backoff (ev_pick env attempt) cfg (int attempt) of
        None \<Rightarrow> BackoffPanic
      | Some delay0 \<Rightarrow>
          (let fits = (\<lambda>delay. case ev_leftRetry env attempt of
                         Some left \<Rightarrow> if delay > left then Stop else RetryIn delay
                       | None \<Rightarrow> RetryIn delay)
           in case err of
                Some e \<Rightarrow> if \<not> retryErr e then Stop else fits delay0
              | None \<Rightarrow>
                  if hs_status resp \<notin> set retryableStatuses then Stop
                  else if hs_status resp = 429 \<or> hs_status resp = 503 then
                    (case parseRetryAfter (ev_untilDate env) (hs_retryAfter resp) of
                       Some d \<Rightarrow> if d > rc_MaxRetryAfter cfg then Stop else fits d
                     | None \<Rightarrow> fits delay0)
                  else fits delay0))"

subsection \<open>One attempt\<close>

text \<open>What the client does: telemetry, a transmission with its timeout, closing idle connections.\<close>

datatype rc_event = RTel event | Send duration | CloseIdle

text \<open>
  The deadline step. \<open>n\<close> is the number of attempts already counted in the call state; the step
  returns the error, the response, whether it sent, and what it did.
\<close>

definition rc_deadline :: "rc_env \<Rightarrow> rc_config \<Rightarrow> nat \<Rightarrow> error \<times> hresp \<times> bool \<times> rc_event list" where
  "rc_deadline env cfg k =
     (let resp = snd (ev_transport env k) in
      case ev_entryErr env k of
        Some e \<Rightarrow> (Some e, resp, False, [])
      | None \<Rightarrow>
          (let d = (case ev_left env k of Some l \<Rightarrow> min (rc_AttemptTimeout cfg) l | None \<Rightarrow> rc_AttemptTimeout cfg) in
           if d \<le> 0 then
             (Some (errorf (''rest/client: '' @ error_string context_DeadlineExceeded) [context_DeadlineExceeded]), resp, False, [])
           else
             (let err = fst (ev_transport env k); status = hs_status resp in
              if err = nil \<and> status \<ge> 100 \<and> status < 200 \<and> status \<noteq> 100 then
                (Some (errorf (error_string ErrInformationalResponse @ '' '' @ itoa status) [ErrInformationalResponse]),
                 resp, True, [Send d, CloseIdle])
              else case ev_afterErr env k of
                Some cerr \<Rightarrow>
                  ((case err of
                      Some e \<Rightarrow> Some (errorf (''rest/client: '' @ error_string cerr @ '': '' @ error_string e) [cerr, e])
                    | None \<Rightarrow> Some cerr), resp, True, [Send d])
              | None \<Rightarrow>
                  (case err of
                     Some e \<Rightarrow>
                       if errors_Is e herrs_ErrTimeout \<or> errors_Is e os_ErrDeadlineExceeded then
                         (Some (errorf (''rest/client: '' @ error_string context_DeadlineExceeded @ '': '' @ error_string e)
                            [context_DeadlineExceeded, e]), resp, True, [Send d])
                       else (Some e, resp, True, [Send d])
                   | None \<Rightarrow> (nil, resp, True, [Send d])))))"

record outcome =
  o_status :: int
  o_version :: string
  o_errType :: string

definition attemptOutcome :: "hresp \<Rightarrow> error \<Rightarrow> outcome" where
  "attemptOutcome resp err =
     (case err of
        Some _ \<Rightarrow> \<lparr>o_status = 0, o_version = '''', o_errType = ClientErrorType 0 err\<rparr>
      | None \<Rightarrow> \<lparr>o_status = hs_status resp, o_version = ProtocolVersion (hs_proto resp),
                 o_errType = ClientErrorType (hs_status resp) nil\<rparr>)"

definition outcome_attrs :: "outcome \<Rightarrow> attrs \<Rightarrow> attrs" where
  "outcome_attrs oc a =
     opt_attr (o_errType oc \<noteq> '''') ''error.type'' (VStr (o_errType oc))
       (opt_attr (o_version oc \<noteq> '''') ''network.protocol.version'' (VStr (o_version oc))
         (opt_attr (o_status oc \<noteq> 0) ''http.response.status_code'' (VInt (o_status oc)) a))"

definition rc_measure :: "hreq \<Rightarrow> error \<times> hresp \<times> bool \<times> rc_event list \<Rightarrow> error \<times> hresp \<times> bool \<times> rc_event list" where
  "rc_measure req r =
     (case r of (err, resp, sent, evs) \<Rightarrow>
        let attrs = outcome_attrs (attemptOutcome resp err)
              [''http.request.method'' \<mapsto> VStr (fst (Method (hr_method req))),
               ''server.address'' \<mapsto> VStr (rc_serverAddress (hr_host req)),
               ''server.port'' \<mapsto> VInt (serverPort req), ''url.scheme'' \<mapsto> VStr (Scheme (hr_scheme req))]
        in (err, resp, sent, evs @ [RTel (MetricRecord ''http.client.request.duration'' attrs)]))"

definition rc_tracing :: "hreq \<Rightarrow> nat \<Rightarrow> error \<times> hresp \<times> bool \<times> rc_event list \<Rightarrow> error \<times> hresp \<times> bool \<times> rc_event list" where
  "rc_tracing req counted r =
     (let (method, original) = Method (hr_method req);
          attrs = opt_attr (counted > 0) ''http.request.resend_count'' (VInt (int counted))
            (opt_attr (original \<noteq> '''') ''http.request.method_original'' (VStr original)
              [''http.request.method'' \<mapsto> VStr method,
               ''server.address'' \<mapsto> VStr (rc_serverAddress (hr_host req)),
               ''server.port'' \<mapsto> VInt (serverPort req), ''url.full'' \<mapsto> VStr (redactURL req)])
      in case r of (err, resp, sent, evs) \<Rightarrow>
        let oc = attemptOutcome resp err in
        (err, resp, sent,
         RTel (SpanStart (SpanName method '''') attrs) # evs
         @ (if o_errType oc \<noteq> '''' then [RTel (SpanStatusError '''')] else [])
         @ [RTel (SpanAttrs (outcome_attrs oc Map.empty)), RTel SpanEnd]))"

definition rc_attempt :: "rc_env \<Rightarrow> rc_config \<Rightarrow> hreq \<Rightarrow> nat \<Rightarrow> nat \<Rightarrow> error \<times> hresp \<times> bool \<times> rc_event list" where
  "rc_attempt env cfg req counted k = rc_tracing req counted (rc_measure req (rc_deadline env cfg k))"

subsection \<open>The call\<close>

text \<open>
  The retry loop from attempt \<open>k\<close> on, with \<open>counted\<close> attempts in the call state. It returns the
  error, the last response, the number counted and the events; \<^term>\<open>None\<close> is the panic of
  \<open>rand.N\<close>. The reset of the response between attempts, which keeps the caller's SkipBody, is
  the new response of the next attempt.
\<close>

function retry_loop :: "rc_env \<Rightarrow> rc_config \<Rightarrow> hreq \<Rightarrow> nat \<Rightarrow> nat \<Rightarrow> (error \<times> hresp \<times> nat \<times> rc_event list) option" where
  "retry_loop env cfg req k counted =
     (case rc_attempt env cfg req counted k of (err, resp, sent, evs) \<Rightarrow>
        let counted' = (if sent then Suc counted else counted) in
        if int k \<ge> rc_MaxAttempts cfg \<or> ev_retryErr env k \<noteq> nil then Some (err, resp, counted', evs)
        else case retryDelay env cfg k err resp of
          BackoffPanic \<Rightarrow> None
        | Stop \<Rightarrow> Some (err, resp, counted', evs)
        | RetryIn delay \<Rightarrow>
            (case ev_wait env k delay of
               Some e \<Rightarrow> Some (Some e, resp, counted', evs)
             | None \<Rightarrow> map_option (\<lambda>(err', resp', c', evs'). (err', resp', c', evs @ evs'))
                         (retry_loop env cfg req (Suc k) counted')))"
  by pat_completeness auto
termination by (relation "measure (\<lambda>(_, cfg, _, k, _). nat (rc_MaxAttempts cfg) - k)") auto

declare retry_loop.simps [simp del]

definition rc_retry :: "rc_env \<Rightarrow> rc_config \<Rightarrow> hreq \<Rightarrow> (error \<times> hresp \<times> nat \<times> rc_event list) option" where
  "rc_retry env cfg req =
     (if retryable req then retry_loop env cfg req 1 0
      else case rc_attempt env cfg req 0 1 of (err, resp, sent, evs) \<Rightarrow>
        Some (err, resp, (if sent then 1 else 0), evs))"

text \<open>The bound \<open>logging\<close> puts on the call: the caller's Hertz timeout, else the default when the
  context has no deadline.\<close>

definition call_bound :: "rc_config \<Rightarrow> bool \<Rightarrow> hreq \<Rightarrow> duration option" where
  "call_bound cfg hasDeadline req =
     (if hr_timeout req > 0 then Some (hr_timeout req)
      else if \<not> hasDeadline then Some (rc_Timeout cfg) else None)"

text \<open>The log line of \<open>logCall\<close>: its level and the attributes it carries.\<close>

definition logCall :: "hreq \<Rightarrow> hresp \<Rightarrow> error \<Rightarrow> nat \<Rightarrow> level option \<times> attrs" where
  "logCall req resp err attempts =
     (let base = [''http.request.method'' \<mapsto> VStr (fst (Method (hr_method req))),
            ''server.address'' \<mapsto> VStr (rc_serverAddress (hr_host req)), ''url.path'' \<mapsto> VStr (hr_path req)]
      in case err of
           None \<Rightarrow> ((if hs_status resp \<ge> 400 then Some LWarn else None),
                    base(''http.response.status_code'' \<mapsto> VInt (hs_status resp), ''attempts'' \<mapsto> VInt (int attempts)))
         | Some e \<Rightarrow> (Some LWarn, base(''error'' \<mapsto> VStr (error_string e), ''attempts'' \<mapsto> VInt (int attempts))))"

text \<open>A whole call through the chain, from \<open>logging\<close> in.\<close>

definition rc_call :: "rc_env \<Rightarrow> rc_config \<Rightarrow> hreq \<Rightarrow> hresp \<Rightarrow> (error \<times> hresp \<times> rc_event list \<times> level option \<times> attrs) option" where
  "rc_call env cfg req resp0 =
     (case checkURL req of
        Some e \<Rightarrow> Some (Some e, resp0, [], logCall req resp0 (Some e) 0)
      | None \<Rightarrow>
          map_option (\<lambda>(err, resp, n, evs). (err, resp, evs, logCall req resp err n)) (rc_retry env cfg req))"

subsection \<open>Backoff\<close>

lemma rc_Validate_backoff:
  assumes "rc_Validate parse durV (rc_SetDefaults c) = nil"
  shows "0 < rc_BackoffBase (rc_SetDefaults c)" "rc_BackoffBase (rc_SetDefaults c) \<le> rc_BackoffMax (rc_SetDefaults c)"
    "1 \<le> rc_MaxAttempts (rc_SetDefaults c)" "0 < rc_AttemptTimeout (rc_SetDefaults c)"
proof -
  let ?c = "rc_SetDefaults c"
  have nz: "rc_BackoffBase ?c \<noteq> 0" "rc_AttemptTimeout ?c \<noteq> 0"
    by (simp_all add: rc_SetDefaults_def Let_def rc_consts)
  have "\<not> rc_BackoffBase ?c < 0" "\<not> rc_AttemptTimeout ?c < 0" "\<not> rc_MaxAttempts ?c < 1" "\<not> rc_BackoffBase ?c > rc_BackoffMax ?c"
    using assms unfolding rc_Validate_def errors_Join_nil_iff append_is_Nil_conv
    by (auto simp: if_Nil_simps split: if_splits)
  with nz show "0 < rc_BackoffBase ?c" "rc_BackoffBase ?c \<le> rc_BackoffMax ?c" "1 \<le> rc_MaxAttempts ?c"
    "0 < rc_AttemptTimeout ?c" by linarith+
qed

lemma backoff_bound_min:
  assumes "0 < rc_BackoffBase cfg" and "rc_BackoffBase cfg \<le> rc_BackoffMax cfg" and "rc_BackoffMax cfg < 2 ^ 63"
  shows "backoff_bound cfg n = min (rc_BackoffMax cfg) (rc_BackoffBase cfg * 2 ^ nat (n - 1))" "0 < backoff_bound cfg n"
proof -
  let ?p = "2 ^ nat (n - 1) :: int"
  have le_div: "rc_BackoffBase cfg \<le> rc_BackoffMax cfg div ?p \<longleftrightarrow> rc_BackoffBase cfg * ?p \<le> rc_BackoffMax cfg"
  proof
    assume "rc_BackoffBase cfg \<le> rc_BackoffMax cfg div ?p"
    then have "rc_BackoffBase cfg * ?p \<le> rc_BackoffMax cfg div ?p * ?p" by (simp add: mult_right_mono)
    also have "\<dots> \<le> rc_BackoffMax cfg" by (simp add: minus_mod_eq_div_mult [symmetric])
    finally show "rc_BackoffBase cfg * ?p \<le> rc_BackoffMax cfg" .
  next
    assume "rc_BackoffBase cfg * ?p \<le> rc_BackoffMax cfg"
    then have "rc_BackoffBase cfg * ?p div ?p \<le> rc_BackoffMax cfg div ?p" by (intro zdiv_mono1) simp_all
    then show "rc_BackoffBase cfg \<le> rc_BackoffMax cfg div ?p" by simp
  qed
  show *: "backoff_bound cfg n = min (rc_BackoffMax cfg) (rc_BackoffBase cfg * ?p)"
  proof (cases "rc_BackoffBase cfg * ?p \<le> rc_BackoffMax cfg")
    case True
    have "0 \<le> rc_BackoffBase cfg * ?p" using assms(1) by simp
    with True assms(3) have "int64_wrap (rc_BackoffBase cfg * ?p) = rc_BackoffBase cfg * ?p"
      by (intro int64_wrap_id) linarith+
    with True show ?thesis by (simp add: backoff_bound_def Let_def le_div min_def)
  qed (simp add: backoff_bound_def Let_def le_div min_def)
  show "0 < backoff_bound cfg n" unfolding * using assms by simp
qed

text \<open>
  C35: The backoff of a validated configuration is exact at every attempt: the bound of the
  jitter is the smaller of \<open>BackoffMax\<close> and \<open>BackoffBase\<close> doubled per retry, however many
  retries there were, the shift never overflows, and the random source, which panics on an
  empty range, always gets a positive bound.
\<close>

theorem backoff_exact:
  assumes "rc_Validate parse durV (rc_SetDefaults c) = nil" and "rc_BackoffMax (rc_SetDefaults c) < 2 ^ 63"
  shows "let cfg = rc_SetDefaults c in
    backoff_bound cfg n = min (rc_BackoffMax cfg) (rc_BackoffBase cfg * 2 ^ nat (n - 1))
    \<and> backoff pick cfg n = Some (pick (backoff_bound cfg n)) \<and> 0 < backoff_bound cfg n"
proof -
  note b = backoff_bound_min [OF rc_Validate_backoff(1,2) [OF assms(1)] assms(2), of n]
  then have "\<not> backoff_bound (rc_SetDefaults c) n \<le> 0" by linarith
  with b show ?thesis unfolding Let_def backoff_def by metis
qed

definition zero_config :: rc_config where
  "zero_config = \<lparr>rc_Timeout = 0, rc_AttemptTimeout = 0, rc_MaxAttempts = 0, rc_BackoffBase = 0, rc_BackoffMax = 0,
     rc_MaxRetryAfter = 0, rc_DialTimeout = 0, rc_Proxy = ''''\<rparr>"

lemma zero_config_valid: "rc_Validate parse durV (rc_SetDefaults zero_config) = nil"
  "rc_BackoffMax (rc_SetDefaults zero_config) < 2 ^ 63"
  by (simp_all add: rc_Validate_def zero_config_def rc_SetDefaults_def rc_consts errors_Join_def)

theorem backoff_exact_witness: "backoff_bound (rc_SetDefaults zero_config) 100 = 2 * second"
proof -
  have "(20 :: int) * 2 ^ 94 \<le> 2 ^ 99 * 100 * 1000000" by simp
  then show ?thesis
    using backoff_exact [OF zero_config_valid, where n = 100] by (simp add: zero_config_def rc_SetDefaults_def rc_consts Let_def)
qed

subsection \<open>The retry policy\<close>

definition rtel :: "rc_event list \<Rightarrow> event list" where
  "rtel evs = List.map_filter (\<lambda>e. case e of RTel t \<Rightarrow> Some t | _ \<Rightarrow> None) evs"

definition timeouts :: "rc_event list \<Rightarrow> duration list" where
  "timeouts evs = List.map_filter (\<lambda>e. case e of Send d \<Rightarrow> Some d | _ \<Rightarrow> None) evs"

lemma rtel_simps [simp]:
  "rtel [] = []" "rtel (RTel t # evs) = t # rtel evs" "rtel (Send d # evs) = rtel evs" "rtel (CloseIdle # evs) = rtel evs"
  "rtel (evs @ evs') = rtel evs @ rtel evs'"
  by (simp_all add: rtel_def List.map_filter_def)

lemma timeouts_simps [simp]:
  "timeouts [] = []" "timeouts (RTel t # evs) = timeouts evs" "timeouts (Send d # evs) = d # timeouts evs"
  "timeouts (CloseIdle # evs) = timeouts evs" "timeouts (evs @ evs') = timeouts evs @ timeouts evs'"
  by (simp_all add: timeouts_def List.map_filter_def)

text \<open>One attempt: one span, one sample, and at most one transmission, within its timeouts.\<close>

definition one_attempt :: "rc_config \<Rightarrow> bool \<Rightarrow> rc_event list \<Rightarrow> bool" where
  "one_attempt cfg sent evs \<longleftrightarrow> spans_opened (rtel evs) = 1 \<and> spans_ended (rtel evs) = 1
     \<and> recorded ''http.client.request.duration'' (rtel evs) = 1
     \<and> (\<exists>d. timeouts evs = (if sent then [d] else []) \<and> 0 < d \<and> d \<le> max 1 (rc_AttemptTimeout cfg))"

definition attempt_result :: "rc_env \<Rightarrow> rc_config \<Rightarrow> nat \<Rightarrow> error \<times> hresp" where
  "attempt_result env cfg k = (case rc_deadline env cfg k of (err, resp, _, _) \<Rightarrow> (err, resp))"

lemma rc_deadline_events:
  assumes "rc_deadline env cfg k = (err, resp, sent, evs)"
  shows "rtel evs = [] \<and> (\<exists>d. timeouts evs = (if sent then [d] else []) \<and> 0 < d \<and> d \<le> max 1 (rc_AttemptTimeout cfg))"
  using assms by (fastforce simp: rc_deadline_def Let_def split: option.splits if_splits intro: exI [of _ 1])

lemma rc_attempt_events:
  assumes "rc_attempt env cfg req counted k = (err, resp, sent, evs)"
  shows "one_attempt cfg sent evs" "attempt_result env cfg k = (err, resp)"
proof -
  obtain err' resp' sent' evs' where d: "rc_deadline env cfg k = (err', resp', sent', evs')" by (metis prod_cases4)
  from rc_deadline_events [OF d] assms d show "one_attempt cfg sent evs"
    by (auto simp: rc_attempt_def rc_measure_def rc_tracing_def one_attempt_def Let_def split: if_splits prod.splits)
  from assms d show "attempt_result env cfg k = (err, resp)"
    by (auto simp: attempt_result_def rc_attempt_def rc_measure_def rc_tracing_def Let_def split: prod.splits)
qed

text \<open>The results after which the policy may send again.\<close>

definition may_retry :: "error \<Rightarrow> hresp \<Rightarrow> bool" where
  "may_retry err resp \<longleftrightarrow> (case err of Some e \<Rightarrow> retryErr e | None \<Rightarrow> hs_status resp \<in> {429, 502, 503, 504})"

lemma retryDelay_retry: "retryDelay env cfg k err resp = RetryIn d \<Longrightarrow> may_retry err resp"
  by (auto simp: retryDelay_def may_retry_def retryableStatuses_def Let_def split: option.splits if_splits)

lemma retryDelay_no_panic: "backoff (ev_pick env k) cfg (int k) \<noteq> None \<Longrightarrow> retryDelay env cfg k err resp \<noteq> BackoffPanic"
  by (auto simp: retryDelay_def Let_def split: option.split)

text \<open>A run of \<open>m\<close> attempts: its counts, and why each attempt but the last was followed by another.\<close>

definition retry_run :: "rc_env \<Rightarrow> rc_config \<Rightarrow> nat \<Rightarrow> nat \<Rightarrow> error \<Rightarrow> hresp \<Rightarrow> nat \<Rightarrow> rc_event list \<Rightarrow> bool" where
  "retry_run env cfg k m err resp sent evs \<longleftrightarrow>
     0 < m \<and> spans_opened (rtel evs) = m \<and> spans_ended (rtel evs) = m
     \<and> recorded ''http.client.request.duration'' (rtel evs) = m
     \<and> length (timeouts evs) = sent \<and> sent \<le> m
     \<and> (\<forall>d \<in> set (timeouts evs). 0 < d \<and> d \<le> max 1 (rc_AttemptTimeout cfg))
     \<and> (\<forall>i. k \<le> i \<and> i < k + m - 1 \<longrightarrow> case_prod may_retry (attempt_result env cfg i) \<and> ev_retryErr env i = nil)
     \<and> resp = snd (attempt_result env cfg (k + m - 1))
     \<and> (err = fst (attempt_result env cfg (k + m - 1)) \<or> (\<exists>d. err = ev_wait env (k + m - 1) d \<and> err \<noteq> nil))"

lemma retry_run_one:
  "rc_attempt env cfg req counted k = (err, resp, sent, evs) \<Longrightarrow>
   err' = err \<or> (\<exists>d. err' = ev_wait env k d \<and> err' \<noteq> nil) \<Longrightarrow>
   retry_run env cfg k 1 err' resp (if sent then 1 else 0) evs"
  using rc_attempt_events [of env cfg req counted k err resp sent evs]
  by (auto simp: retry_run_def one_attempt_def)

lemma retry_run_more:
  assumes "rc_attempt env cfg req counted k = (err, resp, sent, evs)"
    and "may_retry err resp" and "ev_retryErr env k = nil"
    and "retry_run env cfg (Suc k) m err' resp' n evs'"
  shows "retry_run env cfg k (Suc m) err' resp' ((if sent then 1 else 0) + n) (evs @ evs')"
proof -
  note a = rc_attempt_events [OF assms(1)]
  from a(2) have "case_prod may_retry (attempt_result env cfg i) \<and> ev_retryErr env i = nil" if "k \<le> i" "i < k + m" for i
    using that assms(2-4) by (cases "i = k") (auto simp: retry_run_def)
  with a(1) assms(4) show ?thesis by (auto simp: retry_run_def one_attempt_def)
qed

lemma retry_loop_run:
  assumes "\<And>i. backoff (ev_pick env i) cfg (int i) \<noteq> None"
  shows "\<exists>m err resp n evs. retry_loop env cfg req k counted = Some (err, resp, counted + n, evs)
     \<and> retry_run env cfg k m err resp n evs \<and> m \<le> max 1 (Suc (nat (rc_MaxAttempts cfg)) - k)"
proof (induction "nat (rc_MaxAttempts cfg) - k" arbitrary: k counted rule: less_induct)
  case less
  obtain err resp sent evs where a: "rc_attempt env cfg req counted k = (err, resp, sent, evs)" by (metis prod_cases4)
  let ?s = "if sent then 1 else 0 :: nat"
  note loop = retry_loop.simps [of env cfg req k counted, unfolded a, simplified]
  have stop: ?case if "retry_loop env cfg req k counted = Some (err', resp, counted + ?s, evs)"
    and "err' = err \<or> (\<exists>d. err' = ev_wait env k d \<and> err' \<noteq> nil)" for err'
    using that(1) retry_run_one [OF a that(2)] by (intro exI [of _ 1] exI conjI) auto
  show ?case
  proof (cases "int k \<ge> rc_MaxAttempts cfg \<or> ev_retryErr env k \<noteq> nil")
    case True
    then show ?thesis by (intro stop) (auto simp: loop)
  next
    case False
    show ?thesis
    proof (cases "retryDelay env cfg k err resp")
      case Stop
      with False show ?thesis by (intro stop) (auto simp: loop)
    next
      case (RetryIn d)
      show ?thesis
      proof (cases "ev_wait env k d")
        case (Some e)
        with False RetryIn have "retry_loop env cfg req k counted = Some (Some e, resp, counted + ?s, evs)" by (simp add: loop)
        then show ?thesis by (rule stop) (use Some in \<open>auto intro: exI [of _ d]\<close>)
      next
        case None
        from False have "nat (rc_MaxAttempts cfg) - Suc k < nat (rc_MaxAttempts cfg) - k" by linarith
        from less.hyps [OF this, of "counted + ?s"] obtain m err' resp' n evs' where
          ih: "retry_loop env cfg req (Suc k) (counted + ?s) = Some (err', resp', counted + ?s + n, evs')"
            "retry_run env cfg (Suc k) m err' resp' n evs'" "m \<le> max 1 (Suc (nat (rc_MaxAttempts cfg)) - Suc k)"
          by blast
        have "retry_loop env cfg req k counted = Some (err', resp', counted + (?s + n), evs @ evs')"
          using False RetryIn None ih(1) by (cases sent) (simp_all add: loop add_ac)
        moreover have "retry_run env cfg k (Suc m) err' resp' (?s + n) (evs @ evs')"
          using retry_run_more [OF a retryDelay_retry [OF RetryIn] _ ih(2)] False by simp
        moreover have "Suc m \<le> max 1 (Suc (nat (rc_MaxAttempts cfg)) - k)" using ih(3) False by linarith
        ultimately show ?thesis by blast
      qed
    next
      case BackoffPanic
      with retryDelay_no_panic [OF assms] show ?thesis by metis
    qed
  qed
qed

text \<open>
  C10: The retry policy of a validated client. A call never panics in the backoff; it makes
  some number of attempts, at least one and at most \<open>MaxAttempts\<close>, and exactly one when the
  request cannot be replayed (a streamed body, a reader part, or a method that is not
  idempotent without an idempotency key). Every attempt has its own span, started and ended,
  and its own duration sample; every transmission has a timeout that is positive and no
  longer than \<open>AttemptTimeout\<close>; an attempt is followed by another only if its error or its
  status is one the policy retries and the call's context is still live; and the call's
  result is that of the last attempt, or the error of the wait after it.
\<close>

theorem retry_policy:
  assumes "rc_Validate parse durV (rc_SetDefaults c) = nil" and "rc_BackoffMax (rc_SetDefaults c) < 2 ^ 63"
  shows "\<exists>m err resp sent evs. rc_retry env (rc_SetDefaults c) req = Some (err, resp, sent, evs)
    \<and> retry_run env (rc_SetDefaults c) 1 m err resp sent evs
    \<and> int m \<le> rc_MaxAttempts (rc_SetDefaults c) \<and> (\<not> retryable req \<longrightarrow> m = 1)"
proof (cases "retryable req")
  case True
  have "backoff (ev_pick env i) (rc_SetDefaults c) (int i) \<noteq> None" for i
    using backoff_bound_min(2) [OF rc_Validate_backoff(1,2) [OF assms(1)] assms(2), of "int i"]
    by (simp add: backoff_def Let_def)
  from retry_loop_run [OF this, where req = req and k = 1 and counted = 0] obtain m err resp n evs where
    "retry_loop env (rc_SetDefaults c) req 1 0 = Some (err, resp, n, evs)"
    "retry_run env (rc_SetDefaults c) 1 m err resp n evs" "m \<le> max 1 (nat (rc_MaxAttempts (rc_SetDefaults c)))"
    by auto
  with True rc_Validate_backoff(3) [OF assms(1)] show ?thesis by (fastforce simp: rc_retry_def)
next
  case False
  obtain err resp sent evs where a: "rc_attempt env (rc_SetDefaults c) req 0 1 = (err, resp, sent, evs)" by (metis prod_cases4)
  with False retry_run_one [OF a, of err] rc_Validate_backoff(3) [OF assms(1)] show ?thesis
    by (auto simp: rc_retry_def intro!: exI [of _ 1])
qed

definition demo_req :: hreq where
  "demo_req = \<lparr>hr_method = ''GET'', hr_scheme = ''https'', hr_host = ''api.example.com'', hr_path = ''/v1'', hr_pathOriginal = ''/v1'',
     hr_query = ''token=s3cret&page=2&raw'', hr_isStream = False, hr_files = [], hr_fields = [], hr_idempotencyKey = '''', hr_timeout = 0\<rparr>"

text \<open>A server that answers 503 once and then 200.\<close>

definition flaky_env :: rc_env where
  "flaky_env = \<lparr>ev_entryErr = \<lambda>_. nil, ev_afterErr = \<lambda>_. nil, ev_retryErr = \<lambda>_. nil, ev_left = \<lambda>_. None, ev_leftRetry = \<lambda>_. None,
     ev_transport = \<lambda>k. (nil, \<lparr>hs_status = (if k = 1 then 503 else 200), hs_proto = ''HTTP/1.1'', hs_retryAfter = ''2''\<rparr>),
     ev_pick = \<lambda>_ b. b - 1, ev_untilDate = \<lambda>_. None, ev_wait = \<lambda>_ _. nil\<rparr>"

theorem retry_policy_witness:
  "\<exists>m err resp sent evs. rc_retry flaky_env (rc_SetDefaults zero_config) demo_req = Some (err, resp, sent, evs)
    \<and> retry_run flaky_env (rc_SetDefaults zero_config) 1 m err resp sent evs \<and> m \<le> 3"
proof -
  have "rc_MaxAttempts (rc_SetDefaults zero_config) = 3" by (simp add: zero_config_def rc_SetDefaults_def rc_consts)
  then show ?thesis using retry_policy [OF zero_config_valid, where env = flaky_env and req = demo_req]
    by (metis of_nat_le_iff of_nat_numeral)
qed

subsection \<open>Retry-After\<close>

text \<open>
  A Retry-After that the client accepts is a duration of the type's range that is not
  negative, whatever the server sent: a number of seconds of any size is clamped before the
  multiplication, so it never wraps into a short or negative wait; a negative number is
  refused; and the client waits for no longer than \<open>MaxRetryAfter\<close> because of it.
\<close>

theorem retryAfter_bounded:
  "(case parseRetryAfter untilDate v of
      None \<Rightarrow> True
    | Some d \<Rightarrow> 0 \<le> d \<and> (\<forall>secs ok. atoi v = (secs, ok) \<and> (ok \<or> secs \<noteq> 0) \<longrightarrow>
          0 \<le> secs \<and> d = second * min secs (9223372036854775807 div second)))
   \<and> (\<forall>delay d. retryDelay env cfg k nil resp = RetryIn delay \<and> hs_status resp \<in> {429, 503}
        \<and> parseRetryAfter (ev_untilDate env) (hs_retryAfter resp) = Some d \<longrightarrow> delay = d \<and> delay \<le> rc_MaxRetryAfter cfg)"
proof -
  have wrap: "int64_wrap (min secs maxRetryAfterSeconds * second) = min secs maxRetryAfterSeconds * second"
    if "0 \<le> secs" for secs
  proof (rule int64_wrap_id)
    have "0 \<le> min secs maxRetryAfterSeconds * second" using that by (simp add: maxRetryAfterSeconds_def second_def millisecond_def)
    then show "- (2 ^ 63) \<le> min secs maxRetryAfterSeconds * second" by (rule order_trans [rotated]) simp
    have "min secs maxRetryAfterSeconds \<le> 9223372036" by (simp add: maxRetryAfterSeconds_def second_def millisecond_def)
    then show "min secs maxRetryAfterSeconds * second < 2 ^ 63" by (simp add: second_def millisecond_def)
  qed
  have pos: "0 \<le> maxRetryAfterSeconds" "0 \<le> second" by (simp_all add: maxRetryAfterSeconds_def second_def millisecond_def)
  have "case parseRetryAfter untilDate v of None \<Rightarrow> True
    | Some d \<Rightarrow> 0 \<le> d \<and> (\<forall>secs ok. atoi v = (secs, ok) \<and> (ok \<or> secs \<noteq> 0) \<longrightarrow> 0 \<le> secs \<and> d = second * min secs (9223372036854775807 div second))"
    using pos by (cases "atoi v")
      (auto simp: parseRetryAfter_def wrap maxRetryAfterSeconds_def [symmetric, simplified] mult.commute [of second] split: option.split)
  moreover have "delay = d \<and> delay \<le> rc_MaxRetryAfter cfg"
    if "retryDelay env cfg k nil resp = RetryIn delay" "hs_status resp \<in> {429, 503}"
      "parseRetryAfter (ev_untilDate env) (hs_retryAfter resp) = Some d" for delay d
    using that by (auto simp: retryDelay_def Let_def split: option.splits if_splits)
  ultimately show ?thesis by blast
qed

theorem retryAfter_bounded_witness:
  "retryDelay flaky_env (rc_SetDefaults zero_config) 1 nil (snd (ev_transport flaky_env 1)) = RetryIn (2 * second)
   \<and> 2 * second \<le> rc_MaxRetryAfter (rc_SetDefaults zero_config)"
proof -
  let ?resp = "snd (ev_transport flaky_env 1)"
  have "parseRetryAfter (ev_untilDate flaky_env) (hs_retryAfter ?resp) = Some (2 * second)" "hs_status ?resp \<in> {429, 503}"
    by code_simp+
  moreover have "retryDelay flaky_env (rc_SetDefaults zero_config) 1 nil ?resp = RetryIn (2 * second)" by code_simp
  ultimately show ?thesis
    using retryAfter_bounded [where env = flaky_env and cfg = "rc_SetDefaults zero_config" and k = 1 and resp = ?resp] by blast
qed

subsection \<open>Redaction hides the values\<close>

text \<open>A query as its parameters: a name with a value, or a bare token.\<close>

definition param_seg :: "string \<times> string option \<Rightarrow> string" where
  "param_seg p = (case snd p of Some w \<Rightarrow> fst p @ ''='' @ w | None \<Rightarrow> fst p)"

definition query_of :: "(string \<times> string option) list \<Rightarrow> string" where
  "query_of ps = join_with ''&'' (map param_seg ps)"

definition well_formed_param :: "string \<times> string option \<Rightarrow> bool" where
  "well_formed_param p = (CHR ''&'' \<notin> set (fst p) \<and> CHR ''='' \<notin> set (fst p)
     \<and> (case snd p of Some w \<Rightarrow> CHR ''&'' \<notin> set w | None \<Rightarrow> fst p \<noteq> ''''))"

definition redacted_param :: "string \<times> string option \<Rightarrow> string" where
  "redacted_param p = (case snd p of Some _ \<Rightarrow> fst p @ ''=REDACTED'' | None \<Rightarrow> ''REDACTED'')"

lemma redacted_param_ne [simp]: "redacted_param p \<noteq> ''''"
  by (simp add: redacted_param_def split: option.split)

lemma redact_loop_param:
  "well_formed_param p \<Longrightarrow> redact_loop (param_seg p # segs) b = redact_loop segs ((if b \<noteq> '''' then b @ ''&'' else b) @ redacted_param p)"
  by (auto simp: well_formed_param_def redacted_param_def param_seg_def Let_def split: option.split)

lemma redact_loop_join:
  assumes "\<forall>p \<in> set ps. well_formed_param p" and "b \<noteq> ''''"
  shows "redact_loop (map param_seg ps) b = b @ concat (map (\<lambda>w. ''&'' @ w) (map redacted_param ps))"
  using assms by (induction ps arbitrary: b) (simp_all add: redact_loop_param del: redact_loop.simps(2))

lemma join_with_concat: "join_with s (x # xs) = x @ concat (map (\<lambda>w. s @ w) xs)"
  by (induction xs arbitrary: x) simp_all

text \<open>
  C34: Redaction of a query string. Every value is replaced, and a token without a value,
  which may itself be a secret, is replaced whole; the result is made of the parameter names
  alone, so two queries that differ only in values or in bare tokens are logged alike.
\<close>

theorem redactQuery_hides:
  assumes "\<forall>p \<in> set ps. well_formed_param p"
  shows "redactQuery (query_of ps) = join_with ''&'' (map redacted_param ps)"
proof (cases ps)
  case Nil
  then show ?thesis by (simp add: redactQuery_def query_of_def)
next
  case (Cons p qs)
  from assms have "\<forall>w \<in> set (map param_seg ps). CHR ''&'' \<notin> set w"
    by (auto simp: well_formed_param_def param_seg_def split: option.splits)
  then have "redactQuery (query_of ps) = redact_loop (map param_seg ps) ''''"
    using Cons unfolding query_of_def redactQuery_def by (subst split_join) simp_all
  also have "\<dots> = redact_loop (map param_seg qs) (redacted_param p)"
    using assms Cons by (simp add: redact_loop_param del: redact_loop.simps(2))
  also have "\<dots> = join_with ''&'' (map redacted_param ps)"
    using assms Cons by (subst redact_loop_join) (simp_all add: join_with_concat comp_def)
  finally show ?thesis .
qed

theorem redactQuery_hides_witness:
  "redactQuery (query_of [(''token'', Some ''s3cret''), (''raw'', None)]) = ''token=REDACTED&REDACTED''"
  using redactQuery_hides [of "[(''token'', Some ''s3cret''), (''raw'', None)]"]
  by (simp add: well_formed_param_def redacted_param_def)

subsection \<open>The RoundTripper\<close>

text \<open>
  What RoundTrip reads of a \<open>net/http\<close> request: the body is nil, or a reader with what reading
  it yields; the headers are the entries of the map in some order.
\<close>

record http_req =
  ht_Body :: "(gerr + string) option"
  ht_URL :: "string option"
  ht_Method :: string
  ht_Header :: "(string \<times> string list) list"
  ht_Host :: string

text \<open>The body, and whether it was closed.\<close>

definition readBody :: "http_req \<Rightarrow> (gerr + string) \<times> bool" where
  "readBody req =
     (case ht_Body req of
        None \<Rightarrow> (Inr '''', False)
      | Some (Inl e) \<Rightarrow> (Inl (errorf (''rest/client: read request body: '' @ error_string e) [e]), True)
      | Some (Inr b) \<Rightarrow> (Inr b, True))"

definition managed_headers :: "string list" where
  "managed_headers = [''Host'', ''Content-Length'', ''Transfer-Encoding'', ''Trailer'', ''Traceparent'', ''Tracestate'', ''Baggage'']"

text \<open>The values added to the Hertz request, in order.\<close>

definition copyHeader :: "(string \<times> string list) list \<Rightarrow> (string \<times> string) list" where
  "copyHeader h = concat (map (\<lambda>(k, vs). if CanonicalHeaderKey k \<in> set managed_headers then [] else map (\<lambda>v. (k, v)) vs) h)"

text \<open>The request handed to the Hertz client, and what the client's response has.\<close>

record hertz_req =
  hq_uri :: string
  hq_method :: string
  hq_headers :: "(string \<times> string) list"
  hq_hostHeader :: "string option"
  hq_body :: "string option"

record hertz_resp =
  hp_status :: int
  hp_headers :: "(string \<times> string) list"
  hp_body :: string
  hp_contentLength :: int

record http_resp =
  hx_Status :: string
  hx_StatusCode :: int
  hx_Header :: "string \<Rightarrow> string list"
  hx_Body :: string
  hx_ContentLength :: int

definition httpResponse :: "http_req \<Rightarrow> hertz_resp \<Rightarrow> http_resp" where
  "httpResponse req r =
     (let code = hp_status r;
          status = (if StatusText code \<noteq> '''' then itoa code @ '' '' @ StatusText code else itoa code);
          header = foldl (\<lambda>h (k, v). h(CanonicalHeaderKey k := h (CanonicalHeaderKey k) @ [v])) (\<lambda>_. []) (hp_headers r);
          resp = \<lparr>hx_Status = status, hx_StatusCode = code, hx_Header = header, hx_Body = hp_body r, hx_ContentLength = int (length (hp_body r))\<rparr>
      in if ht_Method req = ''HEAD'' then resp\<lparr>hx_Body := '''', hx_ContentLength := max (hp_contentLength r) (- 1)\<rparr> else resp)"

text \<open>\<open>do\<close> is the call through the client; the second result says whether the body was closed.\<close>

definition RoundTrip :: "(hertz_req \<Rightarrow> gerr + hertz_resp) \<Rightarrow> http_req \<Rightarrow> (gerr + http_resp) \<times> bool" where
  "RoundTrip hdo req =
     (case readBody req of
        (Inl e, closed) \<Rightarrow> (Inl e, closed)
      | (Inr body, closed) \<Rightarrow>
          (case ht_URL req of
             None \<Rightarrow> (Inl (errors_New ''rest/client: request URL is nil''), closed)
           | Some url \<Rightarrow>
               (let hreq = \<lparr>hq_uri = url, hq_method = ht_Method req, hq_headers = copyHeader (ht_Header req),
                      hq_hostHeader = (if ht_Host req \<noteq> '''' then Some (ht_Host req) else None),
                      hq_body = (if length body > 0 then Some body else None)\<rparr>
                in case hdo hreq of
                     Inl e \<Rightarrow> (Inl e, closed)
                   | Inr r \<Rightarrow> (Inr (httpResponse req r), closed))))"

text \<open>A new connection and the deadline set on it, as time from now.\<close>

definition DialConnection :: "(duration \<Rightarrow> gerr + 'conn) \<Rightarrow> duration \<Rightarrow> (gerr + 'conn) \<times> duration option" where
  "DialConnection dial tmo = (let r = dial tmo in (r, if tmo > 0 \<and> \<not> isl r then Some tmo else None))"

lemma header_byte_lower: "header_byte (ascii_lower c) \<longleftrightarrow> header_byte c"
  by (cases "byte_between CHR ''A'' CHR ''Z'' c") (auto simp: header_byte_def lower_letter lower_other)

lemma canon_loop_lower: "canon_loop up (map ascii_lower s) = canon_loop up s"
  by (induction up s rule: canon_loop.induct) (simp_all add: upper_lower lower_lower lower_hyphen)

text \<open>Header names are compared without regard to case.\<close>

lemma CanonicalHeaderKey_lower:
  assumes "list_all header_byte k"
  shows "CanonicalHeaderKey k = canon_loop True (map ascii_lower k)"
  using assms by (simp add: CanonicalHeaderKey_def canon_loop_lower)

definition unsent_names :: "string list" where
  "unsent_names = [''host'', ''content-length'', ''transfer-encoding'', ''trailer'', ''traceparent'', ''tracestate'', ''baggage'']"

lemma unsent_canonical: "map (canon_loop True) unsent_names = managed_headers" "list_all (list_all header_byte) unsent_names"
  by code_simp+

lemma unsent_managed:
  assumes "map ascii_lower k \<in> set unsent_names"
  shows "CanonicalHeaderKey k \<in> set managed_headers"
proof -
  have "list_all header_byte (map ascii_lower k)" using unsent_canonical(2) assms by (auto simp: list_all_iff)
  then have "list_all header_byte k" by (simp add: list_all_iff header_byte_lower)
  then show ?thesis using assms unsent_canonical(1) by (metis CanonicalHeaderKey_lower in_set_conv_nth length_map nth_map nth_mem)
qed



end
