(* ===== verification/Rest_Server.thy ===== *)
theory Rest_Server
  imports Rest_Semconv Go_Net Errs
begin

text \<open>
  Package \<open>rest/server\<close>: configuration, the problem+json error format, the five layers every
  request goes through (request ID, tracing, metrics, access log, panic recovery) around the
  team's middleware and handler, and the shutdown protocol of \<open>Run\<close>. A handler is any
  function on the request context that may panic. What Hertz does with response headers and
  bodies is a parameter, \<open>hertz\<close>, with its documented behaviour as the hypothesis \<open>hertz_laws\<close>.
\<close>

subsection \<open>Configuration\<close>

record sv_config =
  sv_Addr :: string
  sv_ReadTimeout :: duration
  sv_WriteTimeout :: duration
  sv_ShutdownTimeout :: duration

definition sv_defaultAddr :: string where "sv_defaultAddr = '':3000''"
definition sv_defaultReadTimeout :: duration where "sv_defaultReadTimeout = 30 * second"
definition sv_defaultWriteTimeout :: duration where "sv_defaultWriteTimeout = 30 * second"
definition sv_defaultShutdownTimeout :: duration where "sv_defaultShutdownTimeout = 10 * second"

definition sv_SetDefaults :: "sv_config \<Rightarrow> sv_config" where
  "sv_SetDefaults c0 =
     (let c1 = (if sv_Addr c0 = '''' then c0\<lparr>sv_Addr := sv_defaultAddr\<rparr> else c0);
          c2 = (if sv_ReadTimeout c1 = 0 then c1\<lparr>sv_ReadTimeout := sv_defaultReadTimeout\<rparr> else c1);
          c3 = (if sv_WriteTimeout c2 = 0 then c2\<lparr>sv_WriteTimeout := sv_defaultWriteTimeout\<rparr> else c2)
      in if sv_ShutdownTimeout c3 = 0 then c3\<lparr>sv_ShutdownTimeout := sv_defaultShutdownTimeout\<rparr> else c3)"

text \<open>\<open>splitErr\<close> is the error of \<open>net.SplitHostPort\<close> on an address it refuses.\<close>

definition sv_Validate :: "(string \<Rightarrow> gerr) \<Rightarrow> (duration \<Rightarrow> string) \<Rightarrow> sv_config \<Rightarrow> error" where
  "sv_Validate splitErr durV c = errors_Join
     ((if SplitHostPort (sv_Addr c) = None
       then [errorf (''rest/server: addr must be host:port: '' @ error_string (splitErr (sv_Addr c))) [splitErr (sv_Addr c)]] else [])
      @ map (\<lambda>(name, d). errors_New (''rest/server: '' @ name @ '' '' @ durV d @ '' must not be negative''))
          (filter (\<lambda>(_, d). d < 0)
            [(''read_timeout'', sv_ReadTimeout c), (''write_timeout'', sv_WriteTimeout c), (''shutdown_timeout'', sv_ShutdownTimeout c)]))"

subsection \<open>The request context\<close>

record problem =
  p_title :: string
  p_status :: int
  p_detail :: string
  p_code :: int
  p_requestID :: string

text \<open>The members of the JSON body: the empty ones are left out.\<close>

definition problem_members :: "problem \<Rightarrow> (string \<times> anyval) list" where
  "problem_members p =
     [(''title'', VStr (p_title p)), (''status'', VInt (p_status p))]
     @ (if p_detail p \<noteq> '''' then [(''detail'', VStr (p_detail p))] else [])
     @ (if p_code p \<noteq> 0 then [(''code'', VInt (p_code p))] else [])
     @ [(''request_id'', VStr (p_requestID p))]"

text \<open>A response: what was written to the body, in order, and the hijack writer, if any.\<close>

datatype chunk = Json "(string \<times> anyval) list" | Bytes string

datatype hijack_writer = HandlerWriter | AbortedWriter

type_synonym headers = "(string \<times> string) list"

record response =
  rs_status :: int
  rs_headers :: headers
  rs_body :: "chunk list"
  rs_writer :: "hijack_writer option"

text \<open>What the layers read of the request, and what they and the handler change.\<close>

record rctx =
  rq_method :: string
  rq_path :: string
  rq_scheme :: string
  rq_host :: string
  rq_proto :: string
  rq_userAgent :: string
  rq_requestID :: string
  rq_traceparent :: "string option"
  rq_remoteAddr :: "string option"
  rq_fullPath :: string
  c_requestID :: string
  c_errors :: "gerr list"
  c_aborted :: bool
  c_hijackHandler :: bool
  c_response :: response

text \<open>
  The operations of Hertz on a response: the canonical form of a header name, \<open>Header.Set\<close>,
  \<open>Header.Add\<close>, \<open>Response.Reset\<close> and \<open>RequestContext.Data\<close>.
\<close>

record hertz =
  hz_norm :: "string \<Rightarrow> string"
  hz_Set :: "string \<Rightarrow> string \<Rightarrow> headers \<Rightarrow> headers"
  hz_Add :: "string \<Rightarrow> string \<Rightarrow> headers \<Rightarrow> headers"
  hz_Reset :: "response \<Rightarrow> response"
  hz_Data :: "int \<Rightarrow> string \<Rightarrow> chunk \<Rightarrow> response \<Rightarrow> response"

definition requestIDHeader :: string where "requestIDHeader = ''X-Request-ID''"
definition requestIDHeaderKey :: string where "requestIDHeaderKey = ''x-request-id''"
definition problemContentType :: string where "problemContentType = ''application/problem+json''"

definition set_header :: "hertz \<Rightarrow> string \<Rightarrow> string \<Rightarrow> rctx \<Rightarrow> rctx" where
  "set_header hz k v c = c\<lparr>c_response := (c_response c)\<lparr>rs_headers := hz_Set hz k v (rs_headers (c_response c))\<rparr>\<rparr>"

subsection \<open>Problems\<close>

definition problemTitle :: "int \<Rightarrow> string" where
  "problemTitle status =
     (if StatusText status \<noteq> '''' then StatusText status
      else if status \<ge> 500 then ''Server Error'' else ''Client Error'')"

definition requestIDOf :: "rctx \<Rightarrow> string" where
  "requestIDOf c = c_requestID c"

definition writeProblem :: "hertz \<Rightarrow> rctx \<Rightarrow> int \<Rightarrow> string \<Rightarrow> int \<Rightarrow> rctx" where
  "writeProblem hz c status detail code =
     (let i = requestIDOf c;
          c1 = set_header hz requestIDHeader i c;
          body = problem_members \<lparr>p_title = problemTitle status, p_status = status, p_detail = detail, p_code = code, p_requestID = i\<rparr>
      in c1\<lparr>c_response := hz_Data hz status problemContentType (Json body) (c_response c1)\<rparr>)"

definition server_Error :: "hertz \<Rightarrow> rctx \<Rightarrow> int \<Rightarrow> error \<Rightarrow> rctx" where
  "server_Error hz c0 status0 err =
     (let status = (if status0 < 400 \<or> status0 > 599 then 500 else status0);
          c = (case err of Some e \<Rightarrow> c0\<lparr>c_errors := c_errors c0 @ [e]\<rparr> | None \<Rightarrow> c0);
          detail = (if status < 500 then
                      (case Option.bind err errs_node of
                         Some e \<Rightarrow> if addr e \<noteq> 0 then message e else ''''
                       | None \<Rightarrow> '''')
                    else '''');
          code = (if status < 500 then fst (ErrsCode err) else 0)
      in (writeProblem hz c status detail code)\<lparr>c_aborted := True\<rparr>)"

subsection \<open>The layers\<close>

text \<open>What a request leaves behind besides its response.\<close>

datatype sv_event =
    STel event
  | SpanLink string
  | AccessLog level "(string \<times> slog_value) list"
  | PanicLog "(string \<times> string) list"

text \<open>A panic value, as its type and its printed form.\<close>

type_synonym panicv = "string \<times> string"

text \<open>
  A step of the chain: from the request ID in the context and the request context to the
  request context, the events and the panic it ended with, if any.
\<close>

type_synonym sv_result = "rctx \<times> sv_event list \<times> panicv option"
type_synonym handler = "string \<Rightarrow> rctx \<Rightarrow> sv_result"

definition id_char :: "char \<Rightarrow> bool" where
  "id_char ch = (byte_between CHR ''a'' CHR ''z'' ch \<or> byte_between CHR ''A'' CHR ''Z'' ch \<or> byte_between CHR ''0'' CHR ''9'' ch
     \<or> ch = CHR ''.'' \<or> ch = CHR ''_'' \<or> ch = CHR ''-'')"

definition validRequestID :: "string \<Rightarrow> bool" where
  "validRequestID i = (if length i = 0 \<or> length i > 64 then False else list_all id_char i)"

text \<open>\<open>gen\<close> is the text \<open>crypto/rand\<close> generates.\<close>

definition requestID :: "hertz \<Rightarrow> string \<Rightarrow> handler \<Rightarrow> rctx \<Rightarrow> sv_result" where
  "requestID hz gen next c =
     (let i = (if validRequestID (rq_requestID c) then rq_requestID c else gen)
      in next i (set_header hz requestIDHeader i (c\<lparr>c_requestID := i\<rparr>)))"

definition serverAttributes :: "string \<Rightarrow> attrs" where
  "serverAttributes host =
     (if host = '''' then Map.empty
      else let (name, port) = (case SplitHostPort host of Some np \<Rightarrow> np | None \<Rightarrow> (host, ''''));
               a = opt_attr (name \<noteq> '''') ''server.address'' (VStr name) Map.empty
           in case atoi port of (n, ok) \<Rightarrow> opt_attr ok ''server.port'' (VInt n) a)"

definition peerAttributes :: "string option \<Rightarrow> attrs" where
  "peerAttributes addr0 =
     (case addr0 of
        None \<Rightarrow> Map.empty
      | Some a \<Rightarrow>
          (case SplitHostPort a of
             None \<Rightarrow> Map.empty
           | Some (host, _) \<Rightarrow> opt_attr (host \<noteq> '''') ''network.peer.address'' (VStr host) Map.empty))"

definition startAttributes :: "string \<Rightarrow> rctx \<Rightarrow> string \<Rightarrow> string \<Rightarrow> attrs" where
  "startAttributes ctx c method original =
     (let a1 = opt_attr (original \<noteq> '''') ''http.request.method_original'' (VStr original) [''http.request.method'' \<mapsto> VStr method];
          a2 = opt_attr (rq_path c \<noteq> '''') ''url.path'' (VStr (rq_path c)) a1;
          a3 = a2(''url.scheme'' \<mapsto> VStr (Scheme (rq_scheme c)));
          a4 = opt_attr (rq_fullPath c \<noteq> '''') ''http.route'' (VStr (rq_fullPath c)) a3;
          a5 = a4 ++ serverAttributes (rq_host c) ++ peerAttributes (rq_remoteAddr c);
          a6 = opt_attr (ProtocolVersion (rq_proto c) \<noteq> '''') ''network.protocol.version'' (VStr (ProtocolVersion (rq_proto c))) a5;
          a7 = opt_attr (rq_userAgent c \<noteq> '''') ''user_agent.original'' (VStr (rq_userAgent c)) a6
      in opt_attr (ctx \<noteq> '''') (''http.request.header.'' @ requestIDHeaderKey) (VOther (''['' @ ctx @ '']'')) a7)"

text \<open>The first bound error with a non-zero code.\<close>

definition boundErrsCode :: "rctx \<Rightarrow> (int \<times> gerr) option" where
  "boundErrsCode c = first_some (\<lambda>e. case ErrsCode (Some e) of (code, ok) \<Rightarrow> if ok then Some (code, e) else None) (c_errors c)"

definition end_attrs :: "rctx \<Rightarrow> attrs \<Rightarrow> attrs" where
  "end_attrs c a =
     (let status = rs_status (c_response c);
          a1 = (case boundErrsCode c of Some (code, _) \<Rightarrow> a(ErrsCodeKey \<mapsto> VInt code) | None \<Rightarrow> a)
      in opt_attr (status \<ge> 500) ''error.type'' (VStr (ServerErrorType status)) a1)"

definition endAttributes :: "rctx \<Rightarrow> sv_event list" where
  "endAttributes c =
     (let status = rs_status (c_response c)
      in (if status \<ge> 500 then [STel (SpanStatusError '''')] else [])
         @ [STel (SpanAttrs (end_attrs c [''http.response.status_code'' \<mapsto> VInt status]))])"

text \<open>The span starts a new trace; a valid incoming span context is only a link. It ends even
  when the chain panics, then without the response attributes.\<close>

definition tracing :: "handler \<Rightarrow> handler" where
  "tracing next ctx c =
     (let (method, original) = Method (rq_method c);
          start = STel (SpanStart (SpanName method (rq_fullPath c)) (startAttributes ctx c method original))
            # (case rq_traceparent c of Some sc \<Rightarrow> [SpanLink sc] | None \<Rightarrow> [])
      in case next ctx c of (c', evs, pan) \<Rightarrow>
           (c', start @ evs @ (if pan = None then endAttributes c' else []) @ [STel SpanEnd], pan))"

definition active_attrs :: "rctx \<Rightarrow> attrs" where
  "active_attrs c = [''http.request.method'' \<mapsto> VStr (fst (Method (rq_method c))), ''url.scheme'' \<mapsto> VStr (Scheme (rq_scheme c))]"

definition ServerActiveRequests :: string where "ServerActiveRequests = ''http.server.active_requests''"
definition ServerRequestDuration :: string where "ServerRequestDuration = ''http.server.request.duration''"

definition sv_measure :: "handler \<Rightarrow> handler" where
  "sv_measure next ctx c =
     (let active = active_attrs c in
      case next ctx c of (c', evs, pan) \<Rightarrow>
        let attrs = end_attrs c'
              (opt_attr (ProtocolVersion (rq_proto c') \<noteq> '''') ''network.protocol.version'' (VStr (ProtocolVersion (rq_proto c')))
                (opt_attr (rq_fullPath c' \<noteq> '''') ''http.route'' (VStr (rq_fullPath c'))
                  (active(''http.response.status_code'' \<mapsto> VInt (rs_status (c_response c'))))))
        in (c', STel (MetricAdd ServerActiveRequests 1 active) # evs
              @ (if pan = None then [STel (MetricRecord ServerRequestDuration attrs)] else [])
              @ [STel (MetricAdd ServerActiveRequests (- 1) active)], pan))"

text \<open>
  The log value of a bound error: \<^term>\<open>None\<close> is the nil dereference of \<open>LogValue\<close> on a nil
  pointer below the first application error.
\<close>

definition boundErrorValue :: "(nat list \<Rightarrow> string list) \<Rightarrow> gerr \<Rightarrow> slog_value option" where
  "boundErrorValue frames e =
     (case find is_errs (chain e) of
        Some x \<Rightarrow>
          if addr (the (app (facets_of x))) = 0 then Some (SString ''nil *errs.Error'')
          else if LogValue_nil x then None else Some (LogValue frames x)
      | None \<Rightarrow> Some (SErr e))"

text \<open>No attribute, a panic, or the attribute.\<close>

definition boundErrorAttr :: "(nat list \<Rightarrow> string list) \<Rightarrow> rctx \<Rightarrow> (string \<times> slog_value) list option" where
  "boundErrorAttr frames c =
     (case c_errors c of
        [] \<Rightarrow> Some []
      | [e] \<Rightarrow> map_option (\<lambda>v. [(''error'', v)]) (boundErrorValue frames e)
      | es \<Rightarrow>
          if list_all (\<lambda>e. boundErrorValue frames e \<noteq> None) es
          then Some [(''errors'', SGroup (map (\<lambda>(i, e). (itoa (int i), the (boundErrorValue frames e))) (List.enumerate 0 es)))]
          else None)"

definition nil_deref :: panicv where
  "nil_deref = (''runtime.errorString'', ''runtime error: invalid memory address or nil pointer dereference'')"

definition logging :: "(nat list \<Rightarrow> string list) \<Rightarrow> handler \<Rightarrow> handler" where
  "logging frames next ctx c =
     (case next ctx c of (c', evs, pan) \<Rightarrow>
        if pan \<noteq> None then (c', evs, pan)
        else
          (let status = rs_status (c_response c');
               attrs = [(''http.request.method'', SString (fst (Method (rq_method c')))), (''url.path'', SString (rq_path c'))]
                 @ (if rq_fullPath c' \<noteq> '''' then [(''http.route'', SString (rq_fullPath c'))] else [])
                 @ [(''http.response.status_code'', SInt status)]
                 @ (if requestIDOf c' \<noteq> '''' then [(''request_id'', SString (requestIDOf c'))] else [])
           in case boundErrorAttr frames c' of
                None \<Rightarrow> (c', evs, Some nil_deref)
              | Some a \<Rightarrow>
                  (c', evs @ [AccessLog (if status \<ge> 500 then LError else if status \<ge> 400 then LWarn else LInfo) (attrs @ a)], None)))"

text \<open>No byte of a multi-byte rune lowers to a letter of the prefix, so the ASCII mapping decides it.\<close>

definition header_name :: "string \<Rightarrow> string" where
  "header_name key = map ascii_lower key"

definition is_cors :: "string \<Rightarrow> bool" where
  "is_cors key = prefix ''access-control-'' (header_name key)"

definition corsHeaders :: "headers \<Rightarrow> headers" where
  "corsHeaders h = filter (\<lambda>(k, _). is_cors k) h"

text \<open>\<open>stk\<close> is the text of \<open>debug.Stack\<close>.\<close>

definition recovery :: "hertz \<Rightarrow> string \<Rightarrow> handler \<Rightarrow> handler" where
  "recovery hz stk next ctx c =
     (case next ctx c of (c', evs, pan) \<Rightarrow>
        (case pan of
           None \<Rightarrow> (c', evs, None)
         | Some (typ, txt) \<Rightarrow>
             (let ev = STel (SpanEvent ''exception'' [''exception.type'' \<mapsto> VStr typ, ''exception.message'' \<mapsto> VStr txt,
                         ''exception.stacktrace'' \<mapsto> VStr stk]);
                  c1 = c'\<lparr>c_hijackHandler := False\<rparr>;
                  c2 = (if rs_writer (c_response c1) \<noteq> None
                        then c1\<lparr>c_response := (c_response c1)\<lparr>rs_status := 500, rs_writer := Some AbortedWriter\<rparr>\<rparr>
                        else let cors = corsHeaders (rs_headers (c_response c1));
                                 r1 = hz_Reset hz (c_response c1);
                                 r2 = r1\<lparr>rs_headers := foldl (\<lambda>h (k, v). hz_Add hz k v h) (rs_headers r1) cors\<rparr>
                             in writeProblem hz (c1\<lparr>c_response := r2\<rparr>) 500 '''' 0)
              in (c2\<lparr>c_aborted := True\<rparr>,
                  evs @ [ev, PanicLog [(''panic'', txt), (''stack'', stk),
                           (''http.request.method'', fst (Method (rq_method c'))), (''url.path'', rq_path c')]],
                  None))))"

text \<open>The stack of \<open>registerMiddleware\<close> around a handler, and the handlers for unmatched requests.\<close>

definition run_stack :: "hertz \<Rightarrow> string \<Rightarrow> string \<Rightarrow> (nat list \<Rightarrow> string list) \<Rightarrow> handler \<Rightarrow> rctx \<Rightarrow> sv_result" where
  "run_stack hz gen stk frames h =
     requestID hz gen (tracing (sv_measure (logging frames (recovery hz stk h))))"

definition noRoute :: "hertz \<Rightarrow> handler" where
  "noRoute hz ctx c = (server_Error hz c 404 nil, [], None)"

definition noMethod :: "hertz \<Rightarrow> handler" where
  "noMethod hz ctx c = (server_Error hz c 405 nil, [], None)"

subsection \<open>What Hertz promises\<close>

definition hdr_vals :: "hertz \<Rightarrow> string \<Rightarrow> headers \<Rightarrow> string list" where
  "hdr_vals hz k h = map snd (filter (\<lambda>(a, _). hz_norm hz a = hz_norm hz k) h)"

text \<open>
  \<open>Set\<close> replaces the values of a header and \<open>Add\<close> adds one, each leaving the others; \<open>Reset\<close>
  drops what the handler set; \<open>Data\<close> writes to the body and sets the status and the content
  type. Only the headers the layers care about are covered.
\<close>

definition names_law :: "hertz \<Rightarrow> bool" where
  "names_law hz \<longleftrightarrow> (\<forall>a b. hz_norm hz a = hz_norm hz b \<longrightarrow> is_cors a = is_cors b)"

definition set_law :: "hertz \<Rightarrow> bool" where
  "set_law hz \<longleftrightarrow>
     (\<forall>v h. hdr_vals hz requestIDHeader (hz_Set hz requestIDHeader v h) = [v])
     \<and> (\<forall>k v h. is_cors k \<longrightarrow> hdr_vals hz k (hz_Set hz requestIDHeader v h) = hdr_vals hz k h)"

definition add_law :: "hertz \<Rightarrow> bool" where
  "add_law hz \<longleftrightarrow> (\<forall>k k' v h. is_cors k \<and> is_cors k' \<longrightarrow>
     hdr_vals hz k' (hz_Add hz k v h) = hdr_vals hz k' h @ (if hz_norm hz k = hz_norm hz k' then [v] else []))"

definition reset_law :: "hertz \<Rightarrow> bool" where
  "reset_law hz \<longleftrightarrow> (\<forall>r. rs_body (hz_Reset hz r) = [] \<and> rs_writer (hz_Reset hz r) = None
     \<and> (\<forall>k. is_cors k \<longrightarrow> hdr_vals hz k (rs_headers (hz_Reset hz r)) = []))"

definition data_law :: "hertz \<Rightarrow> bool" where
  "data_law hz \<longleftrightarrow> (\<forall>st ct b r. 400 \<le> st \<and> st \<le> 599 \<longrightarrow>
     rs_status (hz_Data hz st ct b r) = st \<and> rs_writer (hz_Data hz st ct b r) = rs_writer r
     \<and> (\<exists>pre. rs_body (hz_Data hz st ct b r) = pre @ [b] \<and> (rs_body r = [] \<longrightarrow> pre = []))
     \<and> (\<forall>k. is_cors k \<or> k = requestIDHeader \<longrightarrow>
          hdr_vals hz k (rs_headers (hz_Data hz st ct b r)) = hdr_vals hz k (rs_headers r)))"

definition hertz_laws :: "hertz \<Rightarrow> bool" where
  "hertz_laws hz \<longleftrightarrow> names_law hz \<and> set_law hz \<and> add_law hz \<and> reset_law hz \<and> data_law hz"

lemma hertz_lawsD:
  assumes "hertz_laws hz"
  shows "hdr_vals hz requestIDHeader (hz_Set hz requestIDHeader v h) = [v]"
    and "is_cors k \<Longrightarrow> hdr_vals hz k (hz_Set hz requestIDHeader v h) = hdr_vals hz k h"
    and "is_cors k \<Longrightarrow> is_cors k' \<Longrightarrow>
      hdr_vals hz k' (hz_Add hz k v h) = hdr_vals hz k' h @ (if hz_norm hz k = hz_norm hz k' then [v] else [])"
    and "rs_body (hz_Reset hz r) = []" "rs_writer (hz_Reset hz r) = None"
      "is_cors k \<Longrightarrow> hdr_vals hz k (rs_headers (hz_Reset hz r)) = []"
  using assms by (simp_all add: hertz_laws_def set_law_def add_law_def reset_law_def)

lemma hertz_names: "hertz_laws hz \<Longrightarrow> hz_norm hz x = hz_norm hz y \<Longrightarrow> is_cors x = is_cors y"
  unfolding hertz_laws_def names_law_def by blast

lemma hertz_dataD:
  assumes "hertz_laws hz" and "400 \<le> st" and "st \<le> 599"
  shows "rs_status (hz_Data hz st ct b r) = st" "rs_writer (hz_Data hz st ct b r) = rs_writer r"
    and "\<exists>pre. rs_body (hz_Data hz st ct b r) = pre @ [b] \<and> (rs_body r = [] \<longrightarrow> pre = [])"
    and "is_cors k \<or> k = requestIDHeader \<Longrightarrow>
      hdr_vals hz k (rs_headers (hz_Data hz st ct b r)) = hdr_vals hz k (rs_headers r)"
  using assms unfolding hertz_laws_def data_law_def by blast+

text \<open>Headers as a plain list, with names compared in lower case, satisfy the laws.\<close>

definition list_hertz :: hertz where
  "list_hertz = \<lparr>hz_norm = header_name,
     hz_Set = \<lambda>k v h. filter (\<lambda>(a, _). header_name a \<noteq> header_name k) h @ [(k, v)],
     hz_Add = \<lambda>k v h. h @ [(k, v)],
     hz_Reset = \<lambda>r. \<lparr>rs_status = 200, rs_headers = [], rs_body = [], rs_writer = None\<rparr>,
     hz_Data = \<lambda>st ct b r. r\<lparr>rs_status := st, rs_body := rs_body r @ [b],
        rs_headers := filter (\<lambda>(a, _). header_name a \<noteq> header_name ''Content-Type'') (rs_headers r) @ [(''Content-Type'', ct)]\<rparr>\<rparr>"

lemma hdr_list_replace:
  "hdr_vals list_hertz k (filter (\<lambda>(a, _). header_name a \<noteq> b) h @ [(k', v)]) =
     (if header_name k = b then [] else hdr_vals list_hertz k h) @ (if header_name k' = header_name k then [v] else [])"
proof -
  have "hdr_vals list_hertz k h = map snd (filter (\<lambda>(a, _). header_name a = header_name k) h)" for h
    by (simp add: hdr_vals_def list_hertz_def)
  then show ?thesis by (induction h) (simp_all split: prod.splits)
qed

lemma header_names:
  "is_cors k \<Longrightarrow> header_name k \<noteq> header_name requestIDHeader" "is_cors k \<Longrightarrow> header_name k \<noteq> header_name ''Content-Type''"
  "header_name requestIDHeader \<noteq> header_name ''Content-Type''"
proof -
  have "\<not> is_cors requestIDHeader" "\<not> is_cors ''Content-Type''" by code_simp+
  then show "is_cors k \<Longrightarrow> header_name k \<noteq> header_name requestIDHeader" "is_cors k \<Longrightarrow> header_name k \<noteq> header_name ''Content-Type''"
    by (metis is_cors_def)+
  show "header_name requestIDHeader \<noteq> header_name ''Content-Type''" by code_simp
qed

lemma list_hertz_laws: "hertz_laws list_hertz"
  unfolding hertz_laws_def
proof (intro conjI)
  show "names_law list_hertz" by (simp add: names_law_def list_hertz_def is_cors_def)
  have set: "hz_Set list_hertz k v h = filter (\<lambda>(a, _). header_name a \<noteq> header_name k) h @ [(k, v)]" for k v h
    by (simp add: list_hertz_def)
  show "set_law list_hertz" unfolding set_law_def set hdr_list_replace using header_names(1) by fastforce
  show "add_law list_hertz" by (simp add: add_law_def list_hertz_def hdr_vals_def)
  show "reset_law list_hertz" by (simp add: reset_law_def list_hertz_def hdr_vals_def)
  have data: "rs_headers (hz_Data list_hertz st ct b r) =
      filter (\<lambda>(a, _). header_name a \<noteq> header_name ''Content-Type'') (rs_headers r) @ [(''Content-Type'', ct)]" for st ct b r
    by (simp add: list_hertz_def)
  have "hdr_vals list_hertz k (rs_headers (hz_Data list_hertz st ct b r)) = hdr_vals list_hertz k (rs_headers r)"
    if "is_cors k \<or> k = requestIDHeader" for k st ct b r
  proof -
    from that header_names have "header_name k \<noteq> header_name ''Content-Type''" by blast
    then show ?thesis unfolding data hdr_list_replace by simp
  qed
  then show "data_law list_hertz" unfolding data_law_def by (auto simp: list_hertz_def)
qed

subsection \<open>The request ID contract\<close>

lemma layers_fst:
  "fst (tracing next ctx c) = fst (next ctx c)"
  "fst (sv_measure next ctx c) = fst (next ctx c)"
  "fst (logging frames next ctx c) = fst (next ctx c)"
proof -
  obtain c' evs pan where n: "next ctx c = (c', evs, pan)" by (metis surj_pair)
  show "fst (tracing next ctx c) = fst (next ctx c)" unfolding tracing_def Let_def case_prod_beta n by (simp only: fst_conv snd_conv)
  show "fst (sv_measure next ctx c) = fst (next ctx c)" unfolding sv_measure_def Let_def n prod.case by (simp only: fst_conv)
  show "fst (logging frames next ctx c) = fst (next ctx c)" unfolding logging_def Let_def n prod.case
    by (cases pan; cases "boundErrorAttr frames c'") (simp_all only: option.case fst_conv if_True if_False not_False_eq_True option.distinct simp_thms)
qed

lemma run_stack_fst:
  "fst (run_stack hz gen stk frames h c) = fst (requestID hz gen (recovery hz stk h) c)"
  by (simp add: run_stack_def requestID_def layers_fst Let_def)

text \<open>What every handler keeps: the request ID that \<open>requestID\<close> stored on the request context.\<close>

locale team_handler =
  fixes h :: handler
  assumes keeps_id: "c_requestID (fst (h ctx c)) = c_requestID c"
begin

lemma recovery_keeps: "c_requestID (fst (recovery hz stk h ctx c)) = c_requestID c"
  using keeps_id [of ctx c]
  by (auto simp: recovery_def writeProblem_def set_header_def Let_def split: prod.splits option.splits)

lemma stack_keeps:
  "c_requestID (fst (run_stack hz gen stk frames h c)) = (if validRequestID (rq_requestID c) then rq_requestID c else gen)"
  by (simp add: run_stack_def requestID_def layers_fst recovery_keeps set_header_def Let_def)

end

lemma server_Error_id [simp]: "c_requestID (server_Error hz c st err) = c_requestID c"
  by (simp add: server_Error_def writeProblem_def set_header_def Let_def split: option.splits)

interpretation no_route: team_handler "noRoute hz"
  by unfold_locales (simp add: noRoute_def)

interpretation no_method: team_handler "noMethod hz"
  by unfold_locales (simp add: noMethod_def)

subsection \<open>The error format\<close>

lemma writeProblem_response:
  assumes "hertz_laws hz" and "400 \<le> st" and "st \<le> 599"
  shows "rs_status (c_response (writeProblem hz c st detail code)) = st"
    and "\<exists>pre. rs_body (c_response (writeProblem hz c st detail code)) =
          pre @ [Json (problem_members \<lparr>p_title = problemTitle st, p_status = st, p_detail = detail, p_code = code, p_requestID = c_requestID c\<rparr>)]
        \<and> (rs_body (c_response c) = [] \<longrightarrow> pre = [])"
    and "hdr_vals hz requestIDHeader (rs_headers (c_response (writeProblem hz c st detail code))) = [c_requestID c]"
    and "is_cors k \<Longrightarrow> hdr_vals hz k (rs_headers (c_response (writeProblem hz c st detail code))) = hdr_vals hz k (rs_headers (c_response c))"
proof -
  let ?r = "(c_response c)\<lparr>rs_headers := hz_Set hz requestIDHeader (c_requestID c) (rs_headers (c_response c))\<rparr>"
  let ?b = "Json (problem_members \<lparr>p_title = problemTitle st, p_status = st, p_detail = detail, p_code = code, p_requestID = c_requestID c\<rparr>)"
  have w: "c_response (writeProblem hz c st detail code) = hz_Data hz st problemContentType ?b ?r"
    by (simp add: writeProblem_def set_header_def requestIDOf_def Let_def)
  note d = hertz_dataD [OF assms, where ct = problemContentType and b = ?b and r = ?r]
  show "rs_status (c_response (writeProblem hz c st detail code)) = st" unfolding w by (rule d)
  show "\<exists>pre. rs_body (c_response (writeProblem hz c st detail code)) = pre @ [?b] \<and> (rs_body (c_response c) = [] \<longrightarrow> pre = [])"
    unfolding w using d(3) by simp
  show "hdr_vals hz requestIDHeader (rs_headers (c_response (writeProblem hz c st detail code))) = [c_requestID c]"
    unfolding w by (simp add: d(4) hertz_lawsD(1) [OF assms(1)])
  show "is_cors k \<Longrightarrow> hdr_vals hz k (rs_headers (c_response (writeProblem hz c st detail code))) = hdr_vals hz k (rs_headers (c_response c))"
    unfolding w by (simp add: d(4) hertz_lawsD(2) [OF assms(1)])
qed

lemma writeProblem_frame [simp]:
  "c_requestID (writeProblem hz c st d k) = c_requestID c" "c_errors (writeProblem hz c st d k) = c_errors c"
  "c_hijackHandler (writeProblem hz c st d k) = c_hijackHandler c"
  by (simp_all add: writeProblem_def set_header_def Let_def)

lemma ErrsCode_none:
  assumes "case Option.bind err errs_node of Some e \<Rightarrow> addr e = 0 | None \<Rightarrow> True"
  shows "fst (ErrsCode err) = 0"
proof -
  have "app (facets_of n) \<noteq> None" if "errors_AsNode (\<lambda>f. app f \<noteq> None) e = Some n" for e n
    using that by (auto simp: errors_AsNode_def find_Some_iff)
  with assms show ?thesis
    by (cases err) (force simp: ErrsCode_def errs_node_def split: option.splits)+
qed

text \<open>The status a problem is sent with.\<close>

definition problem_status :: "int \<Rightarrow> int" where
  "problem_status status = (if status < 400 \<or> status > 599 then 500 else status)"

text \<open>
  C12: \<open>Error\<close> always answers with an error status: the given one between 400 and 599, and 500
  for anything else. The response ends with one problem body whose status and request ID are
  the response's own, the X-Request-ID header repeats that ID whatever the handler did to it,
  the chain is aborted and the error is bound for the log and the telemetry. The body of a 5xx
  has no detail and no code; a 4xx body's detail is the message, and its code the code, of the
  first application error in the chain, if that is not a nil pointer.
\<close>

theorem error_problem:
  assumes "hertz_laws hz"
  shows "let c' = server_Error hz c status err; st = problem_status status in
    rs_status (c_response c') = st \<and> c_aborted c'
    \<and> c_errors c' = c_errors c @ (case err of Some e \<Rightarrow> [e] | None \<Rightarrow> [])
    \<and> hdr_vals hz requestIDHeader (rs_headers (c_response c')) = [c_requestID c]
    \<and> (\<exists>pre p. rs_body (c_response c') = pre @ [Json (problem_members p)] \<and> p_status p = st \<and> p_requestID p = c_requestID c
        \<and> (if st \<ge> 500 then p_detail p = '''' \<and> p_code p = 0
            else (case Option.bind err errs_node of
                    Some e \<Rightarrow> if addr e = 0 then p_detail p = '''' \<and> p_code p = 0
                              else p_detail p = message e \<and> p_code p = fst (ErrsCode err)
                  | None \<Rightarrow> p_detail p = '''' \<and> p_code p = 0)))"
proof -
  let ?st = "problem_status status"
  have st: "400 \<le> ?st" "?st \<le> 599" by (simp_all add: problem_status_def)
  define c1 where "c1 = (case err of Some e \<Rightarrow> c\<lparr>c_errors := c_errors c @ [e]\<rparr> | None \<Rightarrow> c)"
  obtain detail code where e: "server_Error hz c status err = (writeProblem hz c1 ?st detail code)\<lparr>c_aborted := True\<rparr>"
    and dc: "if ?st \<ge> 500 then detail = '''' \<and> code = 0
       else (case Option.bind err errs_node of
               Some x \<Rightarrow> if addr x = 0 then detail = '''' \<and> code = 0 else detail = message x \<and> code = fst (ErrsCode err)
             | None \<Rightarrow> detail = '''' \<and> code = 0)"
    by (rule that [of "if ?st < 500 then (case Option.bind err errs_node of Some e \<Rightarrow> if addr e \<noteq> 0 then message e else '''' | None \<Rightarrow> '''') else ''''"
          "if ?st < 500 then fst (ErrsCode err) else 0"])
      (use ErrsCode_none [of err] in \<open>auto simp: server_Error_def Let_def problem_status_def c1_def split: option.splits\<close>)
  have c1: "c_requestID c1 = c_requestID c" "c_errors c1 = c_errors c @ (case err of Some e \<Rightarrow> [e] | None \<Rightarrow> [])"
    by (simp_all add: c1_def split: option.split)
  note w = writeProblem_response [OF assms st, where c = c1 and detail = detail and code = code]
  obtain pre where body: "rs_body (c_response (writeProblem hz c1 ?st detail code)) = pre @ [Json (problem_members
      \<lparr>p_title = problemTitle ?st, p_status = ?st, p_detail = detail, p_code = code, p_requestID = c_requestID c\<rparr>)]"
    using w(2) unfolding c1 by blast
  show ?thesis
    unfolding Let_def e using w(1,3) c1 dc
    by (intro conjI exI [of _ pre] exI [of _ "\<lparr>p_title = problemTitle ?st, p_status = ?st, p_detail = detail, p_code = code, p_requestID = c_requestID c\<rparr>"])
      (auto simp: body split: option.splits)
qed

definition demo_ctx :: rctx where
  "demo_ctx = \<lparr>rq_method = ''GET'', rq_path = ''/users/7'', rq_scheme = ''http'', rq_host = ''api:3000'', rq_proto = ''HTTP/1.1'',
     rq_userAgent = '''', rq_requestID = ''abc-1'', rq_traceparent = None, rq_remoteAddr = None, rq_fullPath = ''/users/:id'',
     c_requestID = '''', c_errors = [], c_aborted = False, c_hijackHandler = False,
     c_response = \<lparr>rs_status = 200, rs_headers = [(''Access-Control-Allow-Origin'', ''*'')], rs_body = [], rs_writer = None\<rparr>\<rparr>"

theorem error_problem_witness:
  "rs_status (c_response (server_Error list_hertz demo_ctx 200 nil)) = 500
   \<and> c_aborted (server_Error list_hertz demo_ctx 200 nil)"
  using error_problem [OF list_hertz_laws, of demo_ctx 200 nil] by (simp add: Let_def problem_status_def)

text \<open>
  What an error response can reveal. The response to an application error wrapped in any
  text is the response to the bare error with its cause, stack and metadata removed, so
  wrappers, causes, stack frames, metadata and debug data never reach a client; and an error
  with no application error in its chain is answered exactly like no error at all.
\<close>

theorem error_reveals_nothing:
  assumes "a \<noteq> 0" and "b \<noteq> 0" and "\<forall>n \<in> set (chain e). \<not> is_errs n"
  shows "c_response (server_Error hz c st (Some (errorf txt [errs_Error a code msg cause stk mt])))
       = c_response (server_Error hz c st (Some (errs_Error b code msg nil [] None)))
    \<and> c_response (server_Error hz c st (Some e)) = c_response (server_Error hz c st nil)"
proof
  have w: "c_response (writeProblem hz (c\<lparr>c_errors := es\<rparr>) s d k) = c_response (writeProblem hz c s d k)" for es s d k
    by (simp add: writeProblem_def set_header_def requestIDOf_def Let_def)
  have node: "errors_AsNode (\<lambda>f. app f \<noteq> None) (errorf txt [errs_Error a code msg cause stk mt]) = Some (errs_Error a code msg cause stk mt)"
    "errors_AsNode (\<lambda>f. app f \<noteq> None) (errs_Error b code msg nil [] None) = Some (errs_Error b code msg nil [] None)"
    by (simp_all add: errors_AsNode_def chain_Error errorf_def plain_def) (simp_all add: errs_Error_def)
  have "ErrsCode (Some (errorf txt [errs_Error a code msg cause stk mt])) = (code, code \<noteq> 0)"
    "ErrsCode (Some (errs_Error b code msg nil [] None)) = (code, code \<noteq> 0)"
    unfolding ErrsCode_def option.case node using assms by (simp_all add: errs_Error_def Let_def)
  moreover have "errs_node (errorf txt [errs_Error a code msg cause stk mt]) = Some \<lparr>addr = a, message = msg, meta = mt, stack = stk\<rparr>"
    "errs_node (errs_Error b code msg nil [] None) = Some \<lparr>addr = b, message = msg, meta = None, stack = []\<rparr>"
    unfolding errs_node_def node by (simp_all add: errs_Error_def)
  ultimately show "c_response (server_Error hz c st (Some (errorf txt [errs_Error a code msg cause stk mt])))
      = c_response (server_Error hz c st (Some (errs_Error b code msg nil [] None)))"
    unfolding server_Error_def Let_def using assms(1,2) by (simp add: w)
  have "errors_AsNode (\<lambda>f. app f \<noteq> None) e = None"
    using assms(3) by (auto simp: errors_AsNode_def find_None_iff is_errs_def)
  then show "c_response (server_Error hz c st (Some e)) = c_response (server_Error hz c st nil)"
    by (simp add: server_Error_def errs_node_def ErrsCode_def Let_def w)
qed

theorem error_reveals_nothing_witness:
  "c_response (server_Error list_hertz demo_ctx 404
      (Some (errorf ''handler: '' [errs_Error 5 404 ''no such user'' (Some (errors_New ''SELECT failed'')) [1, 2] None])))
   = c_response (server_Error list_hertz demo_ctx 404 (Some (errs_Error 9 404 ''no such user'' nil [] None)))"
  using error_reveals_nothing [of 5 9 "errors_New ''x''"] by (simp add: errors_New_def plain_def is_errs_def)

subsection \<open>The layers account for every request\<close>

definition sv_tel :: "sv_event list \<Rightarrow> event list" where
  "sv_tel evs = List.map_filter (\<lambda>e. case e of STel t \<Rightarrow> Some t | _ \<Rightarrow> None) evs"

definition access_logs :: "sv_event list \<Rightarrow> nat" where
  "access_logs evs = length (filter (\<lambda>e. case e of AccessLog _ _ \<Rightarrow> True | _ \<Rightarrow> False) evs)"

definition net_active :: "sv_event list \<Rightarrow> int" where
  "net_active evs = sum_list (map (\<lambda>t. case t of MetricAdd n i _ \<Rightarrow> if n = ServerActiveRequests then i else 0 | _ \<Rightarrow> 0) (sv_tel evs))"

lemma sv_tel_simps [simp]:
  "sv_tel [] = []" "sv_tel (STel t # evs) = t # sv_tel evs" "sv_tel (SpanLink s # evs) = sv_tel evs"
  "sv_tel (AccessLog l a # evs) = sv_tel evs" "sv_tel (PanicLog a' # evs) = sv_tel evs" "sv_tel (evs @ evs') = sv_tel evs @ sv_tel evs'"
  by (simp_all add: sv_tel_def List.map_filter_def)

lemma access_logs_simps [simp]:
  "access_logs [] = 0" "access_logs (STel t # evs) = access_logs evs" "access_logs (SpanLink s # evs) = access_logs evs"
  "access_logs (AccessLog l a # evs) = Suc (access_logs evs)" "access_logs (PanicLog a' # evs) = access_logs evs"
  "access_logs (evs @ evs') = access_logs evs + access_logs evs'"
  by (simp_all add: access_logs_def)

text \<open>What a layer adds to what its inner layers left: spans, active requests, samples and log lines.\<close>

definition sv_counts :: "sv_event list \<Rightarrow> nat \<times> nat \<times> int \<times> nat \<times> nat" where
  "sv_counts evs = (spans_opened (sv_tel evs), spans_ended (sv_tel evs), net_active evs,
     recorded ServerRequestDuration (sv_tel evs), access_logs evs)"

lemma recovery_counts:
  "h ctx c = (c1, hevs, pan) \<Longrightarrow> \<exists>c2 evs. recovery hz stk h ctx c = (c2, evs, None) \<and> sv_counts evs = sv_counts hevs \<and> c_errors c2 = c_errors c1"
  by (auto simp: recovery_def Let_def sv_counts_def net_active_def split: option.split)

lemma logging_counts:
  "nx ctx c = (c1, evs, None) \<Longrightarrow> \<exists>evs' pan. logging frames nx ctx c = (c1, evs', pan)
     \<and> (pan = None \<longleftrightarrow> boundErrorAttr frames c1 \<noteq> None)
     \<and> sv_counts evs' = (case sv_counts evs of (a, b, n, r, l) \<Rightarrow> (a, b, n, r, if pan = None then Suc l else l))"
  by (cases "boundErrorAttr frames c1") (simp_all add: logging_def Let_def sv_counts_def net_active_def)

lemma measure_counts:
  "nx ctx c = (c1, evs, pan) \<Longrightarrow> \<exists>evs'. sv_measure nx ctx c = (c1, evs', pan)
     \<and> sv_counts evs' = (case sv_counts evs of (a, b, n, r, l) \<Rightarrow> (a, b, n, if pan = None then Suc r else r, l))"
  by (auto simp: sv_measure_def Let_def sv_counts_def net_active_def)

lemma tracing_counts:
  "nx ctx c = (c1, evs, pan) \<Longrightarrow> \<exists>evs'. tracing nx ctx c = (c1, evs', pan)
     \<and> sv_counts evs' = (case sv_counts evs of (a, b, n, r, l) \<Rightarrow> (Suc a, Suc b, n, r, l))"
  by (auto simp: tracing_def endAttributes_def Let_def sv_counts_def net_active_def split: option.split prod.split)


lemma boundErrorAttr_panics:
  "boundErrorAttr frames c = None \<longleftrightarrow>
     (\<exists>e \<in> set (c_errors c). \<exists>x. find is_errs (chain e) = Some x \<and> addr (the (app (facets_of x))) \<noteq> 0 \<and> LogValue_nil x)"
proof -
  have v: "boundErrorValue frames e = None \<longleftrightarrow>
      (\<exists>x. find is_errs (chain e) = Some x \<and> addr (the (app (facets_of x))) \<noteq> 0 \<and> LogValue_nil x)" for e
    by (simp add: boundErrorValue_def split: option.split)
  have "boundErrorAttr frames c = None \<longleftrightarrow> (\<exists>e \<in> set (c_errors c). boundErrorValue frames e = None)"
    by (simp add: boundErrorAttr_def list_all_iff split: list.split)
  then show ?thesis unfolding v .
qed

text \<open>
  A panic in the access log is possible, and it leaves the whole stack: a handler that
  binds an application error made by wrapping a nil application error takes the server's
  recovery with it, since the log layer is outside recovery and checks only the first
  application error of the chain for nil.
\<close>

theorem nil_cause_escapes:
  assumes "a \<noteq> 0"
  shows "\<exists>c' evs. run_stack hz gen stk frames
      (\<lambda>ctx c. (server_Error hz c 400 (Some (errs_Error a 7 ''bad input'' (Some (errs_Error 0 0 '''' nil [] None)) [] None)), [], None)) c
    = (c', evs, Some nil_deref)"
proof -
  let ?e = "errs_Error a 7 ''bad input'' (Some (errs_Error 0 0 '''' nil [] None)) [] None"
  let ?h = "\<lambda>ctx c. (server_Error hz c 400 (Some ?e), [], None) :: sv_result"
  have "find is_errs (chain ?e) = Some ?e" "addr (the (app (facets_of ?e))) \<noteq> 0" "LogValue_nil ?e"
    using assms by (simp_all add: find_is_errs_self) (simp_all add: errs_Error_def is_errs_def)
  then have "boundErrorAttr frames (server_Error hz c0 400 (Some ?e)) = None" for c0
    unfolding boundErrorAttr_panics by (force simp: server_Error_def Let_def)
  then show ?thesis
    by (simp add: run_stack_def requestID_def tracing_def sv_measure_def logging_def recovery_def Let_def split: prod.split)
qed

theorem nil_cause_escapes_witness:
  "\<exists>c' evs. run_stack list_hertz ''gen'' '''' (\<lambda>_. [])
      (\<lambda>ctx c. (server_Error list_hertz c 400 (Some (errs_Error 5 7 ''bad input'' (Some (errs_Error 0 0 '''' nil [] None)) [] None)), [], None)) demo_ctx
    = (c', evs, Some nil_deref)"
  using nil_cause_escapes [of 5 list_hertz "''gen''" "''''" "\<lambda>_. []" demo_ctx] by simp

subsection \<open>A panic is answered\<close>

lemma cors_added:
  assumes "hertz_laws hz" and "is_cors k" and "\<forall>(a, v) \<in> set fs. is_cors a"
  shows "hdr_vals hz k (foldl (\<lambda>h (a, v). hz_Add hz a v h) h fs) = hdr_vals hz k h @ hdr_vals hz k fs"
  using assms(3)
proof (induction fs arbitrary: h)
  case (Cons f fs)
  obtain a v where f: "f = (a, v)" by (cases f)
  with Cons.prems have "is_cors a" by auto
  from hertz_lawsD(3) [OF assms(1) this assms(2)] Cons f show ?case by (simp add: hdr_vals_def)
qed (simp add: hdr_vals_def)

lemma hdr_vals_corsHeaders:
  assumes "hertz_laws hz" and "is_cors k"
  shows "hdr_vals hz k (corsHeaders h) = hdr_vals hz k h"
proof -
  have "is_cors a" if "hz_norm hz a = hz_norm hz k" for a using hertz_names [OF assms(1) that] assms(2) by simp
  then have "filter (\<lambda>(a, _). hz_norm hz a = hz_norm hz k) (corsHeaders h) = filter (\<lambda>(a, _). hz_norm hz a = hz_norm hz k) h"
    unfolding corsHeaders_def filter_filter by (intro filter_cong) auto
  then show ?thesis by (simp add: hdr_vals_def)
qed

text \<open>The answer to a panic, given what the handler left.\<close>

definition panic_answer :: "hertz \<Rightarrow> string \<Rightarrow> rctx \<Rightarrow> rctx \<Rightarrow> bool" where
  "panic_answer hz i c1 c' \<longleftrightarrow>
     rs_status (c_response c') = 500 \<and> c_aborted c' \<and> \<not> c_hijackHandler c' \<and> c_errors c' = c_errors c1
     \<and> (if rs_writer (c_response c1) = None
        then rs_body (c_response c') = [Json [(''title'', VStr ''Internal Server Error''), (''status'', VInt 500), (''request_id'', VStr i)]]
          \<and> hdr_vals hz requestIDHeader (rs_headers (c_response c')) = [i]
          \<and> (\<forall>k. is_cors k \<longrightarrow> hdr_vals hz k (rs_headers (c_response c')) = hdr_vals hz k (rs_headers (c_response c1)))
        else rs_writer (c_response c') = Some AbortedWriter \<and> rs_body (c_response c') = rs_body (c_response c1))"

lemma recovery_answers:
  assumes "hertz_laws hz" and "h ctx c = (c1, hevs, Some p)"
  shows "\<exists>c' evs. recovery hz stk h ctx c = (c', evs, None) \<and> panic_answer hz (c_requestID c1) c1 c'"
proof -
  obtain ty tx where p: "p = (ty, tx)" by (cases p)
  let ?r1 = "hz_Reset hz (c_response c1)"
  let ?r2 = "?r1\<lparr>rs_headers := foldl (\<lambda>h (k, v). hz_Add hz k v h) (rs_headers ?r1) (corsHeaders (rs_headers (c_response c1)))\<rparr>"
  let ?c2 = "c1\<lparr>c_hijackHandler := False, c_response := ?r2\<rparr>"
  have cors: "\<forall>(a, v) \<in> set (corsHeaders (rs_headers (c_response c1))). is_cors a" by (auto simp: corsHeaders_def)
  have st: "400 \<le> (500 :: int)" "(500 :: int) \<le> 599" by simp_all
  note w = writeProblem_response [OF assms(1) st, where c = ?c2 and detail = "''''" and code = 0]
  have title: "problemTitle 500 = ''Internal Server Error''" by code_simp
  have "panic_answer hz (c_requestID c1) c1 ((writeProblem hz ?c2 500 '''' 0)\<lparr>c_aborted := True\<rparr>)" if "rs_writer (c_response c1) = None"
  proof -
    have "rs_body (c_response (writeProblem hz ?c2 500 '''' 0)) =
        [Json [(''title'', VStr ''Internal Server Error''), (''status'', VInt 500), (''request_id'', VStr (c_requestID c1))]]"
      using w(2) hertz_lawsD(4) [OF assms(1)] by (auto simp: title problem_members_def)
    moreover have "hdr_vals hz k (rs_headers (c_response (writeProblem hz ?c2 500 '''' 0))) = hdr_vals hz k (rs_headers (c_response c1))"
      if "is_cors k" for k
      using w(4) [OF that] cors_added [OF assms(1) that cors, of "rs_headers ?r1"] hertz_lawsD(6) [OF assms(1) that]
        hdr_vals_corsHeaders [OF assms(1) that] by simp
    ultimately show ?thesis using that w(1,3) by (simp add: panic_answer_def)
  qed
  then show ?thesis using assms(2) by (auto simp: recovery_def p Let_def panic_answer_def)
qed



text \<open>
  A request that matches no route, or has the wrong method, goes through the same stack:
  it is answered with a 404, or a 405, problem that carries the request's ID, without detail
  or code, is logged as a warning, and leaves no panic.
\<close>

theorem unmatched_problem:
  assumes "hertz_laws hz" and "c_errors c = []" and "h = noRoute hz \<and> st = 404 \<or> h = noMethod hz \<and> st = 405"
  shows "let i = (if validRequestID (rq_requestID c) then rq_requestID c else gen) in
    \<exists>c' evs a pre. run_stack hz gen stk frames h c = (c', evs, None)
      \<and> rs_status (c_response c') = st \<and> c_requestID c' = i
      \<and> hdr_vals hz requestIDHeader (rs_headers (c_response c')) = [i]
      \<and> rs_body (c_response c') = pre @ [Json [(''title'', VStr (problemTitle st)), (''status'', VInt st), (''request_id'', VStr i)]]
      \<and> AccessLog LWarn a \<in> set evs"
proof -
  define i where "i = (if validRequestID (rq_requestID c) then rq_requestID c else gen)"
  define c0 where "c0 = set_header hz requestIDHeader i (c\<lparr>c_requestID := i\<rparr>)"
  let ?c = "(writeProblem hz c0 st '''' 0)\<lparr>c_aborted := True\<rparr>"
  from assms(3) have st: "400 \<le> st" "st \<le> 599" "st < 500" by auto
  from assms(3) have h: "h i c0 = (?c, [], None)"
    by (auto simp: noRoute_def noMethod_def server_Error_def ErrsCode_def Let_def)
  have c0: "c_requestID c0 = i" "c_errors c0 = []" using assms(2) by (simp_all add: c0_def set_header_def)
  note w = writeProblem_response [OF assms(1) st(1,2), where c = c0 and detail = "''''" and code = 0, unfolded c0]
  have "boundErrorAttr frames ?c = Some []" using c0 by (simp add: boundErrorAttr_def)
  with h w(1) st have "\<exists>a. logging frames (recovery hz stk h) i c0 = (?c, [AccessLog LWarn a], None)"
    by (simp add: logging_def recovery_def Let_def)
  then obtain a where l: "logging frames (recovery hz stk h) i c0 = (?c, [AccessLog LWarn a], None)" ..
  then have "\<exists>evs. run_stack hz gen stk frames h c = (?c, evs, None) \<and> AccessLog LWarn a \<in> set evs"
    by (simp add: run_stack_def requestID_def i_def [symmetric] c0_def [symmetric] tracing_def sv_measure_def Let_def split: prod.split)
  moreover have "\<exists>pre. rs_body (c_response ?c) = pre @ [Json [(''title'', VStr (problemTitle st)), (''status'', VInt st), (''request_id'', VStr i)]]"
    using w(2) by (auto simp: problem_members_def)
  ultimately show ?thesis using w(1,3) c0 unfolding Let_def i_def [symmetric] by fastforce
qed

theorem unmatched_problem_witness:
  "\<exists>c' evs. run_stack list_hertz ''gen'' '''' (\<lambda>_. []) (noRoute list_hertz) demo_ctx = (c', evs, None) \<and> rs_status (c_response c') = 404"
  using unmatched_problem [OF list_hertz_laws, of demo_ctx "noRoute list_hertz" 404 "''gen''" "''''" "\<lambda>_. []"]
  by (auto simp: demo_ctx_def Let_def)

subsection \<open>Run\<close>

text \<open>\<open>serve\<close>: the value \<open>hz.Run\<close> panics with, printed, or the error it returns.\<close>

definition serve :: "string + error \<Rightarrow> error" where
  "serve r = (case r of Inl v \<Rightarrow> Some (errors_New (''hertz panicked: '' @ v)) | Inr err \<Rightarrow> err)"

definition runError :: "error \<Rightarrow> error" where
  "runError err = (case err of None \<Rightarrow> nil | Some e \<Rightarrow> Some (errorf (''rest/server: run: '' @ error_string e) [e]))"

text \<open>
  Where \<open>Run\<close> is, and what it reacts to: the serving goroutine's result, the cancellation, a
  tick while the engine is not running or while it drains, and the return of \<open>Shutdown\<close> with
  the error of its context at that time.
\<close>

datatype run_phase = Serving | Waiting | Draining error | Returned error

datatype run_action = RecvErrc error | CtxDone | PollTick | ShutdownRet error error | CloseTick

definition shutdown_err :: "error \<Rightarrow> error \<Rightarrow> error" where
  "shutdown_err err sctxErr = (if err = nil \<and> sctxErr \<noteq> nil then sctxErr else err)"

inductive run_step :: "run_phase \<Rightarrow> run_action \<Rightarrow> run_phase \<Rightarrow> bool" where
  serving_recv: "run_step Serving (RecvErrc e) (Returned (runError e))"
| serving_done: "run_step Serving CtxDone Waiting"
| waiting_recv: "run_step Waiting (RecvErrc e) (Returned (runError e))"
| waiting_tick: "run_step Waiting PollTick Waiting"
| waiting_shutdown: "run_step Waiting (ShutdownRet err sctxErr) (Draining (shutdown_err err sctxErr))"
| draining_tick: "run_step (Draining err) CloseTick (Draining err)"
| draining_recv: "run_step (Draining err) (RecvErrc e)
    (Returned (case err of Some x \<Rightarrow> Some (errorf (''rest/server: shutdown: '' @ error_string x) [x]) | None \<Rightarrow> runError e))"

inductive_cases run_stepE: "run_step p a q"

inductive run_exec :: "run_action list \<Rightarrow> run_phase \<Rightarrow> bool" where
  exec_start: "run_exec [] Serving"
| exec_step: "run_exec acts p \<Longrightarrow> run_step p a q \<Longrightarrow> run_exec (acts @ [a]) q"

text \<open>What is known of the actions so far, by phase.\<close>

definition received :: "run_action list \<Rightarrow> error list" where
  "received acts = List.map_filter (\<lambda>a. case a of RecvErrc e \<Rightarrow> Some e | _ \<Rightarrow> None) acts"

definition shutdowns :: "run_action list \<Rightarrow> (error \<times> error) list" where
  "shutdowns acts = List.map_filter (\<lambda>a. case a of ShutdownRet e s \<Rightarrow> Some (e, s) | _ \<Rightarrow> None) acts"

definition run_result :: "run_action list \<Rightarrow> error \<Rightarrow> error" where
  "run_result acts e =
     (case shutdowns acts of
        [] \<Rightarrow> runError e
      | (err, sctxErr) # _ \<Rightarrow>
          (case shutdown_err err sctxErr of
             Some x \<Rightarrow> Some (errorf (''rest/server: shutdown: '' @ error_string x) [x])
           | None \<Rightarrow> runError e))"

fun run_inv :: "run_action list \<Rightarrow> run_phase \<Rightarrow> bool" where
  "run_inv acts (Returned r) = (\<exists>e. received acts = [e] \<and> last acts = RecvErrc e \<and> length (shutdowns acts) \<le> 1 \<and> r = run_result acts e)"
| "run_inv acts (Draining err) = (received acts = [] \<and> (\<exists>e s. shutdowns acts = [(e, s)] \<and> err = shutdown_err e s))"
| "run_inv acts _ = (received acts = [] \<and> shutdowns acts = [])"

lemma run_acts_append [simp]:
  "received (acts @ [a]) = received acts @ (case a of RecvErrc e \<Rightarrow> [e] | _ \<Rightarrow> [])"
  "shutdowns (acts @ [a]) = shutdowns acts @ (case a of ShutdownRet e s \<Rightarrow> [(e, s)] | _ \<Rightarrow> [])"
  by (simp_all add: received_def shutdowns_def List.map_filter_def split: run_action.split)

lemma run_exec_inv: "run_exec acts p \<Longrightarrow> run_inv acts p"
proof (induction rule: run_exec.induct)
  case exec_start
  then show ?case by (simp add: received_def shutdowns_def List.map_filter_def)
next
  case (exec_step acts p a q)
  from exec_step(2,3) show ?case
    by (cases rule: run_step.cases) (auto simp: run_result_def split: option.split)
qed

text \<open>
  C32: \<open>Run\<close> returns only when the goroutine that serves requests has ended: its result is
  received exactly once, as the last thing, whatever the interleaving of the cancellation, the
  ticks and the shutdown. \<open>Shutdown\<close> is called at most once. The result is nil only if the
  shutdown, when there was one, succeeded within its time and the goroutine ended without an
  error; a shutdown whose time ran out gives an error that matches DeadlineExceeded even when
  Hertz reported none.
\<close>

theorem run_returns_last:
  assumes "run_exec acts (Returned r)"
  shows "\<exists>pre e. acts = pre @ [RecvErrc e] \<and> received pre = [] \<and> length (shutdowns acts) \<le> 1 \<and> r = run_result acts e
    \<and> (r = nil \<longleftrightarrow> e = nil \<and> (\<forall>(err, sctxErr) \<in> set (shutdowns acts). err = nil \<and> sctxErr = nil))
    \<and> ((nil, Some context_DeadlineExceeded) \<in> set (shutdowns acts) \<longrightarrow>
         (\<exists>x. r = Some x \<and> errors_Is x context_DeadlineExceeded))"
proof -
  from run_exec_inv [OF assms] obtain e where inv: "received acts = [e]" "last acts = RecvErrc e" "length (shutdowns acts) \<le> 1"
    "r = run_result acts e" by auto
  from inv(1) have "acts \<noteq> []" by (auto simp: received_def List.map_filter_def)
  with inv(2) obtain pre where pre: "acts = pre @ [RecvErrc e]" by (metis append_butlast_last_id)
  with inv(1) have "received pre = []" by simp
  moreover have "errors_Is context_DeadlineExceeded context_DeadlineExceeded" by (simp add: context_DeadlineExceeded_def errors_Is_GErr)
  ultimately show ?thesis using inv pre
    by (intro exI [of _ pre] exI [of _ e])
      (cases "shutdowns acts"; auto simp: run_result_def shutdown_err_def runError_def split: option.splits if_splits)
qed

theorem run_returns_last_witness:
  "\<exists>x. run_result [CtxDone, ShutdownRet nil (Some context_DeadlineExceeded), CloseTick, RecvErrc nil] nil = Some x
     \<and> errors_Is x context_DeadlineExceeded"
proof -
  let ?acts = "[CtxDone, ShutdownRet nil (Some context_DeadlineExceeded), CloseTick, RecvErrc nil]"
  let ?err = "shutdown_err nil (Some context_DeadlineExceeded)"
  let ?r = "case ?err of Some x \<Rightarrow> Some (errorf (''rest/server: shutdown: '' @ error_string x) [x]) | None \<Rightarrow> runError nil"
  have "run_exec ((([] @ [CtxDone]) @ [ShutdownRet nil (Some context_DeadlineExceeded)]) @ [CloseTick]) (Draining ?err)"
    by (intro exec_step [OF exec_step [OF exec_step [OF exec_start]]]) (rule serving_done waiting_shutdown draining_tick)+
  from exec_step [OF this draining_recv [of ?err nil]] have "run_exec ?acts (Returned ?r)" by simp
  from run_returns_last [OF this] show ?thesis
    by (auto simp: shutdowns_def List.map_filter_def dest: sym)
qed

subsection \<open>New\<close>

text \<open>The configuration the server runs with.\<close>

definition sv_New :: "(string \<Rightarrow> gerr) \<Rightarrow> (duration \<Rightarrow> string) \<Rightarrow> sv_config \<Rightarrow> gerr + sv_config" where
  "sv_New splitErr durV cfg0 =
     (let cfg = sv_SetDefaults cfg0 in case sv_Validate splitErr durV cfg of Some e \<Rightarrow> Inl e | None \<Rightarrow> Inr cfg)"

lemma sv_New_usable:
  assumes "sv_New splitErr durV cfg0 = Inr cfg"
  shows "SplitHostPort (sv_Addr cfg) \<noteq> None" "0 < sv_ReadTimeout cfg" "0 < sv_WriteTimeout cfg" "0 < sv_ShutdownTimeout cfg"
proof -
  from assms have cfg: "cfg = sv_SetDefaults cfg0" "sv_Validate splitErr durV cfg = nil"
    by (auto simp: sv_New_def Let_def split: option.splits)
  from cfg(1) have "sv_ReadTimeout cfg \<noteq> 0" "sv_WriteTimeout cfg \<noteq> 0" "sv_ShutdownTimeout cfg \<noteq> 0"
    by (simp_all add: sv_SetDefaults_def Let_def sv_defaultReadTimeout_def sv_defaultWriteTimeout_def sv_defaultShutdownTimeout_def
          second_def millisecond_def)
  moreover from cfg(2) have "SplitHostPort (sv_Addr cfg) \<noteq> None" "\<not> sv_ReadTimeout cfg < 0" "\<not> sv_WriteTimeout cfg < 0"
    "\<not> sv_ShutdownTimeout cfg < 0"
    unfolding sv_Validate_def errors_Join_nil_iff append_is_Nil_conv by (auto simp: if_Nil_simps split: if_splits)
  ultimately show "SplitHostPort (sv_Addr cfg) \<noteq> None" "0 < sv_ReadTimeout cfg" "0 < sv_WriteTimeout cfg" "0 < sv_ShutdownTimeout cfg"
    by linarith+
qed

end
