(* ===== verification/Obs_Attributes.thy ===== *)
theory Obs_Attributes
  imports Identity "HOL-Library.Word" "HOL-Library.AList" "HOL-Library.List_Lexorder" "HOL-Library.Char_ord"
begin

text \<open>
  Package \<open>observability/attributes\<close>: normalisation of attribute keys and conversion of Go maps
  to OpenTelemetry attributes. A Go map is the list of its entries, with distinct keys and in any
  order; \<open>slices.Sorted\<close> is \<^const>\<open>sort\<close> under the byte-wise lexicographic order of strings, and
  \<open>slices.SortStableFunc\<close> is \<^const>\<open>sort_key\<close>, which is stable. Integers keep their width: a
  64-bit integer is a \<open>64 word\<close>, read by \<open>sint\<close> when signed and by \<open>uint\<close> when unsigned. A
  \<open>float32\<close> converts to \<open>float64\<close> without change of value, so both carry a value of the
  type \<open>'f\<close>.
\<close>

subsection \<open>Keys\<close>

definition maxInt64Value :: "64 word" where "maxInt64Value = 2 ^ 63 - 1"

definition correlationKeys :: "string list" where
  "correlationKeys = [''trace_id'', ''span_id'', ''trace_flags'']"

text \<open>The loop of \<open>collapseDots\<close>; the flag says whether the byte before is a dot.\<close>

fun collapse_loop :: "bool \<Rightarrow> string \<Rightarrow> string" where
  "collapse_loop prev [] = []"
| "collapse_loop prev (c # cs) =
     (if c = CHR ''.'' \<and> prev then collapse_loop True cs else c # collapse_loop (c = CHR ''.'') cs)"

definition collapseDots :: "string \<Rightarrow> string" where
  "collapseDots key = (if \<not> contains key ''..'' then key else collapse_loop False key)"

text \<open>\<open>strings.Trim(key, ".")\<close>.\<close>

definition trim_dots :: "string \<Rightarrow> string" where
  "trim_dots key = rev (dropWhile (\<lambda>c. c = CHR ''.'') (rev (dropWhile (\<lambda>c. c = CHR ''.'') key)))"

definition NormalizeKey :: "(string \<Rightarrow> string) \<Rightarrow> string \<Rightarrow> string" where
  "NormalizeKey uni key0 =
     (let key = trim_dots (collapseDots (to_lower uni key0)) in
      if key \<in> set correlationKeys then key
      else if contains key ''.'' then key
      else trim_dots (collapseDots (replace_all key ''_'' ''.'')))"

definition key_byte :: "char \<Rightarrow> bool" where
  "key_byte c \<longleftrightarrow> byte_between CHR ''a'' CHR ''z'' c \<or> byte_between CHR ''A'' CHR ''Z'' c
     \<or> byte_between CHR ''0'' CHR ''9'' c \<or> c = CHR ''_'' \<or> c = CHR ''.'' \<or> c = CHR ''-''"

definition IsValidKey :: "string \<Rightarrow> bool" where
  "IsValidKey key \<longleftrightarrow> key \<noteq> '''' \<and> list_all key_byte key"

definition ValidateAppInfo :: "info \<Rightarrow> error" where
  "ValidateAppInfo i = Validate i"

subsection \<open>Values\<close>

text \<open>The kinds \<open>isNilValue\<close> asks \<open>reflect\<close> for, and a dynamic value as \<open>reflect\<close> shows it.\<close>

datatype rkind = KChan | KFunc | KInterface | KMap | KPointer | KSlice | KOther

record dyn =
  dyn_Kind :: rkind
  dyn_IsNil :: bool
  dyn_text :: string

definition isNilValue :: "dyn option \<Rightarrow> bool" where
  "isNilValue v =
     (case v of
        None \<Rightarrow> True
      | Some d \<Rightarrow> if dyn_Kind d \<in> {KChan, KFunc, KInterface, KMap, KPointer, KSlice} then dyn_IsNil d else False)"

text \<open>\<open>attribute.Value\<close> and \<open>attribute.KeyValue\<close> of OpenTelemetry.\<close>

datatype 'f attr_value =
    AVString string | AVInt64 "64 word" | AVFloat64 'f | AVBool bool
  | AVStringSlice "string list" | AVFloat64Slice "'f list" | AVBoolSlice "bool list"

type_synonym 'f kv = "string \<times> 'f attr_value"

text \<open>
  The dynamic types the conversion tells apart. \<open>GErrorVal\<close> is a value of any other type with an \<open>Error\<close>
  method, \<open>GStringer\<close> one with a \<open>String\<close> method only, and \<open>GOther\<close> carries the text \<open>fmt.Sprint\<close> gives.
\<close>

datatype 'f goany =
    GNil | GString string
  | GInt "64 word" | GInt64 "64 word" | GInt32 "32 word" | GInt16 "16 word" | GInt8 "8 word"
  | GUint32 "32 word" | GUint16 "16 word" | GUint8 "8 word" | GUint "64 word" | GUint64 "64 word"
  | GFloat64 'f | GFloat32 'f | GBool bool | GDuration "64 word"
  | GStrings "string list" | GFloats "'f list" | GBools "bool list"
  | GErrorVal dyn | GStringer dyn | is_GKeyValue: GKeyValue "'f kv" | GOther string

type_synonym 'f gomap = "(string \<times> 'f goany) list"

text \<open>\<open>uint\<close> and \<open>uint64\<close> values: an integer when it fits, else its decimal digits.\<close>

definition uint64_attr :: "64 word \<Rightarrow> 'f attr_value" where
  "uint64_attr v = (if v \<le> maxInt64Value then AVInt64 v else AVString (utoa (unat v)))"

fun convert_value :: "'f goany \<Rightarrow> 'f attr_value option" where
  "convert_value (GString s) = Some (AVString s)"
| "convert_value (GInt v) = Some (AVInt64 v)"
| "convert_value (GInt64 v) = Some (AVInt64 v)"
| "convert_value (GInt32 v) = Some (AVInt64 (signed v))"
| "convert_value (GInt16 v) = Some (AVInt64 (signed v))"
| "convert_value (GInt8 v) = Some (AVInt64 (signed v))"
| "convert_value (GUint32 v) = Some (AVInt64 (unsigned v))"
| "convert_value (GUint16 v) = Some (AVInt64 (unsigned v))"
| "convert_value (GUint8 v) = Some (AVInt64 (unsigned v))"
| "convert_value (GUint v) = Some (uint64_attr v)"
| "convert_value (GUint64 v) = Some (uint64_attr v)"
| "convert_value (GFloat64 v) = Some (AVFloat64 v)"
| "convert_value (GFloat32 v) = Some (AVFloat64 v)"
| "convert_value (GBool v) = Some (AVBool v)"
| "convert_value (GDuration v) = Some (AVInt64 v)"
| "convert_value (GStrings v) = Some (AVStringSlice v)"
| "convert_value (GFloats v) = Some (AVFloat64Slice v)"
| "convert_value (GBools v) = Some (AVBoolSlice v)"
| "convert_value (GErrorVal d) = (if isNilValue (Some d) then None else Some (AVString (dyn_text d)))"
| "convert_value (GStringer d) = (if isNilValue (Some d) then None else Some (AVString (dyn_text d)))"
| "convert_value GNil = None"
| "convert_value (GKeyValue kv) = Some (snd kv)"
| "convert_value (GOther s) = Some (AVString s)"

text \<open>The attribute of one merged entry, if any: the body of the second loop.\<close>

definition kv_of :: "string \<Rightarrow> 'f goany \<Rightarrow> 'f kv option" where
  "kv_of k v =
     (case v of
        GKeyValue kv \<Rightarrow> if IsValidKey (fst kv) then Some kv else None
      | _ \<Rightarrow> if \<not> IsValidKey k then None else map_option (Pair k) (convert_value v))"

definition map_index :: "'f gomap \<Rightarrow> string \<Rightarrow> 'f goany" where
  "map_index m k = (case map_of m k of Some v \<Rightarrow> v | None \<Rightarrow> GNil)"

definition merge_map :: "(string \<Rightarrow> string) \<Rightarrow> 'f gomap \<Rightarrow> 'f gomap \<Rightarrow> 'f gomap" where
  "merge_map uni merged m = foldl (\<lambda>acc k. AList.update (NormalizeKey uni k) (map_index m k) acc) merged (sort (map fst m))"

definition ConvertMapsToKVs :: "(string \<Rightarrow> string) \<Rightarrow> 'f gomap list \<Rightarrow> 'f kv list" where
  "ConvertMapsToKVs uni ms =
     (let merged = foldl (merge_map uni) [] ms in
      if merged = [] then []
      else sort_key fst (List.map_filter (\<lambda>k. kv_of k (map_index merged k)) (sort (map fst merged))))"

text \<open>The identity as a map; \<open>Attributes\<close> has at most the three identity keys.\<close>

definition ConvertAppInfoToMap :: "info \<Rightarrow> 'f gomap" where
  "ConvertAppInfoToMap i =
     List.map_filter (\<lambda>k. map_option (\<lambda>v. (k, GString v)) (Attributes i k)) [nameKey, versionKey, environmentKey]"

subsection \<open>Normal keys\<close>

text \<open>
  The keys in OpenTelemetry style: lower case, no empty dot-separated part, and an underscore only beside a
  dot or in a correlation key.
\<close>

definition normal_key :: "string \<Rightarrow> bool" where
  "normal_key k \<longleftrightarrow> map ascii_lower k = k \<and> \<not> contains k ''..'' \<and> (k \<noteq> [] \<longrightarrow> hd k \<noteq> CHR ''.'' \<and> last k \<noteq> CHR ''.'')
     \<and> (CHR ''_'' \<in> set k \<longrightarrow> k \<in> set correlationKeys \<or> CHR ''.'' \<in> set k)"

definition ascii_only :: "string \<Rightarrow> bool" where
  "ascii_only s \<longleftrightarrow> \<not> (\<exists>c \<in> set s. high_byte c)"

lemma dots_Cons: "contains (c # cs) ''..'' \<longleftrightarrow> (c = CHR ''.'' \<and> cs \<noteq> [] \<and> hd cs = CHR ''.'') \<or> contains cs ''..''"
  by (cases cs) (auto simp: contains_def sublist_Cons_right)

lemma dots_Nil [simp]: "\<not> contains [] ''..''"
  by (simp add: contains_def)

lemma collapse_loop_id: "\<not> contains k ''..'' \<Longrightarrow> (prev \<longrightarrow> k = [] \<or> hd k \<noteq> CHR ''.'') \<Longrightarrow> collapse_loop prev k = k"
  by (induction prev k rule: collapse_loop.induct) (auto simp: dots_Cons)

text \<open>The fast path of \<open>collapseDots\<close> changes nothing: it is the loop on every input.\<close>

lemma collapseDots_loop: "collapseDots k = collapse_loop False k"
  by (simp add: collapseDots_def collapse_loop_id)

lemma collapse_loop_dots:
  "\<not> contains (collapse_loop prev k) ''..'' \<and> (prev \<longrightarrow> collapse_loop prev k = [] \<or> hd (collapse_loop prev k) \<noteq> CHR ''.'')"
  by (induction prev k rule: collapse_loop.induct) (auto simp: dots_Cons)

lemma collapseDots_dots [simp]: "\<not> contains (collapseDots k) ''..''"
  by (simp add: collapseDots_loop collapse_loop_dots)

lemma collapse_loop_set: "set (collapse_loop prev k) \<subseteq> set k"
  by (induction prev k rule: collapse_loop.induct) auto

lemma trim_dots_sublist: "sublist (trim_dots k) k"
  unfolding trim_dots_def
  by (metis rev_rev_ident sublist_order.order.trans suffix_dropWhile suffix_imp_sublist suffix_to_prefix prefix_imp_sublist)

lemma trim_dots_dots: "\<not> contains k ''..'' \<Longrightarrow> \<not> contains (trim_dots k) ''..''"
  using trim_dots_sublist sublist_order.order.trans by (auto simp: contains_def)

lemma drop_dots_hd: "dropWhile (\<lambda>c. c = x) xs \<noteq> [] \<Longrightarrow> hd (dropWhile (\<lambda>c. c = x) xs) \<noteq> x"
  using hd_dropWhile [of "\<lambda>c. c = x" xs] by blast

lemma drop_dots_id: "xs = [] \<or> hd xs \<noteq> x \<Longrightarrow> dropWhile (\<lambda>c. c = x) xs = xs"
  by (cases xs) auto

lemma trim_dots_prefix: "prefix (trim_dots k) (dropWhile (\<lambda>c. c = CHR ''.'') k)"
  unfolding trim_dots_def by (metis rev_rev_ident suffix_dropWhile suffix_to_prefix)

lemma trim_dots_ends:
  assumes "trim_dots k \<noteq> []"
  shows "hd (trim_dots k) \<noteq> CHR ''.'' \<and> last (trim_dots k) \<noteq> CHR ''.''"
proof
  let ?a = "dropWhile (\<lambda>c. c = CHR ''.'') k"
  from trim_dots_prefix [of k] obtain zs where "?a = trim_dots k @ zs" by (rule prefixE)
  with assms have "?a \<noteq> []" "hd (trim_dots k) = hd ?a" by (simp_all del: dropWhile_eq_Nil_conv)
  with drop_dots_hd [of "CHR ''.''" k] show "hd (trim_dots k) \<noteq> CHR ''.''" by simp
  let ?b = "dropWhile (\<lambda>c. c = CHR ''.'') (rev ?a)"
  have "trim_dots k = rev ?b" by (simp only: trim_dots_def)
  with assms have "?b \<noteq> []" "last (trim_dots k) = hd ?b" by (simp_all only: rev_is_Nil_conv last_rev not_False_eq_True)
  with drop_dots_hd [of "CHR ''.''" "rev ?a"] show "last (trim_dots k) \<noteq> CHR ''.''" by simp
qed

lemma trim_dots_id: "(k \<noteq> [] \<longrightarrow> hd k \<noteq> CHR ''.'' \<and> last k \<noteq> CHR ''.'') \<Longrightarrow> trim_dots k = k"
  by (cases "k = []") (simp_all add: trim_dots_def drop_dots_id hd_rev)

lemma normal_step:
  fixes k :: string
  defines "t \<equiv> trim_dots (collapseDots k)"
  shows "\<not> contains t ''..''" "t \<noteq> [] \<longrightarrow> hd t \<noteq> CHR ''.'' \<and> last t \<noteq> CHR ''.''" "set t \<subseteq> set k"
  using trim_dots_ends [of "collapseDots k"] set_mono_sublist [OF trim_dots_sublist [of "collapseDots k"]] collapse_loop_set [of False k]
  by (auto simp: t_def trim_dots_dots collapseDots_loop [symmetric])

lemma lower_fixed_points: "map ascii_lower k = k \<longleftrightarrow> (\<forall>c \<in> set k. ascii_lower c = c)"
  by (induction k) auto

lemma normal_key_fixed: "normal_key k \<Longrightarrow> ascii_only k \<Longrightarrow> NormalizeKey uni k = k"
  by (auto simp: normal_key_def NormalizeKey_def ascii_only_def to_lower_def Let_def collapseDots_loop collapse_loop_id
      trim_dots_id replace_all_absent)

lemma NormalizeKey_is_normal: "ascii_only k \<Longrightarrow> normal_key (NormalizeKey uni k)"
proof -
  assume "ascii_only k"
  then have lw: "to_lower uni k = map ascii_lower k" by (simp add: to_lower_def ascii_only_def)
  let ?t = "trim_dots (collapseDots (map ascii_lower k))"
  let ?r = "replace_all ?t ''_'' ''.''"
  let ?u = "trim_dots (collapseDots ?r)"
  note t = normal_step [of "map ascii_lower k"] and u = normal_step [of ?r]
  have low: "\<forall>c \<in> set ?t. ascii_lower c = c" using t(3) by (auto simp: lower_lower)
  have "set ?r \<subseteq> (set ?t - {CHR ''_''}) \<union> {CHR ''.''}" by (auto simp: replace_all_char split: if_splits)
  with u(3) have su: "set ?u \<subseteq> (set ?t - {CHR ''_''}) \<union> {CHR ''.''}" by blast
  have "ascii_lower CHR ''.'' = CHR ''.''" by (simp add: lower_fixed byte_between_def)
  with su low have "\<forall>c \<in> set ?u. ascii_lower c = c" by blast
  with t u low su show ?thesis
    by (auto simp: normal_key_def NormalizeKey_def lw Let_def lower_fixed_points)
qed

lemma NormalizeKey_ascii: "ascii_only k \<Longrightarrow> ascii_only (NormalizeKey uni k)"
proof -
  assume a: "ascii_only k"
  then have lw: "to_lower uni k = map ascii_lower k" by (simp add: to_lower_def ascii_only_def)
  let ?t = "trim_dots (collapseDots (map ascii_lower k))"
  have "ascii_only ?t" using normal_step(3) [of "map ascii_lower k"] a by (auto simp: ascii_only_def lower_high)
  moreover have "set (replace_all ?t ''_'' ''.'') \<subseteq> insert (CHR ''.'') (set ?t)" by (auto simp: replace_all_char split: if_splits)
  moreover have "\<not> high_byte CHR ''.''" by (simp add: high_byte_def)
  ultimately have "ascii_only (trim_dots (collapseDots (replace_all ?t ''_'' ''.'')))"
    using normal_step(3) [of "replace_all ?t ''_'' ''.''"] by (fastforce simp: ascii_only_def)
  with \<open>ascii_only ?t\<close> show ?thesis by (simp add: NormalizeKey_def lw Let_def)
qed

text \<open>
  The result of \<open>NormalizeKey\<close> on an ASCII key is a key in OpenTelemetry style (lower case, no empty part between
  dots, an underscore only beside a dot or in \<open>trace_id\<close>, \<open>span_id\<close>, \<open>trace_flags\<close>), normalising again
  changes nothing, and the keys left unchanged are exactly those already in that style.
\<close>

theorem NormalizeKey_normal:
  assumes "ascii_only k"
  shows "normal_key (NormalizeKey uni k) \<and> NormalizeKey uni (NormalizeKey uni k) = NormalizeKey uni k
    \<and> (NormalizeKey uni k = k \<longleftrightarrow> normal_key k)"
  using assms NormalizeKey_is_normal [OF assms, of uni] NormalizeKey_ascii [OF assms, of uni] normal_key_fixed [of _ uni]
  by metis

theorem NormalizeKey_normal_witness:
  "NormalizeKey id (NormalizeKey id ''HTTP__Method_'') = NormalizeKey id ''HTTP__Method_''
   \<and> NormalizeKey id ''HTTP__Method_'' = ''http.method''"
proof -
  have "ascii_only ''HTTP__Method_''" by (simp add: ascii_only_def high_byte_def)
  from NormalizeKey_normal [OF this, of id] show ?thesis
    by (simp add: NormalizeKey_def) code_simp
qed

subsection \<open>Merging\<close>

text \<open>No value of the map is an \<open>attribute.KeyValue\<close>, which brings a key of its own.\<close>

definition plain_map :: "'f gomap \<Rightarrow> bool" where
  "plain_map m \<longleftrightarrow> (\<forall>v \<in> snd ` set m. \<not> is_GKeyValue v)"

text \<open>The raw keys of one map that normalise to a given key, in the order the loop visits them.\<close>

definition raw_keys :: "(string \<Rightarrow> string) \<Rightarrow> 'f gomap \<Rightarrow> string \<Rightarrow> string list" where
  "raw_keys uni m k = filter (\<lambda>r. NormalizeKey uni r = k) (sort (map fst m))"

lemma plain_index: "plain_map m \<Longrightarrow> \<not> is_GKeyValue (map_index m k)"
  by (auto simp: plain_map_def map_index_def split: option.split dest!: map_of_SomeD)

lemma case_last: "(case zs of [] \<Rightarrow> a | r # rs \<Rightarrow> Some (g (last (r # rs)))) = (if zs = [] then a else Some (g (last zs)))"
  by (cases zs) simp_all

lemma foldl_update_lookup:
  "map_of (foldl (\<lambda>acc k. AList.update (f k) (g k) acc) acc ks) x =
     (case filter (\<lambda>r. f r = x) ks of [] \<Rightarrow> map_of acc x | r # rs \<Rightarrow> Some (g (last (r # rs))))"
  unfolding case_last by (induction ks rule: rev_induct) (auto simp: update_conv')

lemma foldl_update_distinct: "distinct (map fst acc) \<Longrightarrow> distinct (map fst (foldl (\<lambda>acc k. AList.update (f k) (g k) acc) acc ks))"
  by (induction ks rule: rev_induct) (simp_all add: distinct_update)

lemma merge_map_lookup:
  "map_of (merge_map uni acc m) k =
     (case raw_keys uni m k of [] \<Rightarrow> map_of acc k | r # rs \<Rightarrow> Some (map_index m (last (r # rs))))"
  unfolding merge_map_def raw_keys_def by (rule foldl_update_lookup)

lemma merge_map_distinct: "distinct (map fst acc) \<Longrightarrow> distinct (map fst (merge_map uni acc m))"
  unfolding merge_map_def by (rule foldl_update_distinct)

lemma merged_distinct: "distinct (map fst (foldl (merge_map uni) [] ms))"
  by (induction ms rule: rev_induct) (simp_all add: merge_map_distinct)

lemma merge_map_plain:
  assumes "\<forall>k. \<not> is_GKeyValue (map_index acc k)" and "plain_map m"
  shows "\<not> is_GKeyValue (map_index (merge_map uni acc m) k)"
  using assms(1) plain_index [OF assms(2)]
  by (auto simp: map_index_def [of "merge_map uni acc m"] map_index_def [of acc] merge_map_lookup split: list.split option.splits)

lemma merged_plain: "\<forall>m \<in> set ms. plain_map m \<Longrightarrow> \<not> is_GKeyValue (map_index (foldl (merge_map uni) [] ms) k)"
proof (induction ms arbitrary: k rule: rev_induct)
  case Nil
  then show ?case by (simp add: map_index_def)
next
  case (snoc m ms)
  then show ?case by (simp add: merge_map_plain)
qed

lemma kv_of_plain: "\<not> is_GKeyValue v \<Longrightarrow> kv_of k v = (if IsValidKey k then map_option (Pair k) (convert_value v) else None)"
  by (cases v) (simp_all add: kv_of_def)

lemma map_filter_keys: "set (map fst (List.map_filter (\<lambda>k. map_option (Pair k) (h k)) ks)) \<subseteq> set ks"
  by (induction ks) (auto simp: List.map_filter_def)

lemma map_filter_sorted:
  "sorted_wrt (<) (ks :: string list) \<Longrightarrow> sorted_wrt (<) (map fst (List.map_filter (\<lambda>k. map_option (Pair k) (h k)) ks))"
proof (induction ks)
  case (Cons k ks)
  then show ?case using map_filter_keys [of h ks] by (cases "h k") (auto simp: List.map_filter_simps)
qed (simp add: List.map_filter_simps)

lemma map_filter_lookup:
  "map_of (List.map_filter (\<lambda>k. map_option (Pair k) (h k)) ks) x = (if x \<in> set ks then h x else None)"
proof (induction ks)
  case (Cons k ks)
  then show ?case by (cases "h k") (auto simp: List.map_filter_simps)
qed (simp add: List.map_filter_simps)

lemma ConvertMaps_plain:
  fixes ms :: "'f gomap list" and uni :: "string \<Rightarrow> string"
  assumes "\<forall>m \<in> set ms. plain_map m"
  defines "merged \<equiv> foldl (merge_map uni) [] ms"
  shows "sorted_wrt (<) (map fst (ConvertMapsToKVs uni ms))"
    and "map_of (ConvertMapsToKVs uni ms) k = (if IsValidKey k then Option.bind (map_of merged k) convert_value else None)"
proof -
  let ?h = "\<lambda>k. if IsValidKey k then convert_value (map_index merged k) else None"
  let ?l = "List.map_filter (\<lambda>k. map_option (Pair k) (?h k)) (sort (map fst merged))"
  have kv: "kv_of k (map_index merged k) = map_option (Pair k) (?h k)" for k
    using merged_plain [OF assms(1), of uni k] by (simp add: kv_of_plain merged_def)
  have "sorted_wrt (<) (sort (map fst merged))"
    using merged_distinct [of uni ms] by (simp add: strict_sorted_iff merged_def)
  from map_filter_sorted [OF this, of ?h] have s: "sorted_wrt (<) (map fst ?l)" .
  then have "sort_key fst ?l = ?l" by (simp add: sort_key_id_if_sorted strict_sorted_iff)
  then have c: "ConvertMapsToKVs uni ms = ?l"
    by (auto simp: ConvertMapsToKVs_def merged_def [symmetric] kv List.map_filter_simps)
  with s show "sorted_wrt (<) (map fst (ConvertMapsToKVs uni ms))" by simp
  have "k \<in> set (map fst merged) \<longleftrightarrow> map_of merged k \<noteq> None" by (simp add: map_of_eq_None_iff)
  then show "map_of (ConvertMapsToKVs uni ms) k = (if IsValidKey k then Option.bind (map_of merged k) convert_value else None)"
    by (auto simp: c map_filter_lookup map_index_def split: option.split)
qed

text \<open>
  C21: Converting maps without \<open>attribute.KeyValue\<close> values yields attributes in strictly ascending key order, each key
  once, and the last map decides: a key to which one of its raw keys normalises gets the value of the
  greatest such raw key (or no attribute, when that value is nil or the key is invalid); every other key keeps what
  the maps before it gave.
\<close>

theorem ConvertMaps_last_wins:
  assumes "\<forall>m' \<in> set (ms @ [m]). plain_map m'"
  shows "sorted_wrt (<) (map fst (ConvertMapsToKVs uni (ms @ [m])))
    \<and> map_of (ConvertMapsToKVs uni (ms @ [m])) k =
       (case raw_keys uni m k of
          [] \<Rightarrow> map_of (ConvertMapsToKVs uni ms) k
        | r # rs \<Rightarrow> if IsValidKey k then convert_value (map_index m (last (r # rs))) else None)"
proof -
  from assms have "\<forall>m' \<in> set ms. plain_map m'" by simp
  from ConvertMaps_plain(2) [OF this] have "map_of (ConvertMapsToKVs uni ms) k =
      (if IsValidKey k then Option.bind (map_of (foldl (merge_map uni) [] ms) k) convert_value else None)" .
  then show ?thesis
    using ConvertMaps_plain [OF assms, of uni] by (auto simp: merge_map_lookup split: list.split)
qed

theorem ConvertMaps_last_wins_witness:
  "map_of (ConvertMapsToKVs id [[(''order_id'', GInt 1), (''zone'', GString ''a'')], [(''Order_ID'', GInt 2 :: nat goany)]]) ''order.id''
     = Some (AVInt64 2)"
proof -
  have p: "\<forall>m' \<in> set ([[(''order_id'', GInt 1), (''zone'', GString ''a'')]] @ [[(''Order_ID'', GInt 2 :: nat goany)]]). plain_map m'"
    by (simp add: plain_map_def)
  have "raw_keys id [(''Order_ID'', GInt 2 :: nat goany)] ''order.id'' = [''Order_ID'']"
    by code_simp
  moreover have "IsValidKey ''order.id''" by (simp add: IsValidKey_def key_byte_def byte_between_def)
  ultimately show ?thesis
    using ConvertMaps_last_wins [OF p, of id "''order.id''"] by (simp add: map_index_def)
qed

subsection \<open>The identity attributes\<close>

lemma identity_dom: "Attributes i k \<noteq> None \<Longrightarrow> k \<in> set [nameKey, versionKey, environmentKey]"
  by (auto simp: Attributes_def Let_def simp del: identity_keys split: if_splits)

lemma identity_map_lookup: "map_of (ConvertAppInfoToMap i) k = map_option GString (Attributes i k)"
proof -
  have eq: "(\<lambda>k. map_option (\<lambda>v. (k, GString v)) (Attributes i k)) = (\<lambda>k. map_option (Pair k) (map_option GString (Attributes i k)))"
    by (simp add: option.map_comp comp_def)
  show ?thesis
    unfolding ConvertAppInfoToMap_def eq map_filter_lookup using identity_dom [of i k] by (cases "Attributes i k") (simp_all del: identity_keys set_simps)
qed

lemma identity_map_keys: "set (map fst (ConvertAppInfoToMap i :: 'f gomap)) \<subseteq> set [nameKey, versionKey, environmentKey]"
proof
  fix k assume "k \<in> set (map fst (ConvertAppInfoToMap i :: 'f gomap))"
  then have "map_of (ConvertAppInfoToMap i :: 'f gomap) k \<noteq> None" by (auto simp: map_of_eq_None_iff)
  then show "k \<in> set [nameKey, versionKey, environmentKey]" unfolding identity_map_lookup by (intro identity_dom) auto
qed

lemma identity_map_distinct: "distinct (map fst (ConvertAppInfoToMap i))"
  by (auto simp: ConvertAppInfoToMap_def List.map_filter_simps split: option.split)

lemma identity_map_plain: "plain_map (ConvertAppInfoToMap i :: 'f gomap)"
proof -
  have "\<not> is_GKeyValue v" if "(k, v) \<in> set (ConvertAppInfoToMap i :: 'f gomap)" for k v
  proof -
    from map_of_is_SomeI [OF identity_map_distinct that] obtain t where "v = GString t" unfolding identity_map_lookup by auto
    then show ?thesis by simp
  qed
  then show ?thesis by (auto simp: plain_map_def)
qed

lemma filter_single: "distinct ks \<Longrightarrow> k \<in> set ks \<Longrightarrow> filter (\<lambda>r. r = k) ks = [k]"
  by (induction ks) (auto simp: filter_empty_conv)

lemmas key_eval = normal_key_def ascii_only_def high_byte_def dots_Cons byte_between_def ascii_lower_def IsValidKey_def key_byte_def

lemma identity_keys_fixed:
  assumes "k \<in> set [nameKey, versionKey, environmentKey]"
  shows "NormalizeKey uni k = k \<and> IsValidKey k"
proof
  show "NormalizeKey uni k = k" by (rule normal_key_fixed) (use assms in \<open>auto simp: key_eval\<close>)
  show "IsValidKey k" using assms by (auto simp: key_eval)
qed

lemma identity_raw_keys:
  assumes "Attributes i k \<noteq> None"
  shows "raw_keys uni (ConvertAppInfoToMap i :: 'f gomap) k = [k]"
proof -
  let ?ks = "sort (map fst (ConvertAppInfoToMap i :: 'f gomap))"
  have "map_of (ConvertAppInfoToMap i :: 'f gomap) k \<noteq> None" using assms by (simp add: identity_map_lookup)
  then have "k \<in> set ?ks" by (auto simp: map_of_eq_None_iff)
  moreover have "raw_keys uni (ConvertAppInfoToMap i :: 'f gomap) k = filter (\<lambda>r. r = k) ?ks"
    unfolding raw_keys_def
  proof (rule filter_cong [OF refl])
    fix r assume "r \<in> set ?ks"
    then have "r \<in> set (map fst (ConvertAppInfoToMap i :: 'f gomap))" by (simp only: set_sort)
    from identity_keys_fixed [OF subsetD [OF identity_map_keys this], of uni] show "(NormalizeKey uni r = k) = (r = k)" by simp
  qed
  moreover have "distinct ?ks" by (simp add: identity_map_distinct)
  ultimately show ?thesis by (simp only: filter_single)
qed

text \<open>
  The service identity wins over the configured attributes. When no configured value is an
  \<open>attribute.KeyValue\<close>, every attribute of the identity appears in the converted list with the identity's own
  value, under any configured keys that normalise to it, and no key occurs twice.
\<close>

theorem identity_wins:
  assumes "plain_map kv" and "Attributes i k = Some v"
  shows "map_of (ConvertMapsToKVs uni [kv, ConvertAppInfoToMap i]) k = Some (AVString v)
    \<and> distinct (map fst (ConvertMapsToKVs uni [kv, ConvertAppInfoToMap i]))"
proof -
  let ?m = "ConvertAppInfoToMap i :: 'a gomap"
  have p: "\<forall>m' \<in> set ([kv] @ [?m]). plain_map m'" using assms(1) identity_map_plain by simp
  from assms(2) identity_dom identity_keys_fixed have "IsValidKey k" by blast
  moreover have "raw_keys uni ?m k = [k]" "map_index ?m k = GString v"
    using assms(2) by (simp_all add: identity_raw_keys map_index_def identity_map_lookup)
  ultimately have "map_of (ConvertMapsToKVs uni ([kv] @ [?m])) k = Some (AVString v)"
    using ConvertMaps_plain(2) [OF p, of uni k] by (simp add: merge_map_lookup)
  with ConvertMaps_plain(1) [OF p, of uni] show ?thesis by (simp add: strict_sorted_iff)
qed

theorem identity_wins_witness:
  "map_of (ConvertMapsToKVs id [[(''service_name'', GString ''other'' :: nat goany)], ConvertAppInfoToMap Placeholder]) nameKey
     = Some (AVString ''app'')"
proof -
  have "plain_map [(''service_name'', GString ''other'' :: nat goany)]" by (simp add: plain_map_def)
  moreover have "Attributes Placeholder nameKey = Some ''app''"
    by (simp add: Attributes_def Placeholder_def Let_def trim_app)
  ultimately show ?thesis using identity_wins by blast
qed

text \<open>
  An \<open>attribute.KeyValue\<close> escapes that rule: under a map key that sorts after \<open>service.name\<close> it is kept, with its
  own key \<open>service.name\<close>, behind the identity's attribute.
\<close>

lemma filter_map_filter:
  "(\<And>k. k \<in> set ks \<Longrightarrow> (case g k of Some a \<Rightarrow> P a \<longleftrightarrow> Q k | None \<Rightarrow> True)) \<Longrightarrow>
     filter P (List.map_filter g ks) = List.map_filter g (filter Q ks)"
proof (induction ks)
  case (Cons k ks)
  then have "filter P (List.map_filter g ks) = List.map_filter g (filter Q ks)" by simp
  then show ?case using Cons.prems [of k] by (cases "g k") (auto simp: List.map_filter_simps)
qed (simp add: List.map_filter_simps)

theorem identity_overridden:
  "filter (\<lambda>a. fst a = nameKey) (ConvertMapsToKVs uni [[(''zone'', GKeyValue (nameKey, v))], ConvertAppInfoToMap i])
     = [(nameKey, AVString (trim_space (Name i))), (nameKey, v)]"
proof -
  let ?z = "[(''zone'', GKeyValue (nameKey, v))]" and ?m = "ConvertAppInfoToMap i :: 'a gomap"
  define merged where "merged = foldl (merge_map uni) [] [?z, ?m]"
  let ?g = "\<lambda>k. kv_of k (map_index merged k)" and ?ks = "sort (map fst merged)"
  have "NormalizeKey uni ''zone'' = ''zone''" by (rule normal_key_fixed) (simp_all add: key_eval)
  then have zone: "raw_keys uni ?z k = (if k = ''zone'' then [''zone''] else [])" for k by (simp add: raw_keys_def)
  have ids: "raw_keys uni ?m k = (if Attributes i k = None then [] else [k])" for k
  proof (cases "Attributes i k")
    case None
    then have "k \<notin> set (map fst ?m)" by (metis identity_map_lookup map_of_eq_None_iff option.simps(8) set_map)
    then show ?thesis using None identity_map_keys [of i] identity_keys_fixed [of _ uni] by (auto simp: raw_keys_def filter_empty_conv simp del: identity_keys set_simps)
  qed (simp add: identity_raw_keys)
  have look: "map_of merged k = (case Attributes i k of Some t \<Rightarrow> Some (GString t) | None \<Rightarrow> if k = ''zone'' then Some (GKeyValue (nameKey, v)) else None)" for k
    by (simp add: merged_def merge_map_lookup ids zone map_index_def identity_map_lookup del: identity_keys split: option.split)
  have nm: "Attributes i nameKey = Some (trim_space (Name i))" by (simp add: Attributes_def Let_def)
  have zn: "Attributes i ''zone'' = None" by (simp add: Attributes_def Let_def)
  have dom: "set ?ks = {k. map_of merged k \<noteq> None}" by (auto simp: map_of_eq_None_iff)
  have "filter (\<lambda>k. k \<in> {nameKey, ''zone''}) ?ks = [nameKey, ''zone'']"
  proof (rule sorted_distinct_set_unique)
    show "distinct (filter (\<lambda>k. k \<in> {nameKey, ''zone''}) ?ks)" using merged_distinct [of uni "[?z, ?m]"] by (simp add: merged_def)
    show "set (filter (\<lambda>k. k \<in> {nameKey, ''zone''}) ?ks) = set [nameKey, ''zone'']" using dom nm zn by (auto simp: look simp del: identity_keys set_sort)
  qed (simp_all add: sorted_wrt_filter less_char_def less_eq_char_def)
  moreover have "filter (\<lambda>a. fst a = nameKey) (List.map_filter ?g ?ks) = List.map_filter ?g (filter (\<lambda>k. k \<in> {nameKey, ''zone''}) ?ks)"
    by (rule filter_map_filter) (auto simp: map_index_def look zn kv_of_def split: option.splits if_splits)
  moreover have "?g nameKey = Some (nameKey, AVString (trim_space (Name i)))" "?g ''zone'' = Some (nameKey, v)"
    using identity_keys_fixed [of nameKey uni] by (simp_all add: map_index_def look nm zn kv_of_def del: identity_keys) 
  moreover have "merged \<noteq> []" using look [of "''zone''"] zn by auto
  then have "ConvertMapsToKVs uni [?z, ?m] = sort_key fst (List.map_filter ?g ?ks)"
    unfolding ConvertMapsToKVs_def merged_def [symmetric] Let_def by simp
  ultimately show ?thesis by (simp add: sort_key_stable List.map_filter_simps del: identity_keys)
qed

subsection \<open>Integer values\<close>

text \<open>The integer a Go value denotes, read by the sign of its type.\<close>

fun int_value :: "'f goany \<Rightarrow> int option" where
  "int_value (GInt v) = Some (sint v)"
| "int_value (GInt64 v) = Some (sint v)"
| "int_value (GInt32 v) = Some (sint v)"
| "int_value (GInt16 v) = Some (sint v)"
| "int_value (GInt8 v) = Some (sint v)"
| "int_value (GUint32 v) = Some (uint v)"
| "int_value (GUint16 v) = Some (uint v)"
| "int_value (GUint8 v) = Some (uint v)"
| "int_value (GUint v) = Some (uint v)"
| "int_value (GUint64 v) = Some (uint v)"
| "int_value (GDuration v) = Some (sint v)"
| "int_value _ = None"

lemma sint_widen: "LENGTH('a::len) \<le> LENGTH('b::len) \<Longrightarrow> sint (signed (w :: 'a word) :: 'b word) = sint w"
  by transfer (simp add: signed_take_bit_signed_take_bit min_def)

lemma sint_widen_unsigned: "LENGTH('a::len) < LENGTH('b::len) \<Longrightarrow> sint (unsigned (w :: 'a word) :: 'b word) = uint w"
  by transfer (simp add: signed_take_bit_take_bit)

lemma uint_maxInt64: "uint maxInt64Value = 2 ^ 63 - 1"
  by (simp add: maxInt64Value_def)

lemma fits_int64: "(v :: 64 word) \<le> maxInt64Value \<longleftrightarrow> uint v < 2 ^ 63"
  unfolding word_le_def uint_maxInt64 by (rule zle_diff1_eq)

lemma sint_small: "uint (v :: 64 word) < 2 ^ 63 \<Longrightarrow> sint v = uint v"
proof -
  assume less: "uint v < 2 ^ 63"
  then have "\<not> bit (uint v) 63" by (simp add: bit_iff_odd div_pos_pos_trivial)
  moreover have "take_bit 63 (uint v) = uint v" using less by (simp add: take_bit_int_eq_self)
  ultimately show ?thesis by (simp add: sint_uint signed_take_bit_eq_if_positive)
qed

lemma uint64_attr_fits: "uint v < 2 ^ 63 \<Longrightarrow> \<exists>w. uint64_attr v = AVInt64 w \<and> sint w = uint v"
  by (rule exI [of _ v]) (simp add: uint64_attr_def fits_int64 sint_small del: power_numeral)

lemma uint64_attr_large: "\<not> uint v < 2 ^ 63 \<Longrightarrow> uint64_attr v = AVString (itoa (uint v))"
  by (simp add: uint64_attr_def fits_int64 itoa_def del: power_numeral)

text \<open>
  No integer changes its value on the way into an attribute. Every signed and unsigned Go integer of any width, and
  every duration, is recorded as the 64-bit signed integer with the same value when there is one, and otherwise (an
  unsigned value above the largest \<open>int64\<close>) as the string of its decimal digits.
\<close>

theorem integers_exact:
  assumes "int_value v = Some i"
  shows "if i < 2 ^ 63 then \<exists>w. convert_value v = Some (AVInt64 w) \<and> sint w = i
         else convert_value v = Some (AVString (itoa i))"
proof -
  have "sint w < 2 ^ 63" for w :: "64 word" using sint_lt [of w] by simp
  moreover have "sint w < 2 ^ 63" for w :: "32 word" using sint_lt [of w] by (simp add: order.strict_trans)
  moreover have "sint w < 2 ^ 63" for w :: "16 word" using sint_lt [of w] by (simp add: order.strict_trans)
  moreover have "sint w < 2 ^ 63" for w :: "8 word" using sint_lt [of w] by (simp add: order.strict_trans)
  moreover have "uint w < 2 ^ 63" for w :: "32 word" using uint_lt2p [of w] by (simp add: order.strict_trans)
  moreover have "uint w < 2 ^ 63" for w :: "16 word" using uint_lt2p [of w] by (simp add: order.strict_trans)
  moreover have "uint w < 2 ^ 63" for w :: "8 word" using uint_lt2p [of w] by (simp add: order.strict_trans)
  ultimately show ?thesis
    using assms by (cases v) (auto simp: sint_widen sint_widen_unsigned uint64_attr_fits uint64_attr_large simp del: power_numeral)
qed

theorem integers_exact_witness:
  "convert_value (GUint64 (2 ^ 63) :: nat goany) = Some (AVString (itoa (2 ^ 63)))"
proof -
  have "int_value (GUint64 (2 ^ 63) :: nat goany) = Some (2 ^ 63)" by simp
  from integers_exact [OF this] show ?thesis by (simp only: if_False order.irrefl)
qed

end
