(* ===== verification/Obs_Logs.thy ===== *)
theory Obs_Logs
  imports Obs_Attributes
begin

text \<open>
  Package \<open>observability/logs\<close>: the logger, its handlers and its configuration. The part of \<open>log/slog\<close> the
  package uses is modelled as data: a record is its level, message and attributes, a text or JSON handler is
  the writer, minimum level, groups and attributes it was built with, and handling a record yields the lines written, an attribute
  with the groups around it. How a line is encoded as text or JSON is not modelled. A context is \<^term>\<open>None\<close>
  when nil, and else the span context it carries. \<open>'v\<close> stands for the values of log arguments, \<open>'w\<close> for
  the writers a configuration names.
\<close>

subsection \<open>log/slog\<close>

type_synonym slog_level = int

definition LevelDebug :: slog_level where "LevelDebug = - 4"
definition LevelInfo :: slog_level where "LevelInfo = 0"
definition LevelWarn :: slog_level where "LevelWarn = 4"
definition LevelError :: slog_level where "LevelError = 8"

lemmas slog_levels [simp] = LevelDebug_def LevelInfo_def LevelWarn_def LevelError_def

text \<open>An argument of a log call: an attribute, a string, or any other value.\<close>

datatype 'v arg = ArgAttr string 'v | ArgStr string | ArgOther 'v

datatype ('v, 'f) slog_value = SValue 'v | SString string | SAttrArg string 'v | SAttribute "'f attr_value"

type_synonym ('v, 'f) slog_attr = "string \<times> ('v, 'f) slog_value"

fun arg_value :: "'v arg \<Rightarrow> ('v, 'f) slog_value" where
  "arg_value (ArgAttr k v) = SAttrArg k v"
| "arg_value (ArgStr s) = SString s"
| "arg_value (ArgOther v) = SValue v"

text \<open>\<open>argsToAttr\<close> of \<open>log/slog\<close>, applied until the arguments are used up.\<close>

fun args_to_attrs :: "'v arg list \<Rightarrow> ('v, 'f) slog_attr list" where
  "args_to_attrs [] = []"
| "args_to_attrs (ArgAttr k v # as) = (k, SValue v) # args_to_attrs as"
| "args_to_attrs [ArgStr s] = [(''!BADKEY'', SString s)]"
| "args_to_attrs (ArgStr s # a # as) = (s, arg_value a) # args_to_attrs as"
| "args_to_attrs (ArgOther v # as) = (''!BADKEY'', SValue v) # args_to_attrs as"

record ('v, 'f) slog_record =
  r_Level :: slog_level
  r_Message :: string
  r_Attrs :: "('v, 'f) slog_attr list"

record span_context =
  sc_TraceID :: string
  sc_SpanID :: string
  sc_IsValid :: bool

type_synonym log_ctx = "span_context option"

text \<open>The methods of a \<open>slog.Handler\<close>; \<open>'o\<close> is what handling a record writes.\<close>

record ('h, 'v, 'f, 'o) handler_ops =
  op_Enabled :: "'h \<Rightarrow> slog_level \<Rightarrow> bool"
  op_Handle :: "'h \<Rightarrow> log_ctx \<Rightarrow> ('v, 'f) slog_record \<Rightarrow> 'o"
  op_WithAttrs :: "'h \<Rightarrow> ('v, 'f) slog_attr list \<Rightarrow> 'h"
  op_WithGroup :: "'h \<Rightarrow> string \<Rightarrow> 'h"

datatype 'w log_writer = Stdout | Stderr | Writer 'w

record ('w, 'v, 'f) leaf =
  lf_json :: bool
  lf_writer :: "'w log_writer"
  lf_Level :: slog_level
  lf_groups :: "string list"
  lf_attrs :: "(string list \<times> ('v, 'f) slog_attr) list"

record ('w, 'v, 'f) line =
  ln_json :: bool
  ln_writer :: "'w log_writer"
  ln_Level :: slog_level
  ln_Message :: string
  ln_attrs :: "(string list \<times> ('v, 'f) slog_attr) list"

definition leaf_ops :: "(('w, 'v, 'f) leaf, 'v, 'f, ('w, 'v, 'f) line list) handler_ops" where
  "leaf_ops = \<lparr>op_Enabled = (\<lambda>h l. l \<ge> lf_Level h),
     op_Handle = (\<lambda>h ctx r. [\<lparr>ln_json = lf_json h, ln_writer = lf_writer h, ln_Level = r_Level r, ln_Message = r_Message r,
        ln_attrs = lf_attrs h @ map (Pair (lf_groups h)) (r_Attrs r)\<rparr>]),
     op_WithAttrs = (\<lambda>h as. h\<lparr>lf_attrs := lf_attrs h @ map (Pair (lf_groups h)) as\<rparr>),
     op_WithGroup = (\<lambda>h g. if g = '''' then h else h\<lparr>lf_groups := lf_groups h @ [g]\<rparr>)\<rparr>"

text \<open>\<open>Logger.log\<close> of \<open>log/slog\<close>: nothing below the level, else one record with the parsed arguments.\<close>

definition slog_log :: "('h, 'v, 'f, 'x list) handler_ops \<Rightarrow> 'h \<Rightarrow> log_ctx \<Rightarrow> slog_level \<Rightarrow> string \<Rightarrow> 'v arg list \<Rightarrow> 'x list" where
  "slog_log ops h ctx lvl msg args =
     (if \<not> op_Enabled ops h lvl then []
      else op_Handle ops h ctx \<lparr>r_Level = lvl, r_Message = msg, r_Attrs = args_to_attrs args\<rparr>)"

subsection \<open>streamHandler\<close>

record 'h streamHandler =
  sh_stdout :: 'h
  sh_stderr :: 'h

definition stream_handler :: "'h streamHandler \<Rightarrow> slog_level \<Rightarrow> 'h" where
  "stream_handler h level = (if level \<ge> LevelWarn then sh_stderr h else sh_stdout h)"

definition stream_ops :: "('h, 'v, 'f, 'o) handler_ops \<Rightarrow> ('h streamHandler, 'v, 'f, 'o) handler_ops" where
  "stream_ops ops = \<lparr>op_Enabled = (\<lambda>h l. op_Enabled ops (stream_handler h l) l),
     op_Handle = (\<lambda>h ctx r. op_Handle ops (stream_handler h (r_Level r)) ctx r),
     op_WithAttrs = (\<lambda>h as. \<lparr>sh_stdout = op_WithAttrs ops (sh_stdout h) as, sh_stderr = op_WithAttrs ops (sh_stderr h) as\<rparr>),
     op_WithGroup = (\<lambda>h g. \<lparr>sh_stdout = op_WithGroup ops (sh_stdout h) g, sh_stderr = op_WithGroup ops (sh_stderr h) g\<rparr>)\<rparr>"

subsection \<open>traceHandler\<close>

record 'h traceHandler =
  th_next :: 'h
  hasTraceID :: bool
  hasSpanID :: bool

definition recordHasKey :: "('v, 'f) slog_record \<Rightarrow> string \<Rightarrow> bool" where
  "recordHasKey r key = list_ex (\<lambda>a. fst a = key) (r_Attrs r)"

definition AddAttrs :: "('v, 'f) slog_attr list \<Rightarrow> ('v, 'f) slog_record \<Rightarrow> ('v, 'f) slog_record" where
  "AddAttrs as r = r\<lparr>r_Attrs := r_Attrs r @ as\<rparr>"

definition trace_Handle :: "('h, 'v, 'f, 'o) handler_ops \<Rightarrow> 'h traceHandler \<Rightarrow> log_ctx \<Rightarrow> ('v, 'f) slog_record \<Rightarrow> 'o" where
  "trace_Handle ops h ctx r =
     op_Handle ops (th_next h) ctx
       (case ctx of
          Some sc \<Rightarrow>
            if sc_IsValid sc then
              (let r1 = (if \<not> hasTraceID h \<and> \<not> recordHasKey r ''trace_id'' then AddAttrs [(''trace_id'', SString (sc_TraceID sc))] r else r)
               in if \<not> hasSpanID h \<and> \<not> recordHasKey r1 ''span_id'' then AddAttrs [(''span_id'', SString (sc_SpanID sc))] r1 else r1)
            else r
        | None \<Rightarrow> r)"

text \<open>The loop over the attributes, which sets the flags.\<close>

fun note_attr :: "'h traceHandler \<Rightarrow> ('v, 'f) slog_attr \<Rightarrow> 'h traceHandler" where
  "note_attr h (k, v) =
     (if k = ''trace_id'' then h\<lparr>hasTraceID := True\<rparr> else if k = ''span_id'' then h\<lparr>hasSpanID := True\<rparr> else h)"

definition trace_ops :: "('h, 'v, 'f, 'o) handler_ops \<Rightarrow> ('h traceHandler, 'v, 'f, 'o) handler_ops" where
  "trace_ops ops = \<lparr>op_Enabled = (\<lambda>h l. op_Enabled ops (th_next h) l),
     op_Handle = trace_Handle ops,
     op_WithAttrs = (\<lambda>h as. foldl note_attr (h\<lparr>th_next := op_WithAttrs ops (th_next h) as\<rparr>) as),
     op_WithGroup = (\<lambda>h g. \<lparr>th_next = op_WithGroup ops (th_next h) g, hasTraceID = hasTraceID h, hasSpanID = hasSpanID h\<rparr>)\<rparr>"

subsection \<open>normalizeArgs\<close>

text \<open>The index loop over a copy of the arguments.\<close>

function norm_loop :: "(string \<Rightarrow> string) \<Rightarrow> 'v arg list \<Rightarrow> nat \<Rightarrow> 'v arg list" where
  "norm_loop uni out i =
     (if i < length out then
        (case out ! i of
           ArgAttr k v \<Rightarrow> norm_loop uni (out[i := ArgAttr (NormalizeKey uni k) v]) (i + 1)
         | ArgStr s \<Rightarrow> norm_loop uni (out[i := ArgStr (NormalizeKey uni s)]) (i + 2)
         | ArgOther v \<Rightarrow> norm_loop uni out (i + 1))
      else out)"
  by pat_completeness auto
termination
  by (relation "measure (\<lambda>(uni, out, i). length out - i)") auto

declare norm_loop.simps [simp del]

definition normalizeArgs :: "(string \<Rightarrow> string) \<Rightarrow> 'v arg list \<Rightarrow> 'v arg list" where
  "normalizeArgs uni args = norm_loop uni args 0"

subsection \<open>Configuration\<close>

definition FormatText :: string where "FormatText = ''text''"
definition FormatJSON :: string where "FormatJSON = ''json''"

definition defaultLogFormat :: string where "defaultLogFormat = FormatText"
definition defaultLogLevel :: string where "defaultLogLevel = ''debug''"

definition ErrInvalidLogFormat :: gerr where
  "ErrInvalidLogFormat = sentinel_error ''logs.ErrInvalidLogFormat'' ''logs: format must be \"text\" or \"json\"''"

definition ErrInvalidLogLevel :: gerr where
  "ErrInvalidLogLevel = sentinel_error ''logs.ErrInvalidLogLevel'' ''logs: level must be \"debug\", \"info\", \"warn\", or \"error\"''"

record ('w, 'f) log_config =
  lc_Format :: string
  lc_Level :: string
  lc_GlobalKV :: "'f gomap"
  lc_Writer :: "'w option"
  lc_ErrorWriter :: "'w option"

definition lg_SetDefaults :: "('w, 'f) log_config \<Rightarrow> ('w, 'f) log_config" where
  "lg_SetDefaults c =
     (let c1 = (if lc_Format c = '''' then c\<lparr>lc_Format := defaultLogFormat\<rparr> else c)
      in if lc_Level c1 = '''' then c1\<lparr>lc_Level := defaultLogLevel\<rparr> else c1)"

definition lg_Validate :: "('w, 'f) log_config \<Rightarrow> error" where
  "lg_Validate c =
     errors_Join
       ((if lc_Format c \<noteq> FormatText \<and> lc_Format c \<noteq> FormatJSON then [ErrInvalidLogFormat] else [])
        @ (if lc_Level c \<noteq> '''' \<and> lc_Level c \<noteq> ''debug'' \<and> lc_Level c \<noteq> ''info'' \<and> lc_Level c \<noteq> ''warn'' \<and> lc_Level c \<noteq> ''error''
           then [ErrInvalidLogLevel] else []))"

text \<open>\<open>Level.UnmarshalText\<close> of \<open>log/slog\<close>: a name in any case, and an offset after it.\<close>

definition slog_parse_level :: "(string \<Rightarrow> string) \<Rightarrow> string \<Rightarrow> slog_level option" where
  "slog_parse_level uni s =
     (let name = takeWhile (\<lambda>c. c \<noteq> CHR ''+'' \<and> c \<noteq> CHR ''-'') s;
          rest = dropWhile (\<lambda>c. c \<noteq> CHR ''+'' \<and> c \<noteq> CHR ''-'') s;
          (offset, ok) = (if rest = [] then (0, True) else atoi rest);
          up = to_upper uni name
      in if \<not> ok then None
         else if up = ''DEBUG'' then Some (LevelDebug + offset)
         else if up = ''INFO'' then Some (LevelInfo + offset)
         else if up = ''WARN'' then Some (LevelWarn + offset)
         else if up = ''ERROR'' then Some (LevelError + offset)
         else None)"

definition parseLevel :: "(string \<Rightarrow> string) \<Rightarrow> string \<Rightarrow> gerr + slog_level" where
  "parseLevel uni value =
     (case slog_parse_level uni value of
        None \<Rightarrow> Inl (errorf (''logs: unsupported level '' @ quote_text value) [])
      | Some l \<Rightarrow> Inr l)"

definition logAttrs :: "(string \<Rightarrow> string) \<Rightarrow> 'f gomap \<Rightarrow> info \<Rightarrow> ('v, 'f) slog_attr list" where
  "logAttrs uni kv i = map (\<lambda>(k, v). (k, SAttribute v)) (ConvertMapsToKVs uni [kv, ConvertAppInfoToMap i])"

definition newHandler :: "string \<Rightarrow> 'w log_writer \<Rightarrow> slog_level \<Rightarrow> ('w, 'v, 'f) leaf" where
  "newHandler format w level = \<lparr>lf_json = (format = FormatJSON), lf_writer = w, lf_Level = level, lf_groups = [], lf_attrs = []\<rparr>"

type_synonym ('w, 'v, 'f) stream_logger = "('w, 'v, 'f) leaf streamHandler traceHandler"

definition lg_New :: "(string \<Rightarrow> string) \<Rightarrow> (string \<Rightarrow> string) \<Rightarrow> info \<Rightarrow> ('w, 'f) log_config \<Rightarrow> gerr + ('w, 'v, 'f) stream_logger" where
  "lg_New lower upper i cfg0 =
     (case ValidateAppInfo i of
        Some e \<Rightarrow> Inl (errorf (''logs: '' @ error_string e) [e])
      | None \<Rightarrow>
          let cfg = lg_SetDefaults cfg0 in
          case lg_Validate cfg of
            Some e \<Rightarrow> Inl e
          | None \<Rightarrow>
              (case parseLevel upper (lc_Level cfg) of
                 Inl e \<Rightarrow> Inl e
               | Inr level \<Rightarrow>
                   let attrs = logAttrs lower (lc_GlobalKV cfg) i;
                       output = (case lc_Writer cfg of None \<Rightarrow> Stdout | Some w \<Rightarrow> Writer w);
                       errorOutput = (case lc_ErrorWriter cfg of None \<Rightarrow> Stderr | Some w \<Rightarrow> Writer w);
                       handler = \<lparr>th_next = \<lparr>sh_stdout = newHandler (lc_Format cfg) output level,
                                              sh_stderr = newHandler (lc_Format cfg) errorOutput level\<rparr>,
                                  hasTraceID = False, hasSpanID = False\<rparr>
                   in Inr (if attrs \<noteq> [] then op_WithAttrs (trace_ops (stream_ops leaf_ops)) handler attrs else handler)))"

subsection \<open>Loggers\<close>

text \<open>
  A logger is one built by \<open>New\<close>, the default text logger, or one of the caller's, which only has to say what
  it does with a call.
\<close>

datatype ('w, 'v, 'f) logger =
    StreamLogger "('w, 'v, 'f) stream_logger"
  | TextLogger "('w, 'v, 'f) leaf traceHandler"
  | UserLogger "log_ctx \<Rightarrow> slog_level \<Rightarrow> string \<Rightarrow> 'v arg list \<Rightarrow> ('w, 'v, 'f) line list"

fun log_at :: "slog_level \<Rightarrow> (string \<Rightarrow> string) \<Rightarrow> ('w, 'v, 'f) logger \<Rightarrow> log_ctx \<Rightarrow> string \<Rightarrow> 'v arg list \<Rightarrow> ('w, 'v, 'f) line list" where
  "log_at lvl uni (StreamLogger l) ctx msg args = slog_log (trace_ops (stream_ops leaf_ops)) l ctx lvl msg (normalizeArgs uni args)"
| "log_at lvl uni (TextLogger l) ctx msg args = slog_log (trace_ops leaf_ops) l ctx lvl msg (normalizeArgs uni args)"
| "log_at lvl uni (UserLogger f) ctx msg args = f ctx lvl msg args"

definition lg_Debug :: "(string \<Rightarrow> string) \<Rightarrow> ('w, 'v, 'f) logger \<Rightarrow> log_ctx \<Rightarrow> string \<Rightarrow> 'v arg list \<Rightarrow> ('w, 'v, 'f) line list" where
  "lg_Debug = log_at LevelDebug"

definition lg_Info :: "(string \<Rightarrow> string) \<Rightarrow> ('w, 'v, 'f) logger \<Rightarrow> log_ctx \<Rightarrow> string \<Rightarrow> 'v arg list \<Rightarrow> ('w, 'v, 'f) line list" where
  "lg_Info = log_at LevelInfo"

definition lg_Warn :: "(string \<Rightarrow> string) \<Rightarrow> ('w, 'v, 'f) logger \<Rightarrow> log_ctx \<Rightarrow> string \<Rightarrow> 'v arg list \<Rightarrow> ('w, 'v, 'f) line list" where
  "lg_Warn = log_at LevelWarn"

definition lg_Error :: "(string \<Rightarrow> string) \<Rightarrow> ('w, 'v, 'f) logger \<Rightarrow> log_ctx \<Rightarrow> string \<Rightarrow> 'v arg list \<Rightarrow> ('w, 'v, 'f) line list" where
  "lg_Error = log_at LevelError"

definition newDefaultLogger :: "'w log_writer \<Rightarrow> ('w, 'v, 'f) logger" where
  "newDefaultLogger w = TextLogger \<lparr>th_next = newHandler FormatText w LevelDebug, hasTraceID = False, hasSpanID = False\<rparr>"

text \<open>The pointer \<open>defaultLogger\<close> after \<open>SetDefault\<close>; a nil logger restores the default one.\<close>

definition lg_SetDefault :: "('w, 'v, 'f) logger option \<Rightarrow> ('w, 'v, 'f) logger" where
  "lg_SetDefault l = (case l of None \<Rightarrow> newDefaultLogger Stderr | Some l \<Rightarrow> l)"

subsection \<open>The handler contract\<close>

text \<open>
  What a \<open>slog.Handler\<close> promises: deriving a handler changes neither which levels are enabled nor anything but the
  attributes that precede those of a record.
\<close>

locale slog_handler =
  fixes ops :: "('h, 'v, 'f, 'o) handler_ops"
  assumes enabled_attrs: "op_Enabled ops (op_WithAttrs ops h as) l = op_Enabled ops h l"
    and enabled_group: "op_Enabled ops (op_WithGroup ops h g) l = op_Enabled ops h l"
    and handle_attrs: "op_Handle ops (op_WithAttrs ops h as) ctx r = op_Handle ops h ctx (r\<lparr>r_Attrs := as @ r_Attrs r\<rparr>)"
begin

text \<open>Derivations add up: a handler derived several times prefixes all the attributes, in order.\<close>

lemma handle_derived: "op_Handle ops (foldl (op_WithAttrs ops) h ass) ctx r = op_Handle ops h ctx (r\<lparr>r_Attrs := concat ass @ r_Attrs r\<rparr>)"
  by (induction ass arbitrary: r rule: rev_induct) (simp_all add: handle_attrs)

lemma enabled_derived: "op_Enabled ops (foldl (op_WithAttrs ops) h ass) l = op_Enabled ops h l"
  by (induction ass rule: rev_induct) (simp_all add: enabled_attrs)

text \<open>The two handlers of the package keep the contract of the handler they wrap.\<close>

lemma stream_contract: "slog_handler (stream_ops ops)"
  by unfold_locales (simp_all add: stream_ops_def stream_handler_def enabled_attrs enabled_group handle_attrs)

lemma note_attrs:
  "hasTraceID (foldl note_attr h as) = (hasTraceID h \<or> list_ex (\<lambda>a. fst a = ''trace_id'') as)"
  "hasSpanID (foldl note_attr h as) = (hasSpanID h \<or> list_ex (\<lambda>a. fst a = ''span_id'') as)"
  "th_next (foldl note_attr h as) = th_next h"
  by (induction as arbitrary: h) (auto split: if_splits)

lemma trace_contract: "slog_handler (trace_ops ops)"
proof unfold_locales
  fix h :: "'h traceHandler" and as l g ctx r
  show "op_Enabled (trace_ops ops) (op_WithAttrs (trace_ops ops) h as) l = op_Enabled (trace_ops ops) h l"
    by (simp add: trace_ops_def note_attrs enabled_attrs)
  show "op_Enabled (trace_ops ops) (op_WithGroup (trace_ops ops) h g) l = op_Enabled (trace_ops ops) h l"
    by (simp add: trace_ops_def enabled_group)
  show "op_Handle (trace_ops ops) (op_WithAttrs (trace_ops ops) h as) ctx r
      = op_Handle (trace_ops ops) h ctx (r\<lparr>r_Attrs := as @ r_Attrs r\<rparr>)"
    by (auto simp: trace_ops_def trace_Handle_def note_attrs handle_attrs recordHasKey_def AddAttrs_def Let_def split: option.split)
qed

end

interpretation leaf: slog_handler leaf_ops
  by unfold_locales (simp_all add: leaf_ops_def)

interpretation leaf_stream: slog_handler "stream_ops leaf_ops"
  by (rule leaf.stream_contract)

interpretation stream_trace: slog_handler "trace_ops (stream_ops leaf_ops)"
  by (rule leaf_stream.trace_contract)

interpretation text_trace: slog_handler "trace_ops leaf_ops"
  by (rule leaf.trace_contract)

subsection \<open>Arguments of a log call\<close>

text \<open>\<open>normalizeArgs\<close> without indices.\<close>

fun norm_args :: "(string \<Rightarrow> string) \<Rightarrow> 'v arg list \<Rightarrow> 'v arg list" where
  "norm_args uni [] = []"
| "norm_args uni (ArgAttr k v # as) = ArgAttr (NormalizeKey uni k) v # norm_args uni as"
| "norm_args uni [ArgStr s] = [ArgStr (NormalizeKey uni s)]"
| "norm_args uni (ArgStr s # a # as) = ArgStr (NormalizeKey uni s) # a # norm_args uni as"
| "norm_args uni (ArgOther v # as) = ArgOther v # norm_args uni as"

lemma norm_loop_stop: "length out \<le> i \<Longrightarrow> norm_loop uni out i = out"
  by (simp add: norm_loop.simps)

lemma norm_loop_prefix: "norm_loop uni (pre @ args) (length pre) = pre @ norm_args uni args"
proof (induction uni args arbitrary: pre rule: norm_args.induct)
  case (1 uni)
  then show ?case by (simp add: norm_loop_stop)
next
  case (2 uni k v as)
  from this [of "pre @ [ArgAttr (NormalizeKey uni k) v]"] show ?case by (subst norm_loop.simps) simp
next
  case (3 uni s)
  then show ?case by (subst norm_loop.simps) (simp add: norm_loop_stop)
next
  case (4 uni s a as)
  from this [of "pre @ [ArgStr (NormalizeKey uni s), a]"] show ?case by (subst norm_loop.simps) simp
next
  case (5 uni v as)
  from this [of "pre @ [ArgOther v]"] show ?case by (subst norm_loop.simps) simp
qed

lemma normalizeArgs_norm_args: "normalizeArgs uni args = norm_args uni args"
  using norm_loop_prefix [of uni "[]" args] by (simp add: normalizeArgs_def)

text \<open>A well-formed call: attributes, and string keys each with a value.\<close>

fun paired_args :: "'v arg list \<Rightarrow> bool" where
  "paired_args [] = True"
| "paired_args (ArgAttr k v # as) = paired_args as"
| "paired_args [ArgStr s] = False"
| "paired_args (ArgStr s # a # as) = paired_args as"
| "paired_args (ArgOther v # as) = False"

text \<open>
  On a well-formed log call, normalising the arguments before \<open>log/slog\<close> parses them is the same as normalising the
  keys of the attributes it parses: every key is normalised once, no value changes (string values
  included), and the number and order of arguments stay.
\<close>

theorem normalizeArgs_keys_only:
  assumes "paired_args args"
  shows "(args_to_attrs (normalizeArgs uni args) :: ('v, 'f) slog_attr list) = map (\<lambda>(k, v). (NormalizeKey uni k, v)) (args_to_attrs args)
    \<and> length (normalizeArgs uni args) = length args"
  unfolding normalizeArgs_norm_args using assms by (induction uni args rule: norm_args.induct) auto

theorem normalizeArgs_keys_only_witness:
  "(args_to_attrs (normalizeArgs id [ArgStr ''Order_ID'', ArgStr ''Eu_West'', ArgAttr ''user_name'' (7 :: nat)]) :: (nat, nat) slog_attr list)
     = [(''order.id'', SString ''Eu_West''), (''user.name'', SValue 7)]"
proof -
  have "paired_args [ArgStr ''Order_ID'', ArgStr ''Eu_West'', ArgAttr ''user_name'' (7 :: nat)]" by simp
  from normalizeArgs_keys_only [OF this, of id, where 'f = nat] show ?thesis
    by simp code_simp
qed

text \<open>A last string without a value is no key for \<open>log/slog\<close> but the value of \<open>!BADKEY\<close>, and is rewritten all the same.\<close>

theorem lone_string_rewritten:
  "paired_args args \<Longrightarrow> args_to_attrs (normalizeArgs uni (args @ [ArgStr s]))
     = args_to_attrs (normalizeArgs uni args) @ [(''!BADKEY'', SString (NormalizeKey uni s))]"
  unfolding normalizeArgs_norm_args by (induction uni args rule: norm_args.induct) auto

subsection \<open>The line of a log call\<close>

text \<open>The minimum level a valid configuration names, and the correlation attributes a context adds.\<close>

definition min_level :: "string \<Rightarrow> slog_level" where
  "min_level s = (if s = ''info'' then LevelInfo else if s = ''warn'' then LevelWarn else if s = ''error'' then LevelError else LevelDebug)"

definition trace_attrs :: "log_ctx \<Rightarrow> string set \<Rightarrow> ('v, 'f) slog_attr list" where
  "trace_attrs ctx present =
     (case ctx of
        Some sc \<Rightarrow>
          if sc_IsValid sc then
            (if ''trace_id'' \<in> present then [] else [(''trace_id'', SString (sc_TraceID sc))])
            @ (if ''span_id'' \<in> present then [] else [(''span_id'', SString (sc_SpanID sc))])
          else []
      | None \<Rightarrow> [])"

lemma parse_level_valid:
  assumes "l \<in> {''debug'', ''info'', ''warn'', ''error''}"
  shows "parseLevel upper l = Inr (min_level l)"
proof -
  have "map ascii_upper ''debug'' = ''DEBUG''" "map ascii_upper ''info'' = ''INFO''" "map ascii_upper ''warn'' = ''WARN''"
    "map ascii_upper ''error'' = ''ERROR''" by code_simp+
  moreover have "\<not> (\<exists>c \<in> set l. high_byte c)" using assms by (auto simp: high_byte_def)
  moreover have "takeWhile (\<lambda>c. c \<noteq> CHR ''+'' \<and> c \<noteq> CHR ''-'') l = l" "dropWhile (\<lambda>c. c \<noteq> CHR ''+'' \<and> c \<noteq> CHR ''-'') l = []"
    using assms by auto
  ultimately show ?thesis
    using assms unfolding parseLevel_def slog_parse_level_def to_upper_def Let_def min_level_def by (elim insertE emptyE) simp_all
qed

lemma lg_defaults: "lc_Level (lg_SetDefaults c) \<noteq> ''''" "lc_Format (lg_SetDefaults c) \<noteq> ''''"
  "lc_GlobalKV (lg_SetDefaults c) = lc_GlobalKV c" "lc_Writer (lg_SetDefaults c) = lc_Writer c"
  "lc_ErrorWriter (lg_SetDefaults c) = lc_ErrorWriter c"
  by (auto simp: lg_SetDefaults_def Let_def defaultLogFormat_def defaultLogLevel_def FormatText_def)

lemma lg_Validate_defaults:
  "lg_Validate (lg_SetDefaults c) = nil \<longleftrightarrow>
     lc_Format c \<in> {'''', FormatText, FormatJSON} \<and> lc_Level c \<in> {'''', ''debug'', ''info'', ''warn'', ''error''}"
  by (auto simp: lg_Validate_def lg_SetDefaults_def Let_def defaultLogFormat_def defaultLogLevel_def FormatText_def FormatJSON_def)

lemma lg_valid_level: "lg_Validate (lg_SetDefaults c) = nil \<Longrightarrow> lc_Level (lg_SetDefaults c) \<in> {''debug'', ''info'', ''warn'', ''error''}"
  using lg_defaults(1) [of c] by (auto simp: lg_Validate_def split: if_splits)

lemma lg_New_iff_ok:
  "(\<exists>l. lg_New lower upper i cfg = (Inr l :: gerr + ('w, 'v, 'f) stream_logger)) \<longleftrightarrow>
     trim_space (Name i) \<noteq> '''' \<and> lc_Format cfg \<in> {'''', FormatText, FormatJSON}
     \<and> lc_Level cfg \<in> {'''', ''debug'', ''info'', ''warn'', ''error''}"
proof (cases "lg_Validate (lg_SetDefaults cfg)")
  case None
  then have "parseLevel upper (lc_Level (lg_SetDefaults cfg)) = Inr (min_level (lc_Level (lg_SetDefaults cfg)))"
    by (intro parse_level_valid lg_valid_level)
  with None lg_Validate_defaults [of cfg] show ?thesis
    by (simp add: lg_New_def ValidateAppInfo_def Validate_def Let_def del: insert_iff)
next
  case (Some e)
  with lg_Validate_defaults [of cfg] show ?thesis
    by (simp add: lg_New_def ValidateAppInfo_def Validate_def Let_def del: insert_iff)
qed

text \<open>
  \<open>New\<close> builds a logger exactly when the identity has a service name and the format and the level are empty or among
  the documented values; a level that passes validation never fails to parse.
\<close>

theorem lg_New_iff:
  "(\<exists>l. lg_New lower upper i cfg = (Inr l :: gerr + ('w, 'v, 'f) stream_logger)) \<longleftrightarrow>
     trim_space (Name i) \<noteq> '''' \<and> lc_Format cfg \<in> {'''', FormatText, FormatJSON}
     \<and> lc_Level cfg \<in> {'''', ''debug'', ''info'', ''warn'', ''error''}"
  by (rule lg_New_iff_ok)

lemma trace_Handle_attrs:
  "trace_Handle ops \<lparr>th_next = h, hasTraceID = False, hasSpanID = False\<rparr> ctx r =
     op_Handle ops h ctx (r\<lparr>r_Attrs := r_Attrs r @ trace_attrs ctx (set (map fst (r_Attrs r)))\<rparr>)"
  by (auto simp: trace_Handle_def trace_attrs_def recordHasKey_def AddAttrs_def Let_def list_ex_iff image_iff split: option.split)

lemma lg_New_logger:
  assumes "lg_New lower upper i cfg = Inr l"
  shows "l = op_WithAttrs (trace_ops (stream_ops leaf_ops))
     \<lparr>th_next = \<lparr>sh_stdout = newHandler (lc_Format (lg_SetDefaults cfg)) (case lc_Writer cfg of None \<Rightarrow> Stdout | Some w \<Rightarrow> Writer w)
                     (min_level (lc_Level (lg_SetDefaults cfg))),
                  sh_stderr = newHandler (lc_Format (lg_SetDefaults cfg)) (case lc_ErrorWriter cfg of None \<Rightarrow> Stderr | Some w \<Rightarrow> Writer w)
                     (min_level (lc_Level (lg_SetDefaults cfg)))\<rparr>,
       hasTraceID = False, hasSpanID = False\<rparr> (logAttrs lower (lc_GlobalKV cfg) i)"
proof -
  from assms have v: "lg_Validate (lg_SetDefaults cfg) = nil"
    by (auto simp: lg_New_def Let_def split: option.splits sum.splits)
  then have "parseLevel upper (lc_Level (lg_SetDefaults cfg)) = Inr (min_level (lc_Level (lg_SetDefaults cfg)))"
    by (intro parse_level_valid lg_valid_level)
  with assms v show ?thesis
    by (auto simp: lg_New_def Let_def lg_defaults trace_ops_def stream_ops_def leaf_ops_def newHandler_def split: option.splits)
qed


definition demo_log_config :: "(nat, nat) log_config" where
  "demo_log_config = \<lparr>lc_Format = '''', lc_Level = ''warn'', lc_GlobalKV = [], lc_Writer = None, lc_ErrorWriter = None\<rparr>"


end
