(* ===== verification/Obs_Contracts.thy ===== *)
theory Obs_Contracts
  imports Obs_Attributes
begin

text \<open>
  What the metrics client and the tracer client of \<open>observability\<close> share: the contract of \<open>Stop\<close>, the contract of
  the \<open>Default\<close> client that follows the global provider, and the options of an OTLP exporter. Each contract is a
  locale, interpreted on the operations of both packages.
\<close>

subsection \<open>Stop\<close>

text \<open>
  \<open>stop r s\<close> stops the client in state \<open>s\<close> when a shutdown, if it is run, returns \<open>r\<close>; the result is the new state, the
  error returned and the number of shutdowns run.
\<close>

fun stop_all :: "(error \<Rightarrow> 's \<Rightarrow> 's \<times> error \<times> nat) \<Rightarrow> error list \<Rightarrow> 's \<Rightarrow> 's \<times> error list \<times> nat" where
  "stop_all stop [] s = (s, [], 0)"
| "stop_all stop (r # rs) s =
     (case stop r s of (s1, e, n) \<Rightarrow> case stop_all stop rs s1 of (s2, es, m) \<Rightarrow> (s2, e # es, n + m))"

locale stop_once =
  fixes stop :: "error \<Rightarrow> 's \<Rightarrow> 's \<times> error \<times> nat"
  assumes stop_runs: "snd (snd (stop r s)) \<le> 1"
    and stop_repeats: "stop r' (fst (stop r s)) = (fst (stop r s), fst (snd (stop r s)), 0)"
begin

lemma stop_all_repeats:
  "fst (stop_all stop rs (fst (stop r s))) = fst (stop r s)
   \<and> fst (snd (stop_all stop rs (fst (stop r s)))) = replicate (length rs) (fst (snd (stop r s)))
   \<and> snd (snd (stop_all stop rs (fst (stop r s)))) = 0"
  by (induction rs) (auto simp: stop_repeats split: prod.splits)

text \<open>However often a client is stopped, it shuts down at most once and every call returns the same error.\<close>

lemma stop_all_once:
  "snd (snd (stop_all stop rs s)) \<le> 1 \<and> (\<exists>e. set (fst (snd (stop_all stop rs s))) \<subseteq> {e}) \<and> length (fst (snd (stop_all stop rs s))) = length rs"
proof (cases rs)
  case (Cons r rs')
  with stop_all_repeats [of rs' r s] stop_runs [of r s] show ?thesis
    by (auto split: prod.splits)
qed simp

end

subsection \<open>Default\<close>

text \<open>
  A client is a reference to the object that \<open>Wrap\<close> allocated for a provider; the state of \<open>Default\<close> is the cached
  pair and the next reference. \<open>comparable\<close> is what \<open>reflect\<close> says of the type of the provider.
\<close>

record 'p client_ref =
  cr_id :: nat
  cr_provider :: 'p

record 'p default_state =
  ds_cached :: "('p \<times> 'p client_ref) option"
  ds_fresh :: nat

definition wrap_client :: "'p \<Rightarrow> 'p default_state \<Rightarrow> 'p client_ref \<times> 'p default_state" where
  "wrap_client p s = (\<lparr>cr_id = ds_fresh s, cr_provider = p\<rparr>, s\<lparr>ds_fresh := ds_fresh s + 1\<rparr>)"

fun default_calls :: "('p \<Rightarrow> 'p default_state \<Rightarrow> 'p client_ref \<times> 'p default_state) \<Rightarrow> 'p list \<Rightarrow> 'p default_state \<Rightarrow> 'p client_ref list" where
  "default_calls f [] s = []"
| "default_calls f (p # ps) s = (case f p s of (c, s') \<Rightarrow> c # default_calls f ps s')"

definition cache_ok :: "'p default_state \<Rightarrow> bool" where
  "cache_ok s \<longleftrightarrow> (\<forall>p c. ds_cached s = Some (p, c) \<longrightarrow> cr_provider c = p)"

locale default_client =
  fixes Default :: "bool \<Rightarrow> 'p \<Rightarrow> 'p default_state \<Rightarrow> 'p client_ref \<times> 'p default_state"
  assumes default_provider: "cache_ok s \<Longrightarrow> cr_provider (fst (Default b p s)) = p \<and> cache_ok (snd (Default b p s))"
    and default_cached: "ds_cached s = Some (p, c) \<Longrightarrow> Default True p s = (c, s)"
    and default_caches: "ds_cached (snd (Default True p s)) = Some (p, fst (Default True p s))"
begin

text \<open>Every call returns a client of the provider that is installed at the time.\<close>

lemma calls_follow_provider: "cache_ok s \<Longrightarrow> map cr_provider (default_calls (Default b) ps s) = ps"
  using default_provider by (induction ps arbitrary: s) (auto split: prod.split, (metis fst_conv snd_conv)+)

text \<open>While a comparable provider stays installed, every call returns the same client.\<close>

lemma calls_same_client: "default_calls (Default True) (replicate (Suc n) p) s = replicate (Suc n) (fst (Default True p s))"
proof -
  have "ds_cached s' = Some (p, c) \<Longrightarrow> default_calls (Default True) (replicate n p) s' = replicate n c" for s' c
    by (induction n) (simp_all add: default_cached)
  with default_caches [of p s] show ?thesis by (cases "Default True p s") simp
qed

end

subsection \<open>Exporters\<close>

datatype otlp_option = WithEndpoint string | WithTimeout duration | WithInsecure | WithHeaders "(string \<times> string) list"

text \<open>What building a client does to the exporter.\<close>

datatype exporter_effect = ExporterCreated "otlp_option list" | ExporterShutdown

end
