(* ===== verification/Obs_Metrics.thy ===== *)
theory Obs_Metrics
  imports Obs_Contracts
begin

text \<open>
  Package \<open>observability/metrics\<close>: instruments, the client with its instrument cache, \<open>Stop\<close>, the configuration and
  the construction over an OTLP exporter. The OpenTelemetry SDK is a parameter: what its meter returns when an instrument is
  created (\<open>'i\<close> stands for an instrument), what building an exporter and a resource returns, and what a shutdown
  returns. A measurement that reaches an instrument is an event. The interleavings of measurements
  with each other and with \<open>Stop\<close> are a step relation at the end.
\<close>

subsection \<open>Instruments\<close>

record instrument =
  in_Name :: string
  in_Unit :: string
  in_Description :: string

datatype instrumentKind = kindCounter | kindHistogram | kindUpDown | kindGauge

fun kind_text :: "instrumentKind \<Rightarrow> string" where
  "kind_text kindCounter = ''counter''"
| "kind_text kindHistogram = ''histogram''"
| "kind_text kindUpDown = ''updowncounter''"
| "kind_text kindGauge = ''gauge''"

record 'i instrumentEntry =
  ie_kind :: instrumentKind
  ie_unit :: string
  ie_description :: string
  ie_instrument :: 'i

definition ErrStopped :: gerr where
  "ErrStopped = sentinel_error ''metrics.ErrStopped'' ''metrics: client is stopped''"

definition ErrInvalidMetricName :: gerr where
  "ErrInvalidMetricName = sentinel_error ''metrics.ErrInvalidMetricName'' ''metrics: invalid metric name''"

definition ErrInstrumentConflict :: gerr where
  "ErrInstrumentConflict = sentinel_error ''metrics.ErrInstrumentConflict'' ''metrics: instrument conflict''"

text \<open>The pattern \<open>^[a-z][a-z0-9_.-]{0,254}$\<close>.\<close>

definition metric_name_byte :: "char \<Rightarrow> bool" where
  "metric_name_byte c \<longleftrightarrow> byte_between CHR ''a'' CHR ''z'' c \<or> byte_between CHR ''0'' CHR ''9'' c
     \<or> c = CHR ''_'' \<or> c = CHR ''.'' \<or> c = CHR ''-''"

fun metricNamePattern :: "string \<Rightarrow> bool" where
  "metricNamePattern [] = False"
| "metricNamePattern (c # cs) = (byte_between CHR ''a'' CHR ''z'' c \<and> list_all metric_name_byte cs \<and> length cs \<le> 254)"

definition validateInstrument :: "instrument \<Rightarrow> gerr + string" where
  "validateInstrument inst =
     (if \<not> metricNamePattern (in_Name inst)
      then Inl (errorf (error_string ErrInvalidMetricName @ '': '' @ quote_text (in_Name inst)) [ErrInvalidMetricName])
      else Inr (in_Name inst))"

definition entry_matches :: "'i instrumentEntry \<Rightarrow> instrumentKind \<Rightarrow> instrument \<Rightarrow> error" where
  "entry_matches e kind inst =
     (if ie_kind e = kind \<and> ie_unit e = in_Unit inst \<and> ie_description e = in_Description inst then nil
      else Some (errorf (error_string ErrInstrumentConflict @ '': '' @ quote_text (in_Name inst) @ '' is already registered as '' @ kind_text (ie_kind e)
        @ '' (unit='' @ quote_text (ie_unit e) @ '', description='' @ quote_text (ie_description e) @ '')'') [ErrInstrumentConflict]))"

subsection \<open>The client\<close>

text \<open>\<open>shutdown\<close> is set when the client owns its provider.\<close>

record ('p, 'i) otelMetrics =
  om_provider :: 'p
  om_scope :: string
  om_instruments :: "string \<rightharpoonup> 'i instrumentEntry"
  om_shutdown :: bool
  om_stopped :: bool
  om_stopErr :: error

type_synonym 'i meter = "instrumentKind \<Rightarrow> instrument \<Rightarrow> gerr + 'i"

text \<open>
  \<open>instrument\<close> in its three parts, since other goroutines run between them: the check of the name and the first look
  into the cache, the creation, and \<open>LoadOrStore\<close>.
\<close>

definition load_instrument :: "instrumentKind \<Rightarrow> instrument \<Rightarrow> (string \<rightharpoonup> 'i instrumentEntry) \<Rightarrow> gerr + 'i instrumentEntry option" where
  "load_instrument kind inst m =
     (case validateInstrument inst of
        Inl e \<Rightarrow> Inl e
      | Inr name \<Rightarrow>
          (case m name of
             Some entry \<Rightarrow> (case entry_matches entry kind inst of Some e \<Rightarrow> Inl e | None \<Rightarrow> Inr (Some entry))
           | None \<Rightarrow> Inr None))"

definition create_instrument :: "instrumentKind \<Rightarrow> instrument \<Rightarrow> gerr + 'i \<Rightarrow> gerr + 'i instrumentEntry" where
  "create_instrument kind inst created =
     (case created of
        Inl e \<Rightarrow> Inl (errorf (''metrics: create '' @ kind_text kind @ '' '' @ quote_text (in_Name inst) @ '': '' @ error_string e) [e])
      | Inr x \<Rightarrow> Inr \<lparr>ie_kind = kind, ie_unit = in_Unit inst, ie_description = in_Description inst, ie_instrument = x\<rparr>)"

definition store_instrument ::
  "instrumentKind \<Rightarrow> instrument \<Rightarrow> 'i instrumentEntry \<Rightarrow> (string \<rightharpoonup> 'i instrumentEntry)
   \<Rightarrow> (string \<rightharpoonup> 'i instrumentEntry) \<times> (gerr + 'i instrumentEntry)" where
  "store_instrument kind inst entry m =
     (case m (in_Name inst) of
        None \<Rightarrow> (m(in_Name inst \<mapsto> entry), Inr entry)
      | Some existing \<Rightarrow>
          (m, case entry_matches existing kind inst of Some e \<Rightarrow> Inl e | None \<Rightarrow> Inr existing))"

definition get_instrument ::
  "'i meter \<Rightarrow> instrumentKind \<Rightarrow> instrument \<Rightarrow> (string \<rightharpoonup> 'i instrumentEntry)
   \<Rightarrow> (string \<rightharpoonup> 'i instrumentEntry) \<times> (gerr + 'i instrumentEntry)" where
  "get_instrument meter kind inst m =
     (case load_instrument kind inst m of
        Inl e \<Rightarrow> (m, Inl e)
      | Inr (Some entry) \<Rightarrow> (m, Inr entry)
      | Inr None \<Rightarrow>
          (case create_instrument kind inst (meter kind inst) of
             Inl e \<Rightarrow> (m, Inl e)
           | Inr entry \<Rightarrow> store_instrument kind inst entry m))"

definition prepare :: "'i meter \<Rightarrow> instrumentKind \<Rightarrow> instrument \<Rightarrow> ('p, 'i) otelMetrics \<Rightarrow> ('p, 'i) otelMetrics \<times> (gerr + 'i instrumentEntry)" where
  "prepare meter kind inst c =
     (if om_stopped c then (c, Inl ErrStopped)
      else case get_instrument meter kind inst (om_instruments c) of (m, r) \<Rightarrow> (c\<lparr>om_instruments := m\<rparr>, r))"

datatype 'f measured = MInt "64 word" | MFloat 'f

text \<open>A measurement that reached an instrument: the entry, the value, the attributes.\<close>

datatype ('i, 'f) measurement = Measured "'i instrumentEntry" "'f measured" "'f kv list"

definition measure_with ::
  "instrumentKind \<Rightarrow> (string \<Rightarrow> string) \<Rightarrow> 'i meter \<Rightarrow> instrument \<Rightarrow> 'f measured \<Rightarrow> 'f gomap \<Rightarrow> ('p, 'i) otelMetrics
   \<Rightarrow> ('p, 'i) otelMetrics \<times> error \<times> ('i, 'f) measurement list" where
  "measure_with kind uni meter inst v attrs c =
     (case prepare meter kind inst c of
        (c', Inl e) \<Rightarrow> (c', Some e, [])
      | (c', Inr entry) \<Rightarrow> (c', nil, [Measured entry v (ConvertMapsToKVs uni [attrs])]))"

definition mx_Add ::
  "(string \<Rightarrow> string) \<Rightarrow> 'i meter \<Rightarrow> instrument \<Rightarrow> 64 word \<Rightarrow> 'f gomap \<Rightarrow> ('p, 'i) otelMetrics \<Rightarrow> ('p, 'i) otelMetrics \<times> error \<times> ('i, 'f) measurement list" where
  "mx_Add uni meter inst v attrs c = measure_with kindCounter uni meter inst (MInt v) attrs c"

definition mx_Record ::
  "(string \<Rightarrow> string) \<Rightarrow> 'i meter \<Rightarrow> instrument \<Rightarrow> 'f \<Rightarrow> 'f gomap \<Rightarrow> ('p, 'i) otelMetrics \<Rightarrow> ('p, 'i) otelMetrics \<times> error \<times> ('i, 'f) measurement list" where
  "mx_Record uni meter inst v attrs c = measure_with kindHistogram uni meter inst (MFloat v) attrs c"

definition mx_AddUpDown ::
  "(string \<Rightarrow> string) \<Rightarrow> 'i meter \<Rightarrow> instrument \<Rightarrow> 64 word \<Rightarrow> 'f gomap \<Rightarrow> ('p, 'i) otelMetrics \<Rightarrow> ('p, 'i) otelMetrics \<times> error \<times> ('i, 'f) measurement list" where
  "mx_AddUpDown uni meter inst v attrs c = measure_with kindUpDown uni meter inst (MInt v) attrs c"

definition mx_RecordGauge ::
  "(string \<Rightarrow> string) \<Rightarrow> 'i meter \<Rightarrow> instrument \<Rightarrow> 'f \<Rightarrow> 'f gomap \<Rightarrow> ('p, 'i) otelMetrics \<Rightarrow> ('p, 'i) otelMetrics \<times> error \<times> ('i, 'f) measurement list" where
  "mx_RecordGauge uni meter inst v attrs c = measure_with kindGauge uni meter inst (MFloat v) attrs c"

text \<open>\<open>Stop\<close>: \<open>r\<close> is what the shutdown of the provider returns; the last component counts the shutdowns run.\<close>

definition mx_Stop :: "error \<Rightarrow> ('p, 'i) otelMetrics \<Rightarrow> ('p, 'i) otelMetrics \<times> error \<times> nat" where
  "mx_Stop r c =
     (if \<not> om_shutdown c then (c, nil, 0)
      else if om_stopped c then (c, om_stopErr c, 0)
      else (c\<lparr>om_stopErr := r, om_stopped := True\<rparr>, r, 1))"

definition DefaultInstrumentationScope :: string where
  "DefaultInstrumentationScope = ''github.com/fikrimohammad/go-servicekit/observability/metrics''"

definition newInstrumentClient :: "'p \<Rightarrow> 'p option \<Rightarrow> string \<Rightarrow> bool \<Rightarrow> ('p, 'i) otelMetrics" where
  "newInstrumentClient noop provider scope shutdown =
     \<lparr>om_provider = (case provider of None \<Rightarrow> noop | Some p \<Rightarrow> p),
      om_scope = (if scope = '''' then DefaultInstrumentationScope else scope),
      om_instruments = Map.empty, om_shutdown = shutdown, om_stopped = False, om_stopErr = nil\<rparr>"

definition WrapWithScope :: "'p \<Rightarrow> 'p option \<Rightarrow> string \<Rightarrow> ('p, 'i) otelMetrics" where
  "WrapWithScope noop provider scope = newInstrumentClient noop provider scope False"

definition mx_Wrap :: "'p \<Rightarrow> 'p option \<Rightarrow> ('p, 'i) otelMetrics" where
  "mx_Wrap noop provider = WrapWithScope noop provider ''''"

definition mx_Default :: "bool \<Rightarrow> 'p \<Rightarrow> 'p default_state \<Rightarrow> 'p client_ref \<times> 'p default_state" where
  "mx_Default comparable p s =
     (if \<not> comparable then wrap_client p s
      else case ds_cached s of
        Some (q, c) \<Rightarrow> if q = p then (c, s) else (case wrap_client p s of (c', s') \<Rightarrow> (c', s'\<lparr>ds_cached := Some (p, c')\<rparr>))
      | None \<Rightarrow> (case wrap_client p s of (c', s') \<Rightarrow> (c', s'\<lparr>ds_cached := Some (p, c')\<rparr>)))"

subsection \<open>Configuration and construction\<close>

definition mx_defaultEndpoint :: string where "mx_defaultEndpoint = ''localhost:4317''"
definition defaultMetricsTimeout :: duration where "defaultMetricsTimeout = 10 * second"
definition defaultExportInterval :: duration where "defaultExportInterval = 10 * second"
definition defaultHistogramMaxBuckets :: int where "defaultHistogramMaxBuckets = 160"
definition defaultHistogramMaxScale :: int where "defaultHistogramMaxScale = 20"
definition maxHistogramMaxBuckets :: int where "maxHistogramMaxBuckets = 320"

record 'f mx_config =
  mx_Endpoint :: string
  mx_Timeout :: duration
  mx_ExportInterval :: duration
  mx_Scope :: string
  mx_Insecure :: bool
  mx_Headers :: "(string \<times> string) list"
  mx_GlobalKV :: "'f gomap"
  mx_HistogramMaxBuckets :: int
  mx_HistogramMaxScale :: int

definition mx_SetDefaults :: "'f mx_config \<Rightarrow> 'f mx_config" where
  "mx_SetDefaults c =
     c\<lparr>mx_Endpoint := (if mx_Endpoint c = '''' then mx_defaultEndpoint else mx_Endpoint c),
       mx_Timeout := (if mx_Timeout c = 0 then defaultMetricsTimeout else mx_Timeout c),
       mx_ExportInterval := (if mx_ExportInterval c = 0 then defaultExportInterval else mx_ExportInterval c),
       mx_Scope := (if mx_Scope c = '''' then DefaultInstrumentationScope else mx_Scope c),
       mx_HistogramMaxBuckets := (if mx_HistogramMaxBuckets c = 0 then defaultHistogramMaxBuckets else mx_HistogramMaxBuckets c),
       mx_HistogramMaxScale := (if mx_HistogramMaxScale c = 0 then defaultHistogramMaxScale else mx_HistogramMaxScale c)\<rparr>"

definition mx_Validate :: "'f mx_config \<Rightarrow> error" where
  "mx_Validate c =
     errors_Join
       ((if mx_Timeout c \<le> 0 then [errorf ''metrics: timeout must be positive'' []] else [])
        @ (if mx_ExportInterval c \<le> 0 then [errorf ''metrics: export_interval must be positive'' []] else [])
        @ (if mx_HistogramMaxBuckets c < 0 then [errorf ''metrics: histogram_max_buckets must not be negative'' []] else [])
        @ (if mx_HistogramMaxBuckets c > maxHistogramMaxBuckets
           then [errorf (''metrics: histogram_max_buckets must not exceed '' @ itoa maxHistogramMaxBuckets) []] else [])
        @ (if mx_HistogramMaxScale c < - 10 \<or> mx_HistogramMaxScale c > 20
           then [errorf ''metrics: histogram_max_scale must be between -10 and 20'' []] else []))"

definition mx_exporter_options :: "'f mx_config \<Rightarrow> otlp_option list" where
  "mx_exporter_options cfg =
     [WithEndpoint (mx_Endpoint cfg), WithTimeout (mx_Timeout cfg)]
     @ (if mx_Insecure cfg then [WithInsecure] else [])
     @ (if mx_Headers cfg \<noteq> [] then [WithHeaders (mx_Headers cfg)] else [])"

text \<open>The settings the SDK builds the provider from: resource, reader interval, histogram aggregation.\<close>

record 'res mx_provider =
  mp_resource :: 'res
  mp_interval :: duration
  mp_MaxSize :: int
  mp_MaxScale :: int

definition newMeterProvider :: "(string \<Rightarrow> string) \<Rightarrow> ('f kv list \<Rightarrow> gerr + 'res) \<Rightarrow> info \<Rightarrow> 'f mx_config \<Rightarrow> gerr + 'res mx_provider" where
  "newMeterProvider uni newResource i cfg =
     (case newResource (ConvertMapsToKVs uni [mx_GlobalKV cfg, ConvertAppInfoToMap i]) of
        Inl e \<Rightarrow> Inl (errorf (''metrics: creating metric resource: '' @ error_string e) [e])
      | Inr res \<Rightarrow> Inr \<lparr>mp_resource = res, mp_interval = mx_ExportInterval cfg,
          mp_MaxSize = mx_HistogramMaxBuckets cfg, mp_MaxScale = mx_HistogramMaxScale cfg\<rparr>)"

definition newClientWithExporter ::
  "(string \<Rightarrow> string) \<Rightarrow> ('f kv list \<Rightarrow> gerr + 'res) \<Rightarrow> info \<Rightarrow> 'f mx_config \<Rightarrow> (gerr + ('res mx_provider, 'i) otelMetrics) \<times> exporter_effect list" where
  "newClientWithExporter uni newResource i cfg =
     (case newMeterProvider uni newResource i cfg of
        Inl e \<Rightarrow> (Inl e, [ExporterShutdown])
      | Inr p \<Rightarrow> (Inr (newInstrumentClient p (Some p) (mx_Scope cfg) True), []))"

definition mx_New ::
  "(string \<Rightarrow> string) \<Rightarrow> (otlp_option list \<Rightarrow> error) \<Rightarrow> ('f kv list \<Rightarrow> gerr + 'res) \<Rightarrow> info \<Rightarrow> 'f mx_config
   \<Rightarrow> (gerr + ('res mx_provider, 'i) otelMetrics) \<times> exporter_effect list" where
  "mx_New uni newExporter newResource i cfg0 =
     (case ValidateAppInfo i of
        Some e \<Rightarrow> (Inl (errorf (''metrics: '' @ error_string e) [e]), [])
      | None \<Rightarrow>
          let cfg = mx_SetDefaults cfg0 in
          case mx_Validate cfg of
            Some e \<Rightarrow> (Inl e, [])
          | None \<Rightarrow>
              (case newExporter (mx_exporter_options cfg) of
                 Some e \<Rightarrow> (Inl (errorf (''metrics: creating OTLP metric exporter: '' @ error_string e) [e]), [])
               | None \<Rightarrow>
                   (case newClientWithExporter uni newResource i cfg of
                      (r, effs) \<Rightarrow> (r, ExporterCreated (mx_exporter_options cfg) # effs))))"

subsection \<open>Measurements\<close>

lemma entry_matches_nil_iff:
  "entry_matches e kind inst = nil \<longleftrightarrow> ie_kind e = kind \<and> ie_unit e = in_Unit inst \<and> ie_description e = in_Description inst"
  by (simp add: entry_matches_def)

lemma entry_matches_conflict: "entry_matches e kind inst = Some x \<Longrightarrow> errors_Is x ErrInstrumentConflict"
  by (auto simp: entry_matches_def errors_Is_GErr errorf_def sentinel_error_def ErrInstrumentConflict_def split: if_splits)

lemma validate_name: "validateInstrument inst = Inr n \<Longrightarrow> n = in_Name inst \<and> metricNamePattern n"
  by (auto simp: validateInstrument_def split: if_splits)

text \<open>
  The outcome of a measurement on every branch. A stopped client refuses it with \<open>ErrStopped\<close>, an invalid name
  with \<open>ErrInvalidMetricName\<close>, a name registered with another kind, unit or description with \<open>ErrInstrumentConflict\<close>;
  in these cases nothing is recorded and the client is unchanged. Otherwise the value is recorded once, on the registered
  instrument, or on the one the meter creates, which is then registered with the given metadata; an error of
  the meter is returned wrapped and registers nothing.
\<close>

theorem measure_outcome:
  assumes "measure_with kind uni meter inst v attrs c = (c', err, ms)"
  shows "(if om_stopped c then c' = c \<and> err = Some ErrStopped \<and> ms = []
    else if \<not> metricNamePattern (in_Name inst) then c' = c \<and> (\<exists>x. err = Some x \<and> errors_Is x ErrInvalidMetricName) \<and> ms = []
    else case om_instruments c (in_Name inst) of
      Some e \<Rightarrow> c' = c \<and>
        (if ie_kind e = kind \<and> ie_unit e = in_Unit inst \<and> ie_description e = in_Description inst
         then err = nil \<and> ms = [Measured e v (ConvertMapsToKVs uni [attrs])]
         else (\<exists>x. err = Some x \<and> errors_Is x ErrInstrumentConflict) \<and> ms = [])
    | None \<Rightarrow>
        (case meter kind inst of
           Inl y \<Rightarrow> c' = c \<and> (\<exists>x. err = Some x \<and> unwrap x = [y]) \<and> ms = []
         | Inr i \<Rightarrow> let e = \<lparr>ie_kind = kind, ie_unit = in_Unit inst, ie_description = in_Description inst, ie_instrument = i\<rparr>
             in err = nil \<and> c' = c\<lparr>om_instruments := (om_instruments c)(in_Name inst \<mapsto> e)\<rparr>
                \<and> ms = [Measured e v (ConvertMapsToKVs uni [attrs])]))"
proof (cases "om_stopped c \<or> \<not> metricNamePattern (in_Name inst)")
  case True
  with assms show ?thesis
    by (auto simp: measure_with_def prepare_def get_instrument_def load_instrument_def validateInstrument_def ErrInvalidMetricName_def)
next
  case False
  then show ?thesis
  proof (cases "om_instruments c (in_Name inst)")
    case None
    with assms False show ?thesis
      by (auto simp: measure_with_def prepare_def get_instrument_def load_instrument_def validateInstrument_def create_instrument_def
          store_instrument_def errorf_def Let_def split: sum.splits)
  next
    case (Some e)
    with assms False show ?thesis
      by (auto simp: measure_with_def prepare_def get_instrument_def load_instrument_def validateInstrument_def entry_matches_def ErrInstrumentConflict_def
          split: if_splits)
  qed
qed

definition demo_instrument :: instrument where
  "demo_instrument = \<lparr>in_Name = ''orders'', in_Unit = ''1'', in_Description = ''''\<rparr>"

theorem measure_outcome_witness:
  "\<exists>c'. mx_Add id (\<lambda>_ _. Inr 7) demo_instrument 1 [] (mx_Wrap 0 None :: (nat, nat) otelMetrics)
     = (c', nil, [Measured \<lparr>ie_kind = kindCounter, ie_unit = ''1'', ie_description = '''', ie_instrument = 7\<rparr> (MInt 1 :: nat measured) []])"
proof -
  let ?c = "mx_Wrap 0 None :: (nat, nat) otelMetrics"
  obtain c' err ms where m: "measure_with kindCounter id (\<lambda>_ _. Inr 7) demo_instrument (MInt 1 :: nat measured) [] ?c = (c', err, ms)"
    by (metis surj_pair)
  have "metricNamePattern (in_Name demo_instrument)"
    by (simp add: demo_instrument_def byte_between_def metric_name_byte_def)
  moreover have "\<not> om_stopped ?c" "om_instruments ?c = Map.empty"
    by (simp_all add: mx_Wrap_def WrapWithScope_def newInstrumentClient_def)
  moreover have "ConvertMapsToKVs id [[] :: nat gomap] = []" by (simp add: ConvertMapsToKVs_def merge_map_def)
  ultimately show ?thesis using measure_outcome [OF m] m by (simp add: mx_Add_def demo_instrument_def Let_def)
qed

subsection \<open>Stop, Default and New\<close>

interpretation mx_stop: stop_once mx_Stop
  by unfold_locales (simp_all add: mx_Stop_def)

interpretation mx_default: default_client mx_Default
  by unfold_locales (auto simp: mx_Default_def wrap_client_def cache_ok_def split: option.split)

text \<open>After a stop of a client that owns its provider, every measurement is refused and the client no longer changes.\<close>

lemma stopped_refuses:
  assumes "om_shutdown c"
  shows "measure_with kind uni meter inst v attrs (fst (mx_Stop r c)) = (fst (mx_Stop r c), Some ErrStopped, [])"
  using assms by (simp add: mx_Stop_def measure_with_def prepare_def)

lemma mx_Validate_defaults:
  "mx_Validate (mx_SetDefaults c) = nil \<longleftrightarrow>
     0 \<le> mx_Timeout c \<and> 0 \<le> mx_ExportInterval c \<and> 0 \<le> mx_HistogramMaxBuckets c \<and> mx_HistogramMaxBuckets c \<le> 320
     \<and> - 10 \<le> mx_HistogramMaxScale c \<and> mx_HistogramMaxScale c \<le> 20"
  by (auto simp: mx_Validate_def mx_SetDefaults_def defaultMetricsTimeout_def defaultExportInterval_def second_def millisecond_def
      defaultHistogramMaxBuckets_def defaultHistogramMaxScale_def maxHistogramMaxBuckets_def)

text \<open>
  \<open>New\<close> leaks no exporter and stops at the first failure. It asks for an exporter only for a valid identity and
  configuration; it returns a client exactly when both the exporter and the resource could be built, and when the resource
  fails after the exporter was created the exporter is shut down.
\<close>

theorem mx_New_no_leak:
  assumes "mx_New uni newExporter newResource i cfg = (r, effs)"
  shows "let opts = mx_exporter_options (mx_SetDefaults cfg) in
    ((\<exists>m. r = Inr m) \<longleftrightarrow> effs = [ExporterCreated opts])
    \<and> ((\<exists>e. r = Inl e) \<longleftrightarrow> effs = [] \<or> effs = [ExporterCreated opts, ExporterShutdown])
    \<and> (effs \<noteq> [] \<longleftrightarrow> trim_space (Name i) \<noteq> '''' \<and> mx_Validate (mx_SetDefaults cfg) = nil \<and> newExporter opts = nil)"
  using assms
  by (auto simp: mx_New_def Let_def ValidateAppInfo_def Validate_def newClientWithExporter_def split: option.splits sum.splits if_splits prod.splits)

definition demo_mx_config :: "nat mx_config" where
  "demo_mx_config = \<lparr>mx_Endpoint = '''', mx_Timeout = 0, mx_ExportInterval = 0, mx_Scope = '''', mx_Insecure = True, mx_Headers = [],
     mx_GlobalKV = [], mx_HistogramMaxBuckets = 0, mx_HistogramMaxScale = 0\<rparr>"

theorem mx_New_no_leak_witness:
  "snd (mx_New id (\<lambda>_. nil) (\<lambda>_. Inl ErrStopped :: gerr + nat) Placeholder demo_mx_config :: (gerr + (nat mx_provider, nat) otelMetrics) \<times> exporter_effect list)
     = [ExporterCreated [WithEndpoint ''localhost:4317'', WithTimeout 10000000000, WithInsecure], ExporterShutdown]"
proof -
  obtain r effs where n: "mx_New id (\<lambda>_. nil) (\<lambda>_. Inl ErrStopped :: gerr + nat) Placeholder demo_mx_config = (r :: gerr + (nat mx_provider, nat) otelMetrics, effs)" by (metis surj_pair)
  have v: "mx_Validate (mx_SetDefaults demo_mx_config) = nil" by (simp add: mx_Validate_defaults demo_mx_config_def)
  have o: "mx_exporter_options (mx_SetDefaults demo_mx_config) = [WithEndpoint ''localhost:4317'', WithTimeout 10000000000, WithInsecure]"
    by (simp add: mx_exporter_options_def mx_SetDefaults_def demo_mx_config_def mx_defaultEndpoint_def defaultMetricsTimeout_def second_def millisecond_def)
  from n have "\<exists>e. r = Inl e"
    by (auto simp: mx_New_def Let_def newClientWithExporter_def newMeterProvider_def split: option.splits)
  moreover have "trim_space (Name Placeholder) \<noteq> ''''" by (simp add: Placeholder_def trim_app)
  ultimately have "effs = [ExporterCreated [WithEndpoint ''localhost:4317'', WithTimeout 10000000000, WithInsecure], ExporterShutdown]"
    using mx_New_no_leak [OF n] v o unfolding Let_def by auto
  with n show ?thesis by simp
qed

text \<open>
  Stopping a client that owns its provider is final and happens once. However often \<open>Stop\<close> is called, the provider is
  shut down exactly once, every call returns the error of that shutdown, and every later measurement is refused with
  \<open>ErrStopped\<close> and changes nothing.
\<close>

theorem mx_Stop_final:
  assumes "om_shutdown c" and "\<not> om_stopped c"
  shows "case stop_all mx_Stop (r # rs) c of
    (c', errs, n) \<Rightarrow> n = 1 \<and> errs = replicate (Suc (length rs)) r
      \<and> measure_with kind uni meter inst v attrs c' = (c', Some ErrStopped, [])"
  using assms mx_stop.stop_all_repeats [of rs r c] stopped_refuses [OF assms(1), of kind uni meter inst v attrs r]
  by (auto simp: mx_Stop_def split: prod.splits)

theorem mx_Stop_final_witness:
  "case stop_all mx_Stop [Some ErrStopped, nil] (newInstrumentClient 0 None '''' True :: (nat, nat) otelMetrics) of (c', errs, n) \<Rightarrow>
     n = 1 \<and> errs = [Some ErrStopped, Some ErrStopped]"
  using mx_Stop_final [where c = "newInstrumentClient 0 None '''' True :: (nat, nat) otelMetrics" and rs = "[nil]" and r = "Some ErrStopped"
      and kind = kindCounter and uni = id and meter = "\<lambda>_ _. Inr 0" and inst = demo_instrument and v = "MFloat 0 :: nat measured" and attrs = "[]"]
  by (auto simp: newInstrumentClient_def split: prod.splits)

subsection \<open>Interleavings\<close>

text \<open>
  Goroutines measure at the same time, and one may call \<open>Stop\<close>. A goroutine is between measurements, holds the read lock
  with the stop flag checked, has created an instrument it has not stored yet, or has an entry it will
  record on. The write lock of \<open>Stop\<close> is granted only when nobody holds the read lock. Every access to the cache is
  one step, and the meter may return anything when an instrument is created.
\<close>

datatype 'i phase =
    Outside
  | Locked instrumentKind instrument
  | Created instrumentKind instrument "'i instrumentEntry"
  | Ready instrumentKind instrument "'i instrumentEntry"

datatype 'i mx_event = Recorded instrumentKind instrument "'i instrumentEntry" | ShutDown

record 'i mx_run =
  mr_map :: "string \<rightharpoonup> 'i instrumentEntry"
  mr_stopped :: bool
  mr_phase :: "nat \<Rightarrow> 'i phase"
  mr_log :: "'i mx_event list"

abbreviation set_phase :: "nat \<Rightarrow> 'i phase \<Rightarrow> 'i mx_run \<Rightarrow> 'i mx_run" where
  "set_phase t ph s \<equiv> s\<lparr>mr_phase := (mr_phase s)(t := ph)\<rparr>"

inductive mx_step :: "'i mx_run \<Rightarrow> 'i mx_run \<Rightarrow> bool" where
  lock: "mr_phase s t = Outside \<Longrightarrow> \<not> mr_stopped s \<Longrightarrow> mx_step s (set_phase t (Locked kind inst) s)"
| load_failed: "mr_phase s t = Locked kind inst \<Longrightarrow> load_instrument kind inst (mr_map s) = Inl e \<Longrightarrow> mx_step s (set_phase t Outside s)"
| load_hit: "mr_phase s t = Locked kind inst \<Longrightarrow> load_instrument kind inst (mr_map s) = Inr (Some entry) \<Longrightarrow>
    mx_step s (set_phase t (Ready kind inst entry) s)"
| create_failed: "mr_phase s t = Locked kind inst \<Longrightarrow> load_instrument kind inst (mr_map s) = Inr None \<Longrightarrow>
    create_instrument kind inst (made :: gerr + 'i) = Inl e \<Longrightarrow> mx_step s (set_phase t Outside s)"
| create: "mr_phase s t = Locked kind inst \<Longrightarrow> load_instrument kind inst (mr_map s) = Inr None \<Longrightarrow>
    create_instrument kind inst made = Inr entry \<Longrightarrow> mx_step s (set_phase t (Created kind inst entry) s)"
| store_failed: "mr_phase s t = Created kind inst entry \<Longrightarrow> store_instrument kind inst entry (mr_map s) = (m, Inl e) \<Longrightarrow>
    mx_step s (set_phase t Outside (s\<lparr>mr_map := m\<rparr>))"
| store: "mr_phase s t = Created kind inst entry \<Longrightarrow> store_instrument kind inst entry (mr_map s) = (m, Inr got) \<Longrightarrow>
    mx_step s (set_phase t (Ready kind inst got) (s\<lparr>mr_map := m\<rparr>))"
| record_it: "mr_phase s t = Ready kind inst entry \<Longrightarrow>
    mx_step s (set_phase t Outside (s\<lparr>mr_log := mr_log s @ [Recorded kind inst entry]\<rparr>))"
| stop: "(\<And>t. mr_phase s t = Outside) \<Longrightarrow> \<not> mr_stopped s \<Longrightarrow>
    mx_step s (s\<lparr>mr_stopped := True, mr_log := mr_log s @ [ShutDown]\<rparr>)"

inductive_cases mx_stepE: "mx_step s t"

definition mx_start :: "'i mx_run" where
  "mx_start = \<lparr>mr_map = Map.empty, mr_stopped = False, mr_phase = (\<lambda>_. Outside), mr_log = []\<rparr>"

text \<open>An entry that is the registered one under its name, with the metadata the caller asked for.\<close>

definition registered_as :: "(string \<rightharpoonup> 'i instrumentEntry) \<Rightarrow> instrumentKind \<Rightarrow> instrument \<Rightarrow> 'i instrumentEntry \<Rightarrow> bool" where
  "registered_as m kind inst e \<longleftrightarrow> m (in_Name inst) = Some e \<and> metricNamePattern (in_Name inst)
     \<and> ie_kind e = kind \<and> ie_unit e = in_Unit inst \<and> ie_description e = in_Description inst"

definition mx_inv :: "'i mx_run \<Rightarrow> bool" where
  "mx_inv s \<longleftrightarrow>
     (\<forall>t kind inst e. mr_phase s t = Ready kind inst e \<longrightarrow> registered_as (mr_map s) kind inst e)
     \<and> (\<forall>t kind inst e. mr_phase s t = Created kind inst e \<longrightarrow>
          metricNamePattern (in_Name inst) \<and> ie_kind e = kind \<and> ie_unit e = in_Unit inst \<and> ie_description e = in_Description inst)
     \<and> (\<forall>kind inst e. Recorded kind inst e \<in> set (mr_log s) \<longrightarrow> registered_as (mr_map s) kind inst e)
     \<and> (if mr_stopped s then (\<forall>t. mr_phase s t = Outside) \<and> (\<exists>l. mr_log s = l @ [ShutDown] \<and> ShutDown \<notin> set l)
        else ShutDown \<notin> set (mr_log s))"

lemma load_some: "load_instrument kind inst m = Inr (Some e) \<Longrightarrow> registered_as m kind inst e"
  by (auto simp: load_instrument_def registered_as_def validateInstrument_def entry_matches_nil_iff split: if_splits option.splits)

lemma load_none: "load_instrument kind inst m = Inr None \<Longrightarrow> metricNamePattern (in_Name inst)"
  by (auto simp: load_instrument_def validateInstrument_def split: if_splits option.splits)

lemma create_entry: "create_instrument kind inst made = Inr e \<Longrightarrow> ie_kind e = kind \<and> ie_unit e = in_Unit inst \<and> ie_description e = in_Description inst"
  by (auto simp: create_instrument_def split: sum.splits)

text \<open>\<open>LoadOrStore\<close> never replaces an entry.\<close>

lemma store_keeps: "store_instrument kind inst entry m = (m', r) \<Longrightarrow> m n = Some e \<Longrightarrow> m' n = Some e"
  by (auto simp: store_instrument_def split: option.splits)

lemma store_keeps_registered: "store_instrument kind inst entry m = (m', r) \<Longrightarrow> registered_as m k i e \<Longrightarrow> registered_as m' k i e"
  using store_keeps [of kind inst entry m m' r] by (auto simp: registered_as_def)

lemma store_result:
  assumes "store_instrument kind inst entry m = (m', Inr got)" "metricNamePattern (in_Name inst)"
    and "ie_kind entry = kind" "ie_unit entry = in_Unit inst" "ie_description entry = in_Description inst"
  shows "registered_as m' kind inst got"
  using assms by (auto simp: store_instrument_def registered_as_def entry_matches_nil_iff split: option.splits)

lemma mx_step_inv: "mx_step s s' \<Longrightarrow> mx_inv s \<Longrightarrow> mx_inv s'"
proof (induction rule: mx_step.induct)
  case (store s t kind inst entry m got)
  then show ?case
    using store_result [of kind inst entry "mr_map s" m got] store_keeps_registered [OF store(2)] unfolding mx_inv_def by auto
next
  case (store_failed s t kind inst entry m e)
  then show ?case using store_keeps_registered [OF store_failed(2)] unfolding mx_inv_def by auto
next
  case (load_hit s t kind inst entry)
  then show ?case using load_some [OF load_hit(2)] unfolding mx_inv_def by auto
next
  case (create s t kind inst made entry)
  then show ?case using load_none [OF create(2)] create_entry [OF create(3)] unfolding mx_inv_def by auto
qed (auto simp: mx_inv_def)

lemma mx_reach_inv: "mx_step\<^sup>*\<^sup>* mx_start s \<Longrightarrow> mx_inv s"
proof (induction rule: rtranclp_induct)
  case base
  then show ?case by (simp add: mx_inv_def mx_start_def registered_as_def)
next
  case (step y z)
  then show ?case using mx_step_inv by blast
qed

text \<open>
  C9: However goroutines interleave, every measurement recorded under a name is recorded on the one
  instrument registered under that name, whose kind, unit and description are those its caller asked for, so
  two measurements of a name never land on different instruments.
\<close>

theorem one_instrument_per_name:
  assumes "mx_step\<^sup>*\<^sup>* mx_start s"
    and "Recorded kind inst e \<in> set (mr_log s)" and "Recorded kind' inst' e' \<in> set (mr_log s)" and "in_Name inst = in_Name inst'"
  shows "e = e' \<and> kind = kind' \<and> inst = inst' \<and> ie_kind e = kind \<and> ie_unit e = in_Unit inst \<and> ie_description e = in_Description inst"
proof -
  from mx_reach_inv [OF assms(1)] assms(2,3) have "registered_as (mr_map s) kind inst e" "registered_as (mr_map s) kind' inst' e'"
    by (auto simp: mx_inv_def)
  with assms(4) show ?thesis by (auto simp: registered_as_def)
qed

text \<open>A run in which two goroutines miss the cache at the same time and the second takes the entry of the first.\<close>

definition demo_entry :: "nat instrumentEntry" where
  "demo_entry = \<lparr>ie_kind = kindCounter, ie_unit = ''1'', ie_description = '''', ie_instrument = 0\<rparr>"

definition raced :: "nat mx_run" where
  "raced = \<lparr>mr_map = [''orders'' \<mapsto> demo_entry], mr_stopped = False, mr_phase = (\<lambda>_. Outside),
     mr_log = [Recorded kindCounter demo_instrument demo_entry, Recorded kindCounter demo_instrument demo_entry]\<rparr>"

lemma demo_name: "metricNamePattern ''orders''"
  by (simp add: byte_between_def metric_name_byte_def)

lemma raced_reach: "mx_step\<^sup>*\<^sup>* mx_start raced"
proof -
  let ?i = demo_instrument and ?e = "demo_entry" and ?e' = "demo_entry\<lparr>ie_instrument := 1\<rparr>"
  define s1 where "s1 = set_phase 0 (Locked kindCounter ?i) (mx_start :: nat mx_run)"
  define s2 where "s2 = set_phase 1 (Locked kindCounter ?i) s1"
  define s3 where "s3 = set_phase 0 (Created kindCounter ?i ?e) s2"
  define s4 where "s4 = set_phase 1 (Created kindCounter ?i ?e') s3"
  define s5 where "s5 = set_phase 0 (Ready kindCounter ?i ?e) (s4\<lparr>mr_map := [''orders'' \<mapsto> ?e]\<rparr>)"
  define s6 where "s6 = set_phase 1 (Ready kindCounter ?i ?e) (s5\<lparr>mr_map := [''orders'' \<mapsto> ?e]\<rparr>)"
  define s7 where "s7 = set_phase 0 Outside (s6\<lparr>mr_log := mr_log s6 @ [Recorded kindCounter ?i ?e]\<rparr>)"
  define s8 where "s8 = set_phase 1 Outside (s7\<lparr>mr_log := mr_log s7 @ [Recorded kindCounter ?i ?e]\<rparr>)"
  note defs = s1_def s2_def s3_def s4_def s5_def s6_def s7_def s8_def
  have load: "load_instrument kindCounter ?i Map.empty = Inr (None :: nat instrumentEntry option)"
    using demo_name by (simp add: load_instrument_def validateInstrument_def demo_instrument_def del: metricNamePattern.simps)
  have "mx_step mx_start s1" unfolding s1_def by (rule lock) (simp_all add: mx_start_def)
  have "mx_step s1 s2" unfolding s2_def by (rule lock) (simp_all add: defs mx_start_def)
  have "mx_step s2 s3" unfolding s3_def
    by (rule create [where made = "Inr 0"]) (simp_all add: defs mx_start_def load [unfolded demo_instrument_def] create_instrument_def demo_entry_def demo_instrument_def)
  have "mx_step s3 s4" unfolding s4_def
    by (rule create [where made = "Inr 1"]) (simp_all add: defs mx_start_def load [unfolded demo_instrument_def] create_instrument_def demo_entry_def demo_instrument_def)
  have "mx_step s4 s5" unfolding s5_def
    by (rule store) (simp_all add: defs mx_start_def store_instrument_def demo_entry_def demo_instrument_def)
  have "mx_step s5 s6" unfolding s6_def
    by (rule store [where entry = ?e']) (simp_all add: defs mx_start_def store_instrument_def demo_entry_def demo_instrument_def entry_matches_def)
  have "mx_step s6 s7" unfolding s7_def by (rule record_it) (simp add: defs)
  have "mx_step s7 s8" unfolding s8_def by (rule record_it) (simp add: defs)
  have "mx_step\<^sup>*\<^sup>* mx_start s8"
    by ((rule converse_rtranclp_into_rtranclp, fact)+, rule rtranclp.rtrancl_refl)
  moreover have "s8 = raced" by (simp add: defs mx_start_def raced_def fun_eq_iff)
  ultimately show ?thesis by simp
qed

theorem one_instrument_per_name_witness:
  "mx_step\<^sup>*\<^sup>* mx_start raced \<and> ie_kind demo_entry = kindCounter \<and> ie_unit demo_entry = in_Unit demo_instrument"
  using one_instrument_per_name [OF raced_reach, of kindCounter demo_instrument demo_entry kindCounter demo_instrument demo_entry] raced_reach
  by (simp add: raced_def)

text \<open>
  C16: No measurement reaches the provider after its shutdown began, and the shutdown runs at most once, however measurements and
  \<open>Stop\<close> interleave.
\<close>

theorem nothing_after_shutdown:
  assumes "mx_step\<^sup>*\<^sup>* mx_start s" and "mr_log s = before @ [ShutDown] @ after"
  shows "after = [] \<and> ShutDown \<notin> set before"
proof -
  from mx_reach_inv [OF assms(1)] assms(2) obtain l where "before @ [ShutDown] @ after = l @ [ShutDown]" "ShutDown \<notin> set l"
    by (auto simp: mx_inv_def split: if_splits)
  then show ?thesis by (auto simp: append_eq_append_conv2 Cons_eq_append_conv append_eq_Cons_conv)
qed

theorem nothing_after_shutdown_witness:
  "mx_step\<^sup>*\<^sup>* mx_start (raced\<lparr>mr_stopped := True, mr_log := mr_log raced @ [ShutDown]\<rparr>) \<and> ShutDown \<notin> set (mr_log raced)"
proof -
  have "mx_step raced (raced\<lparr>mr_stopped := True, mr_log := mr_log raced @ [ShutDown]\<rparr>)"
    by (rule stop) (simp_all add: raced_def)
  with raced_reach have r: "mx_step\<^sup>*\<^sup>* mx_start (raced\<lparr>mr_stopped := True, mr_log := mr_log raced @ [ShutDown]\<rparr>)"
    by (rule rtranclp.rtrancl_into_rtrancl)
  with nothing_after_shutdown [OF r, of "mr_log raced" "[]"] show ?thesis by simp
qed

end
