(* ===== verification/Obs_Tracer.thy ===== *)
theory Obs_Tracer
  imports Obs_Contracts Obs_Logs
begin

text \<open>
  Package \<open>observability/tracer\<close>: the tracer client, its configuration and construction, and the global
  registration. The OpenTelemetry SDK is a parameter, as for the metrics client; \<open>'p\<close> stands for tracer
  providers and \<open>'sm\<close> for samplers. A context is modelled as in \<open>Obs_Logs\<close>.
\<close>

subsection \<open>The client\<close>

record 'p tracer_client =
  tc_provider :: 'p
  tc_shutdown :: bool
  tc_stopOnce :: bool
  tc_stopErr :: error

text \<open>\<open>Stop\<close>: the function passed to \<open>sync.Once\<close> runs on the first call only; \<open>r\<close> is what the shutdown returns.\<close>

definition tr_Stop :: "error \<Rightarrow> 'p tracer_client \<Rightarrow> 'p tracer_client \<times> error \<times> nat" where
  "tr_Stop r c =
     (if tc_stopOnce c then (c, tc_stopErr c, 0)
      else let c1 = c\<lparr>tc_stopOnce := True\<rparr> in
        if tc_shutdown c then (c1\<lparr>tc_stopErr := r\<rparr>, r, 1) else (c1, tc_stopErr c, 0))"

definition spanContextFrom :: "log_ctx \<Rightarrow> span_context" where
  "spanContextFrom ctx = (case ctx of None \<Rightarrow> \<lparr>sc_TraceID = '''', sc_SpanID = '''', sc_IsValid = False\<rparr> | Some sc \<Rightarrow> sc)"

definition traceIDFrom :: "log_ctx \<Rightarrow> string" where
  "traceIDFrom ctx = (let sc = spanContextFrom ctx in if \<not> sc_IsValid sc then '''' else sc_TraceID sc)"

definition spanIDFrom :: "log_ctx \<Rightarrow> string" where
  "spanIDFrom ctx = (let sc = spanContextFrom ctx in if \<not> sc_IsValid sc then '''' else sc_SpanID sc)"

definition tr_Wrap :: "'p \<Rightarrow> 'p option \<Rightarrow> 'p tracer_client" where
  "tr_Wrap noop provider =
     \<lparr>tc_provider = (case provider of None \<Rightarrow> noop | Some p \<Rightarrow> p), tc_shutdown = False, tc_stopOnce = False, tc_stopErr = nil\<rparr>"

definition tr_Noop :: "'p \<Rightarrow> 'p tracer_client" where
  "tr_Noop noop = tr_Wrap noop (Some noop)"

definition tr_Default :: "bool \<Rightarrow> 'p \<Rightarrow> 'p default_state \<Rightarrow> 'p client_ref \<times> 'p default_state" where
  "tr_Default comparable p s =
     (if \<not> comparable then wrap_client p s
      else case ds_cached s of
        Some (q, c) \<Rightarrow> if q = p then (c, s) else (case wrap_client p s of (c', s') \<Rightarrow> (c', s'\<lparr>ds_cached := Some (p, c')\<rparr>))
      | None \<Rightarrow> (case wrap_client p s of (c', s') \<Rightarrow> (c', s'\<lparr>ds_cached := Some (p, c')\<rparr>)))"

datatype propagator = TraceContext | Baggage

record 'p otel_globals =
  og_provider :: 'p
  og_propagators :: "propagator list"

definition SetGlobal :: "'p \<Rightarrow> 'p tracer_client option \<Rightarrow> 'p otel_globals \<Rightarrow> 'p otel_globals" where
  "SetGlobal noop c g =
     (let cl = (case c of None \<Rightarrow> tr_Noop noop | Some cl \<Rightarrow> cl)
      in g\<lparr>og_provider := tc_provider cl, og_propagators := [TraceContext, Baggage]\<rparr>)"

definition tr_Attrs :: "(string \<Rightarrow> string) \<Rightarrow> 'f gomap \<Rightarrow> 'f kv list" where
  "tr_Attrs uni kv = ConvertMapsToKVs uni [kv]"

subsection \<open>Configuration and construction\<close>

definition tr_defaultEndpoint :: string where "tr_defaultEndpoint = ''localhost:4317''"
definition defaultExportTimeout :: duration where "defaultExportTimeout = 5 * second"
definition defaultBatchTimeout :: duration where "defaultBatchTimeout = 5 * second"
definition defaultMaxQueueSize :: int where "defaultMaxQueueSize = 2048"
definition defaultMaxExportBatchSize :: int where "defaultMaxExportBatchSize = 512"

record ('f, 'sm) tr_config =
  tr_Endpoint :: string
  tr_ExportTimeout :: duration
  tr_Insecure :: bool
  tr_Headers :: "(string \<times> string) list"
  tr_GlobalKV :: "'f gomap"
  tr_Sampler :: "'sm option"
  tr_BatchTimeout :: duration
  tr_MaxQueueSize :: int
  tr_MaxExportBatchSize :: int

definition tr_SetDefaults :: "('f, 'sm) tr_config \<Rightarrow> ('f, 'sm) tr_config" where
  "tr_SetDefaults c =
     c\<lparr>tr_Endpoint := (if tr_Endpoint c = '''' then tr_defaultEndpoint else tr_Endpoint c),
       tr_ExportTimeout := (if tr_ExportTimeout c = 0 then defaultExportTimeout else tr_ExportTimeout c),
       tr_BatchTimeout := (if tr_BatchTimeout c = 0 then defaultBatchTimeout else tr_BatchTimeout c),
       tr_MaxQueueSize := (if tr_MaxQueueSize c = 0 then defaultMaxQueueSize else tr_MaxQueueSize c),
       tr_MaxExportBatchSize := (if tr_MaxExportBatchSize c = 0 then defaultMaxExportBatchSize else tr_MaxExportBatchSize c)\<rparr>"

definition tr_Validate :: "('f, 'sm) tr_config \<Rightarrow> error" where
  "tr_Validate c =
     errors_Join
       ((if tr_ExportTimeout c \<le> 0 then [errorf ''tracer: export_timeout must be positive'' []] else [])
        @ (if tr_BatchTimeout c \<le> 0 then [errorf ''tracer: batch_timeout must be positive'' []] else [])
        @ (if tr_MaxQueueSize c \<le> 0 then [errorf ''tracer: max_queue_size must be positive'' []] else [])
        @ (if tr_MaxExportBatchSize c \<le> 0 then [errorf ''tracer: max_export_batch_size must be positive'' []] else [])
        @ (if tr_MaxExportBatchSize c > tr_MaxQueueSize c
           then [errorf ''tracer: max_export_batch_size must not exceed max_queue_size'' []] else []))"

definition tr_exporter_options :: "('f, 'sm) tr_config \<Rightarrow> otlp_option list" where
  "tr_exporter_options cfg =
     [WithEndpoint (tr_Endpoint cfg), WithTimeout (tr_ExportTimeout cfg)]
     @ (if tr_Insecure cfg then [WithInsecure] else [])
     @ (if tr_Headers cfg \<noteq> [] then [WithHeaders (tr_Headers cfg)] else [])"

text \<open>The settings the SDK builds the tracer provider from.\<close>

record ('res, 'sm) tr_provider =
  tp_resource :: 'res
  tp_BatchTimeout :: duration
  tp_MaxQueueSize :: int
  tp_MaxExportBatchSize :: int
  tp_Sampler :: "'sm option"

definition newProvider ::
  "(string \<Rightarrow> string) \<Rightarrow> ('f kv list \<Rightarrow> gerr + 'res) \<Rightarrow> info \<Rightarrow> ('f, 'sm) tr_config \<Rightarrow> gerr + ('res, 'sm) tr_provider" where
  "newProvider uni newResource i cfg =
     (case newResource (ConvertMapsToKVs uni [tr_GlobalKV cfg, ConvertAppInfoToMap i]) of
        Inl e \<Rightarrow> Inl (errorf (''tracer: creating trace resource: '' @ error_string e) [e])
      | Inr res \<Rightarrow> Inr \<lparr>tp_resource = res, tp_BatchTimeout = tr_BatchTimeout cfg, tp_MaxQueueSize = tr_MaxQueueSize cfg,
          tp_MaxExportBatchSize = tr_MaxExportBatchSize cfg, tp_Sampler = tr_Sampler cfg\<rparr>)"

definition tr_newClientWithExporter ::
  "(string \<Rightarrow> string) \<Rightarrow> ('f kv list \<Rightarrow> gerr + 'res) \<Rightarrow> info \<Rightarrow> ('f, 'sm) tr_config
   \<Rightarrow> (gerr + ('res, 'sm) tr_provider tracer_client) \<times> exporter_effect list" where
  "tr_newClientWithExporter uni newResource i cfg =
     (case newProvider uni newResource i cfg of
        Inl e \<Rightarrow> (Inl e, [ExporterShutdown])
      | Inr p \<Rightarrow> (Inr \<lparr>tc_provider = p, tc_shutdown = True, tc_stopOnce = False, tc_stopErr = nil\<rparr>, []))"

definition tr_New ::
  "(string \<Rightarrow> string) \<Rightarrow> (otlp_option list \<Rightarrow> error) \<Rightarrow> ('f kv list \<Rightarrow> gerr + 'res) \<Rightarrow> info \<Rightarrow> ('f, 'sm) tr_config
   \<Rightarrow> (gerr + ('res, 'sm) tr_provider tracer_client) \<times> exporter_effect list" where
  "tr_New uni newExporter newResource i cfg0 =
     (case ValidateAppInfo i of
        Some e \<Rightarrow> (Inl (errorf (''tracer: '' @ error_string e) [e]), [])
      | None \<Rightarrow>
          let cfg = tr_SetDefaults cfg0 in
          case tr_Validate cfg of
            Some e \<Rightarrow> (Inl e, [])
          | None \<Rightarrow>
              (case newExporter (tr_exporter_options cfg) of
                 Some e \<Rightarrow> (Inl (errorf (''tracer: creating OTLP trace exporter: '' @ error_string e) [e]), [])
               | None \<Rightarrow>
                   (case tr_newClientWithExporter uni newResource i cfg of
                      (r, effs) \<Rightarrow> (r, ExporterCreated (tr_exporter_options cfg) # effs))))"

subsection \<open>Contracts\<close>

interpretation tr_stop: stop_once tr_Stop
  by unfold_locales (simp_all add: tr_Stop_def Let_def)

interpretation tr_default: default_client tr_Default
  by unfold_locales (auto simp: tr_Default_def wrap_client_def cache_ok_def split: option.split)

subsection \<open>Properties\<close>

text \<open>
  The configurations the client accepts after its defaults; with \<open>MaxExportBatchSize\<close> left at zero, a queue of fewer than
  512 spans is refused.
\<close>

lemma tr_Validate_defaults:
  "tr_Validate (tr_SetDefaults c) = nil \<longleftrightarrow>
     0 \<le> tr_ExportTimeout c \<and> 0 \<le> tr_BatchTimeout c \<and> 0 \<le> tr_MaxQueueSize c \<and> 0 \<le> tr_MaxExportBatchSize c
     \<and> (if tr_MaxExportBatchSize c = 0 then 512 else tr_MaxExportBatchSize c) \<le> (if tr_MaxQueueSize c = 0 then 2048 else tr_MaxQueueSize c)"
  by (auto simp: tr_Validate_def tr_SetDefaults_def defaultExportTimeout_def defaultBatchTimeout_def second_def millisecond_def
      defaultMaxQueueSize_def defaultMaxExportBatchSize_def)

lemma tr_Stop_owned:
  "snd (snd (stop_all tr_Stop (e # rs) \<lparr>tc_provider = p, tc_shutdown = True, tc_stopOnce = False, tc_stopErr = nil\<rparr>)) = Suc 0"
  using tr_stop.stop_all_repeats [of rs e "\<lparr>tc_provider = p, tc_shutdown = True, tc_stopOnce = False, tc_stopErr = nil\<rparr>"]
  by (auto simp: tr_Stop_def Let_def split: prod.splits)

text \<open>
  \<open>New\<close> of the tracer builds a client exactly when the identity has a name, the configuration is valid after its
  defaults, and the exporter and the resource can be built; the exporter is created at most once, and shut down when the resource fails. The
  client's provider carries the configured attributes with the identity's winning, and stopping the client
  shuts it down once.
\<close>

theorem tr_New_contract:
  assumes "tr_New uni newExporter newResource i cfg = (r, effs)"
  shows "let c = tr_SetDefaults cfg; opts = tr_exporter_options c; kvs = ConvertMapsToKVs uni [tr_GlobalKV cfg, ConvertAppInfoToMap i];
      ok = (trim_space (Name i) \<noteq> '''' \<and> tr_Validate c = nil \<and> newExporter opts = nil) in
    (case r of
       Inr cl \<Rightarrow> ok \<and> effs = [ExporterCreated opts] \<and> (\<exists>res. newResource kvs = Inr res \<and> tp_resource (tc_provider cl) = res)
         \<and> (\<forall>e rs. snd (snd (stop_all tr_Stop (e # rs) cl)) = 1)
     | Inl x \<Rightarrow> if ok then effs = [ExporterCreated opts, ExporterShutdown] \<and> (\<exists>y. newResource kvs = Inl y \<and> unwrap x = [y]) else effs = [])"
proof -
  have kv: "tr_GlobalKV (tr_SetDefaults cfg) = tr_GlobalKV cfg" by (simp add: tr_SetDefaults_def)
  show ?thesis
    using assms
    by (auto simp: tr_New_def Let_def tr_Stop_owned ValidateAppInfo_def Validate_def tr_newClientWithExporter_def newProvider_def kv errorf_def
        simp del: stop_all.simps split: option.splits sum.splits if_splits prod.splits)
qed

definition demo_tr_config :: "(nat, nat) tr_config" where
  "demo_tr_config = \<lparr>tr_Endpoint = '''', tr_ExportTimeout = 0, tr_Insecure = False, tr_Headers = [], tr_GlobalKV = [], tr_Sampler = None,
     tr_BatchTimeout = 0, tr_MaxQueueSize = 0, tr_MaxExportBatchSize = 0\<rparr>"

theorem tr_New_contract_witness:
  "\<exists>cl. tr_New id (\<lambda>_. nil) (\<lambda>kvs. Inr (length kvs)) Placeholder demo_tr_config
      = (Inr cl, [ExporterCreated [WithEndpoint ''localhost:4317'', WithTimeout 5000000000]]) \<and> snd (snd (stop_all tr_Stop [nil, nil] cl)) = 1"
proof -
  obtain r effs where n: "tr_New id (\<lambda>_. nil) (\<lambda>kvs. Inr (length kvs)) Placeholder demo_tr_config = (r, effs)" by (metis surj_pair)
  have v: "tr_Validate (tr_SetDefaults demo_tr_config) = nil" by (simp add: tr_Validate_defaults demo_tr_config_def)
  have o: "tr_exporter_options (tr_SetDefaults demo_tr_config) = [WithEndpoint ''localhost:4317'', WithTimeout 5000000000]"
    by (simp add: tr_exporter_options_def tr_SetDefaults_def demo_tr_config_def tr_defaultEndpoint_def defaultExportTimeout_def second_def millisecond_def)
  have "trim_space (Name Placeholder) \<noteq> ''''" by (simp add: Placeholder_def trim_app)
  with tr_New_contract [OF n] v o n show ?thesis
    by (cases r) (auto simp: Let_def simp del: stop_all.simps)
qed

end
