(* ===== verification/Obs_Injection.thy ===== *)
theory Obs_Injection
  imports Obs_Metrics Obs_Tracer
begin

text \<open>
  Which telemetry client a package uses. Every package takes options that inject a metrics and a
  tracer client, and resolves the client of each call: the injected one, or the default client of the
  provider that is installed at that time. The option setters and the resolution of each package are
  definitions; the locale \<open>injectable\<close> is their contract, interpreted for all of them.

  Clients are the references of \<open>Obs_Contracts\<close>; a nil client is \<^term>\<open>None\<close>.
\<close>

subsection \<open>Options\<close>

record ('m, 't) tel_opts =
  inj_metrics :: "'m option"
  inj_tracer :: "'t option"

text \<open>The redis options add the interval of the pool poller.\<close>

record ('m, 't) rd_opts = "('m, 't) tel_opts" +
  poolMetricsInterval :: duration

text \<open>The options of the cron engine write the fields of the engine itself.\<close>

record ('m, 't, 'g, 'l) cron_opts = "('m, 't) tel_opts" +
  inj_toggler :: "'g option"
  inj_locker :: "'l option"

text \<open>The options of the configuration loader.\<close>

record ('cl, 'h) cl_opts =
  inj_client :: "'cl option"
  inj_initialFetch :: bool
  inj_errorHandler :: "'h option"

definition p_WithMetrics :: "'m option \<Rightarrow> ('m, 't, 'z) tel_opts_scheme \<Rightarrow> ('m, 't, 'z) tel_opts_scheme" where
  "p_WithMetrics m o' = o'\<lparr>inj_metrics := m\<rparr>"

definition p_WithTracer :: "'t option \<Rightarrow> ('m, 't, 'z) tel_opts_scheme \<Rightarrow> ('m, 't, 'z) tel_opts_scheme" where
  "p_WithTracer t o' = o'\<lparr>inj_tracer := t\<rparr>"

definition c_WithMetrics :: "'m option \<Rightarrow> ('m, 't, 'z) tel_opts_scheme \<Rightarrow> ('m, 't, 'z) tel_opts_scheme" where
  "c_WithMetrics m o' = o'\<lparr>inj_metrics := m\<rparr>"

definition c_WithTracer :: "'t option \<Rightarrow> ('m, 't, 'z) tel_opts_scheme \<Rightarrow> ('m, 't, 'z) tel_opts_scheme" where
  "c_WithTracer t o' = o'\<lparr>inj_tracer := t\<rparr>"

definition db_WithMetrics :: "'m option \<Rightarrow> ('m, 't, 'z) tel_opts_scheme \<Rightarrow> ('m, 't, 'z) tel_opts_scheme" where
  "db_WithMetrics m o' = o'\<lparr>inj_metrics := m\<rparr>"

definition db_WithTracer :: "'t option \<Rightarrow> ('m, 't, 'z) tel_opts_scheme \<Rightarrow> ('m, 't, 'z) tel_opts_scheme" where
  "db_WithTracer t o' = o'\<lparr>inj_tracer := t\<rparr>"

definition rd_WithMetrics :: "'m option \<Rightarrow> ('m, 't, 'z) tel_opts_scheme \<Rightarrow> ('m, 't, 'z) tel_opts_scheme" where
  "rd_WithMetrics m o' = o'\<lparr>inj_metrics := m\<rparr>"

definition rd_WithTracer :: "'t option \<Rightarrow> ('m, 't, 'z) tel_opts_scheme \<Rightarrow> ('m, 't, 'z) tel_opts_scheme" where
  "rd_WithTracer t o' = o'\<lparr>inj_tracer := t\<rparr>"

definition s3_WithMetrics :: "'m option \<Rightarrow> ('m, 't, 'z) tel_opts_scheme \<Rightarrow> ('m, 't, 'z) tel_opts_scheme" where
  "s3_WithMetrics m o' = o'\<lparr>inj_metrics := m\<rparr>"

definition s3_WithTracer :: "'t option \<Rightarrow> ('m, 't, 'z) tel_opts_scheme \<Rightarrow> ('m, 't, 'z) tel_opts_scheme" where
  "s3_WithTracer t o' = o'\<lparr>inj_tracer := t\<rparr>"

definition rc_WithMetrics :: "'m option \<Rightarrow> ('m, 't, 'z) tel_opts_scheme \<Rightarrow> ('m, 't, 'z) tel_opts_scheme" where
  "rc_WithMetrics m o' = o'\<lparr>inj_metrics := m\<rparr>"

definition rc_WithTracer :: "'t option \<Rightarrow> ('m, 't, 'z) tel_opts_scheme \<Rightarrow> ('m, 't, 'z) tel_opts_scheme" where
  "rc_WithTracer t o' = o'\<lparr>inj_tracer := t\<rparr>"

definition sv_WithMetrics :: "'m option \<Rightarrow> ('m, 't, 'z) tel_opts_scheme \<Rightarrow> ('m, 't, 'z) tel_opts_scheme" where
  "sv_WithMetrics m o' = o'\<lparr>inj_metrics := m\<rparr>"

definition sv_WithTracer :: "'t option \<Rightarrow> ('m, 't, 'z) tel_opts_scheme \<Rightarrow> ('m, 't, 'z) tel_opts_scheme" where
  "sv_WithTracer t o' = o'\<lparr>inj_tracer := t\<rparr>"

definition cron_WithMetrics :: "'m option \<Rightarrow> ('m, 't, 'z) tel_opts_scheme \<Rightarrow> ('m, 't, 'z) tel_opts_scheme" where
  "cron_WithMetrics m o' = o'\<lparr>inj_metrics := m\<rparr>"

definition cron_WithTracer :: "'t option \<Rightarrow> ('m, 't, 'z) tel_opts_scheme \<Rightarrow> ('m, 't, 'z) tel_opts_scheme" where
  "cron_WithTracer t o' = o'\<lparr>inj_tracer := t\<rparr>"

definition rd_WithPoolMetrics :: "duration \<Rightarrow> ('m, 't) rd_opts \<Rightarrow> ('m, 't) rd_opts" where
  "rd_WithPoolMetrics i o' = o'\<lparr>poolMetricsInterval := i\<rparr>"

definition cron_WithToggler :: "'g option \<Rightarrow> ('m, 't, 'g, 'l) cron_opts \<Rightarrow> ('m, 't, 'g, 'l) cron_opts" where
  "cron_WithToggler g o' = o'\<lparr>inj_toggler := g\<rparr>"

definition cron_WithLocker :: "'l option \<Rightarrow> ('m, 't, 'g, 'l) cron_opts \<Rightarrow> ('m, 't, 'g, 'l) cron_opts" where
  "cron_WithLocker l o' = o'\<lparr>inj_locker := l\<rparr>"

definition cl_WithClient :: "'cl option \<Rightarrow> ('cl, 'h) cl_opts \<Rightarrow> ('cl, 'h) cl_opts" where
  "cl_WithClient c o' = o'\<lparr>inj_client := c\<rparr>"

definition cl_WithInitialFetch :: "bool \<Rightarrow> ('cl, 'h) cl_opts \<Rightarrow> ('cl, 'h) cl_opts" where
  "cl_WithInitialFetch b o' = o'\<lparr>inj_initialFetch := b\<rparr>"

definition cl_WithErrorHandler :: "'h option \<Rightarrow> ('cl, 'h) cl_opts \<Rightarrow> ('cl, 'h) cl_opts" where
  "cl_WithErrorHandler h o' = o'\<lparr>inj_errorHandler := h\<rparr>"

lemmas tel_option_defs =
  p_WithMetrics_def p_WithTracer_def c_WithMetrics_def c_WithTracer_def db_WithMetrics_def db_WithTracer_def rd_WithMetrics_def rd_WithTracer_def s3_WithMetrics_def s3_WithTracer_def rc_WithMetrics_def rc_WithTracer_def sv_WithMetrics_def sv_WithTracer_def cron_WithMetrics_def cron_WithTracer_def

subsection \<open>Resolution\<close>

text \<open>
  \<open>b\<close> says whether the provider \<open>p\<close> that is installed is comparable; \<open>s\<close> is the state of the default client.
\<close>

type_synonym 'p resolver = "'p client_ref option \<Rightarrow> bool \<Rightarrow> 'p \<Rightarrow> 'p default_state \<Rightarrow> 'p client_ref \<times> 'p default_state"

definition p_metricsClient :: "'p resolver" where
  "p_metricsClient ic b p s = (case ic of Some c \<Rightarrow> (c, s) | None \<Rightarrow> mx_Default b p s)"

definition p_tracerClient :: "'p resolver" where
  "p_tracerClient ic b p s = (case ic of Some c \<Rightarrow> (c, s) | None \<Rightarrow> tr_Default b p s)"

definition c_metricsClient :: "'p resolver" where
  "c_metricsClient ic b p s = (case ic of Some c \<Rightarrow> (c, s) | None \<Rightarrow> mx_Default b p s)"

definition c_tracerClient :: "'p resolver" where
  "c_tracerClient ic b p s = (case ic of Some c \<Rightarrow> (c, s) | None \<Rightarrow> tr_Default b p s)"

definition db_metricsClient :: "'p resolver" where
  "db_metricsClient ic b p s = (case ic of Some c \<Rightarrow> (c, s) | None \<Rightarrow> mx_Default b p s)"

definition db_tracerClient :: "'p resolver" where
  "db_tracerClient ic b p s = (case ic of Some c \<Rightarrow> (c, s) | None \<Rightarrow> tr_Default b p s)"

definition rd_metricsClient :: "'p resolver" where
  "rd_metricsClient ic b p s = (case ic of Some c \<Rightarrow> (c, s) | None \<Rightarrow> mx_Default b p s)"

definition rd_tracerClient :: "'p resolver" where
  "rd_tracerClient ic b p s = (case ic of Some c \<Rightarrow> (c, s) | None \<Rightarrow> tr_Default b p s)"

definition s3_metricsClient :: "'p resolver" where
  "s3_metricsClient ic b p s = (case ic of Some c \<Rightarrow> (c, s) | None \<Rightarrow> mx_Default b p s)"

text \<open>The S3 client asks the client for the tracer of its scope at once; \<open>tracer\<close> is that method.\<close>

definition s3_tracerClient :: "('p client_ref \<Rightarrow> 'tr) \<Rightarrow> 'p client_ref option \<Rightarrow> bool \<Rightarrow> 'p \<Rightarrow> 'p default_state \<Rightarrow> 'tr \<times> 'p default_state" where
  "s3_tracerClient tracer ic b p s =
     (case ic of Some c \<Rightarrow> (tracer c, s) | None \<Rightarrow> (case tr_Default b p s of (c, s') \<Rightarrow> (tracer c, s')))"

definition cron_metricsClient :: "'p resolver" where
  "cron_metricsClient ic b p s = (case ic of Some c \<Rightarrow> (c, s) | None \<Rightarrow> mx_Default b p s)"

definition cron_tracerClient :: "'p resolver" where
  "cron_tracerClient ic b p s = (case ic of Some c \<Rightarrow> (c, s) | None \<Rightarrow> tr_Default b p s)"

definition rc_metricsClient :: "'p resolver" where
  "rc_metricsClient ic b p s = (case ic of Some c \<Rightarrow> (c, s) | None \<Rightarrow> mx_Default b p s)"

definition sv_metricsClient :: "'p resolver" where
  "sv_metricsClient ic b p s = (case ic of Some c \<Rightarrow> (c, s) | None \<Rightarrow> mx_Default b p s)"

text \<open>The calls of a package while the installed provider changes.\<close>

locale injectable = default_client Default for Default :: "bool \<Rightarrow> 'p \<Rightarrow> 'p default_state \<Rightarrow> 'p client_ref \<times> 'p default_state" +
  fixes resolve :: "'p resolver"
  assumes resolve_injected: "resolve (Some c) b p s = (c, s)"
    and resolve_default: "resolve None b p s = Default b p s"
begin

lemma injected_calls: "default_calls (resolve (Some c) b) ps s = replicate (length ps) c"
  by (induction ps) (simp_all add: resolve_injected)

lemma default_resolved: "default_calls (resolve None b) ps s = default_calls (Default b) ps s"
  by (induction ps arbitrary: s) (simp_all add: resolve_default split: prod.split)

text \<open>An injected client gets every call; without one each call goes to the provider installed at that time.\<close>

lemma calls_routed:
  "cache_ok s \<Longrightarrow>
     (case ic of Some c \<Rightarrow> default_calls (resolve ic b) ps s = replicate (length ps) c
      | None \<Rightarrow> map cr_provider (default_calls (resolve ic b) ps s) = ps)"
  by (cases ic) (simp_all add: injected_calls default_resolved calls_follow_provider)

end

interpretation inj_p_mx: injectable mx_Default p_metricsClient
  by unfold_locales (simp_all add: p_metricsClient_def)

interpretation inj_p_tr: injectable tr_Default p_tracerClient
  by unfold_locales (simp_all add: p_tracerClient_def)

interpretation inj_c_mx: injectable mx_Default c_metricsClient
  by unfold_locales (simp_all add: c_metricsClient_def)

interpretation inj_c_tr: injectable tr_Default c_tracerClient
  by unfold_locales (simp_all add: c_tracerClient_def)

interpretation inj_db_mx: injectable mx_Default db_metricsClient
  by unfold_locales (simp_all add: db_metricsClient_def)

interpretation inj_db_tr: injectable tr_Default db_tracerClient
  by unfold_locales (simp_all add: db_tracerClient_def)

interpretation inj_rd_mx: injectable mx_Default rd_metricsClient
  by unfold_locales (simp_all add: rd_metricsClient_def)

interpretation inj_rd_tr: injectable tr_Default rd_tracerClient
  by unfold_locales (simp_all add: rd_tracerClient_def)

interpretation inj_s3_mx: injectable mx_Default s3_metricsClient
  by unfold_locales (simp_all add: s3_metricsClient_def)

interpretation inj_cron_mx: injectable mx_Default cron_metricsClient
  by unfold_locales (simp_all add: cron_metricsClient_def)

interpretation inj_cron_tr: injectable tr_Default cron_tracerClient
  by unfold_locales (simp_all add: cron_tracerClient_def)

interpretation inj_rc_mx: injectable mx_Default rc_metricsClient
  by unfold_locales (simp_all add: rc_metricsClient_def)

interpretation inj_sv_mx: injectable mx_Default sv_metricsClient
  by unfold_locales (simp_all add: sv_metricsClient_def)

text \<open>Where a sequence of calls goes, given the injected client and the providers installed at each call.\<close>

definition routed :: "'p client_ref option \<Rightarrow> 'p list \<Rightarrow> 'p client_ref list \<Rightarrow> bool" where
  "routed ic ps cs = (case ic of Some c \<Rightarrow> cs = replicate (length ps) c | None \<Rightarrow> map cr_provider cs = ps)"

text \<open>
  Telemetry goes where it was told. In every package, whatever providers are installed between calls, an injected client gets every call,
  and without one each call goes to a client of the provider that is installed at that time.
\<close>

theorem telemetry_routed:
  assumes "cache_ok s"
  shows "routed ic ps (default_calls (p_metricsClient ic b) ps s)
     \<and> routed ic ps (default_calls (p_tracerClient ic b) ps s)
     \<and> routed ic ps (default_calls (c_metricsClient ic b) ps s)
     \<and> routed ic ps (default_calls (c_tracerClient ic b) ps s)
     \<and> routed ic ps (default_calls (db_metricsClient ic b) ps s)
     \<and> routed ic ps (default_calls (db_tracerClient ic b) ps s)
     \<and> routed ic ps (default_calls (rd_metricsClient ic b) ps s)
     \<and> routed ic ps (default_calls (rd_tracerClient ic b) ps s)
     \<and> routed ic ps (default_calls (s3_metricsClient ic b) ps s)
     \<and> routed ic ps (default_calls (cron_metricsClient ic b) ps s)
     \<and> routed ic ps (default_calls (cron_tracerClient ic b) ps s)
     \<and> routed ic ps (default_calls (rc_metricsClient ic b) ps s)
     \<and> routed ic ps (default_calls (sv_metricsClient ic b) ps s)"
  unfolding routed_def
  by (intro conjI inj_p_mx.calls_routed inj_p_tr.calls_routed inj_c_mx.calls_routed inj_c_tr.calls_routed inj_db_mx.calls_routed inj_db_tr.calls_routed inj_rd_mx.calls_routed inj_rd_tr.calls_routed inj_s3_mx.calls_routed inj_cron_mx.calls_routed inj_cron_tr.calls_routed inj_rc_mx.calls_routed inj_sv_mx.calls_routed assms)

theorem telemetry_routed_witness:
  "routed None [3 :: nat, 4, 4] (default_calls (db_metricsClient None True) [3, 4, 4] \<lparr>ds_cached = None, ds_fresh = 0\<rparr>)"
proof -
  have "cache_ok (\<lparr>ds_cached = None, ds_fresh = 0\<rparr> :: nat default_state)" by (simp add: cache_ok_def)
  from telemetry_routed [OF this, of None "[3, 4, 4]" True] show ?thesis by blast
qed

text \<open>The last option decides, and a nil client asks for the default again.\<close>

lemma last_option_wins:
  "inj_metrics (fold (\<lambda>f. f) (fs @ [db_WithMetrics m]) o') = m"
  "inj_tracer (fold (\<lambda>f. f) (fs @ [db_WithTracer t]) o') = t"
  by (simp_all add: tel_option_defs)

end
