(* ===== verification/Gostyle_Ast.thy ===== *)
theory Gostyle_Ast
  imports Go_Errors Go_Net
begin

text \<open>
  The Go library the linter \<open>gostyle.go\<close> works on: the syntax tree of \<open>go/ast\<close> with
  \<open>Node.Pos\<close> and \<open>ast.Inspect\<close>, \<open>strconv.Unquote\<close>, \<open>strings.Fields\<close> and the lexical functions of
  \<open>path/filepath\<close>.

  A node is a value of \<open>node\<close>. The types the linter tells apart have a constructor each, with the
  fields it reads; every other type is an \<open>OtherNode\<close> with its position and its children in the
  order of \<open>ast.Walk\<close>. A block, a field list and the type of a declared function are the lists they
  hold. Identifiers that are fields (names of a field, of a value specification, of a selector) are
  their position and name. A call is its function and arguments. The parser gives each node its own
  source position, so that nodes that are equal values are the same node, and a Go map keyed by node
  is a set of values.
\<close>

subsection \<open>Syntax trees\<close>

type_synonym token_pos = nat
type_synonym name_at = "token_pos \<times> string"

datatype lit_kind = STRING | OtherLit

datatype gd_tok = TokConst | OtherTok

datatype node =
    Ident token_pos string
  | BasicLit token_pos lit_kind string
  | CompositeLit "node option" token_pos "node list"
  | ParenExpr token_pos node
  | SelectorExpr node name_at
  | IndexExpr node node
  | IndexListExpr node "node list"
  | CallExpr node "node list"
  | StarExpr token_pos node
  | UnaryExpr token_pos string node
  | KeyValueExpr node node
  | FuncLit token_pos "node list"
  | Field "name_at list" node
  | ExprStmt node
  | AssignStmt "node list" "node list"
  | ReturnStmt token_pos "node list"
  | IfStmt token_pos "node option" node "node list" "node option"
  | LabeledStmt name_at node
  | ValueSpec "name_at list" "node option" "node list"
  | GenDecl token_pos gd_tok "node list"
  | FuncDecl "node list option" name_at "node list" "node list" "node list option" "node list option"
  | OtherNode token_pos "node list"

text \<open>
  \<open>FuncDecl recv name typeparams params results body\<close>; \<open>IfStmt pos init cond body else\<close>;
  \<open>CompositeLit type lbrace elts\<close>.
\<close>

definition ident_of :: "name_at \<Rightarrow> node" where
  "ident_of x = Ident (fst x) (snd x)"

definition opt_list :: "'a list option \<Rightarrow> 'a list" where
  "opt_list x = (case x of None \<Rightarrow> [] | Some xs \<Rightarrow> xs)"

definition opt_one :: "'a option \<Rightarrow> 'a list" where
  "opt_one x = (case x of None \<Rightarrow> [] | Some y \<Rightarrow> [y])"

text \<open>The children of a node in the order of \<open>ast.Walk\<close>.\<close>

fun children :: "node \<Rightarrow> node list" where
  "children (Ident p s) = []"
| "children (BasicLit p k s) = []"
| "children (CompositeLit t p es) = opt_one t @ es"
| "children (ParenExpr p x) = [x]"
| "children (SelectorExpr x s) = [x, ident_of s]"
| "children (IndexExpr x i) = [x, i]"
| "children (IndexListExpr x is) = x # is"
| "children (CallExpr f as) = f # as"
| "children (StarExpr p x) = [x]"
| "children (UnaryExpr p op x) = [x]"
| "children (KeyValueExpr k v) = [k, v]"
| "children (FuncLit p ns) = ns"
| "children (Field ns t) = map ident_of ns @ [t]"
| "children (ExprStmt x) = [x]"
| "children (AssignStmt ls rs) = ls @ rs"
| "children (ReturnStmt p rs) = rs"
| "children (IfStmt p i c b e) = opt_one i @ [c] @ b @ opt_one e"
| "children (LabeledStmt l s) = [ident_of l, s]"
| "children (ValueSpec ns t vs) = map ident_of ns @ opt_one t @ vs"
| "children (GenDecl p k ss) = ss"
| "children (FuncDecl r n tps ps res b) = opt_list r @ [ident_of n] @ tps @ ps @ opt_list res @ opt_list b"
| "children (OtherNode p ns) = ns"

text \<open>\<open>Node.Pos\<close>.\<close>

fun node_pos :: "node \<Rightarrow> token_pos" where
  "node_pos (Ident p s) = p"
| "node_pos (BasicLit p k s) = p"
| "node_pos (CompositeLit t p es) = (case t of None \<Rightarrow> p | Some x \<Rightarrow> node_pos x)"
| "node_pos (ParenExpr p x) = p"
| "node_pos (SelectorExpr x s) = node_pos x"
| "node_pos (IndexExpr x i) = node_pos x"
| "node_pos (IndexListExpr x is) = node_pos x"
| "node_pos (CallExpr f as) = node_pos f"
| "node_pos (StarExpr p x) = p"
| "node_pos (UnaryExpr p op x) = p"
| "node_pos (KeyValueExpr k v) = node_pos k"
| "node_pos (FuncLit p ns) = p"
| "node_pos (Field ns t) = (case ns of [] \<Rightarrow> node_pos t | n # _ \<Rightarrow> fst n)"
| "node_pos (ExprStmt x) = node_pos x"
| "node_pos (AssignStmt ls rs) = (case ls of [] \<Rightarrow> 0 | l # _ \<Rightarrow> node_pos l)"
| "node_pos (ReturnStmt p rs) = p"
| "node_pos (IfStmt p i c b e) = p"
| "node_pos (LabeledStmt l s) = fst l"
| "node_pos (ValueSpec ns t vs) = (case ns of [] \<Rightarrow> 0 | n # _ \<Rightarrow> fst n)"
| "node_pos (GenDecl p k ss) = p"
| "node_pos (FuncDecl r n tps ps res b) = fst n"
| "node_pos (OtherNode p ns) = p"

text \<open>The weight of a node bounds the weight of its children.\<close>

lemma ident_size [simp]: "size (ident_of x) = 0"
  by (simp add: ident_of_def)

lemma opt_one_mem [simp]: "x \<in> set (opt_one t) \<longleftrightarrow> t = Some x"
  by (cases t) (auto simp: opt_one_def)

lemma list_size: "x \<in> set xs \<Longrightarrow> size x < Suc (size_list size xs)"
  by (induction xs) auto

lemma opt_list_size: "x \<in> set (opt_list t) \<Longrightarrow> size x < Suc (size_option (size_list size) t)"
  by (cases t) (auto simp: opt_list_def dest: list_size)

lemma children_size: "c \<in> set (children n) \<Longrightarrow> size c < size n"
  by (cases n) (auto dest!: list_size opt_list_size)

text \<open>
  \<open>ast.Inspect(n, f)\<close>: the nodes it calls \<open>f\<close> on, in order, where \<open>go\<close> says whether \<open>f\<close> returns true
  for a node, so that its children are visited.
\<close>

function inspect :: "(node \<Rightarrow> bool) \<Rightarrow> node \<Rightarrow> node list" where
  "inspect go n = n # (if go n then concat (map (inspect go) (children n)) else [])"
  by pat_completeness auto
termination
  by (relation "measure (\<lambda>(go, n). size n)") (auto dest: children_size)

declare inspect.simps [simp del]

definition all_nodes :: "node \<Rightarrow> node list" where
  "all_nodes n = inspect (\<lambda>_. True) n"

lemma all_nodes_unfold: "all_nodes n = n # concat (map all_nodes (children n))"
  unfolding all_nodes_def by (subst inspect.simps) (simp add: comp_def cong: map_cong)

lemma all_nodes_self [simp, intro]: "n \<in> set (all_nodes n)"
  by (subst all_nodes_unfold) simp

lemma all_nodes_trans: "m \<in> set (all_nodes n) \<Longrightarrow> k \<in> set (all_nodes m) \<Longrightarrow> k \<in> set (all_nodes n)"
proof (induction n rule: measure_induct_rule [where f = size])
  case (less n)
  show ?case
  proof (cases "m = n")
    case False
    with less.prems(1) obtain c where "c \<in> set (children n)" "m \<in> set (all_nodes c)"
      by (subst (asm) all_nodes_unfold) auto
    with less show ?thesis
      by (subst all_nodes_unfold) (auto dest: children_size)
  qed (use less in simp)
qed

lemma child_in_nodes: "m \<in> set (all_nodes n) \<Longrightarrow> c \<in> set (children m) \<Longrightarrow> c \<in> set (all_nodes n)"
  by (rule all_nodes_trans) (auto simp: all_nodes_unfold [of m] intro!: bexI [of _ c])

text \<open>Every node of a list of trees; the linter inspects the body of a function this way.\<close>

definition body_nodes :: "node list \<Rightarrow> node list" where
  "body_nodes b = concat (map all_nodes b)"

lemma body_child: "m \<in> set (body_nodes b) \<Longrightarrow> c \<in> set (children m) \<Longrightarrow> c \<in> set (body_nodes b)"
  by (auto simp: body_nodes_def dest: child_in_nodes)

subsection \<open>strconv.Unquote\<close>

text \<open>
  The value of a string literal. The parser accepts only valid UTF-8, for which the bytes outside an
  escape are copied.
\<close>

definition utf8_encode :: "nat \<Rightarrow> string" where
  "utf8_encode r =
     (if r < 0x80 then [char_of r]
      else if r < 0x800 then [char_of (0xC0 + r div 64), char_of (0x80 + r mod 64)]
      else if r < 0x10000 then
        [char_of (0xE0 + r div 4096), char_of (0x80 + r div 64 mod 64), char_of (0x80 + r mod 64)]
      else [char_of (0xF0 + r div 262144), char_of (0x80 + r div 4096 mod 64),
            char_of (0x80 + r div 64 mod 64), char_of (0x80 + r mod 64)])"

definition valid_rune :: "nat \<Rightarrow> bool" where
  "valid_rune r \<longleftrightarrow> r < 0xD800 \<or> 0xE000 \<le> r \<and> r \<le> 0x10FFFF"

fun hex_run :: "nat \<Rightarrow> string \<Rightarrow> nat option" where
  "hex_run v [] = Some v"
| "hex_run v (c # cs) = (case hex_val c of None \<Rightarrow> None | Some d \<Rightarrow> hex_run (16 * v + d) cs)"

definition hex_escape :: "nat \<Rightarrow> string \<Rightarrow> nat option" where
  "hex_escape n s = (if length s < n then None else hex_run 0 (take n s))"

definition octal_escape :: "string \<Rightarrow> nat option" where
  "octal_escape s =
     (if length s < 3 \<or> \<not> list_all (byte_between CHR ''0'' CHR ''7'') (take 3 s) then None
      else let v = foldl (\<lambda>v c. 8 * v + (of_char c - 48)) 0 (take 3 s) in if v > 255 then None else Some v)"

text \<open>One escape after the backslash: the bytes it stands for and how much of the text it takes.\<close>

definition escape :: "string \<Rightarrow> (string \<times> nat) option" where
  "escape s =
     (case s of
        [] \<Rightarrow> None
      | c # r \<Rightarrow>
          if c = CHR ''a'' then Some ([CHR 7], 1) else if c = CHR ''b'' then Some ([CHR 8], 1)
          else if c = CHR ''f'' then Some ([CHR 12], 1) else if c = CHR ''n'' then Some ([CHR 10], 1)
          else if c = CHR ''r'' then Some ([CHR 13], 1) else if c = CHR ''t'' then Some ([CHR 9], 1)
          else if c = CHR ''v'' then Some ([CHR 11], 1)
          else if c = CHR 0x5C \<or> c = CHR 0x22 then Some ([c], 1)
          else if c = CHR ''x'' then map_option (\<lambda>v. ([char_of v], 3)) (hex_escape 2 r)
          else if c = CHR ''u'' \<or> c = CHR ''U'' then
            (let n = (if c = CHR ''u'' then 4 else 8)
             in case hex_escape n r of None \<Rightarrow> None
                | Some v \<Rightarrow> if valid_rune v then Some (utf8_encode v, n + 1) else None)
          else map_option (\<lambda>v. ([char_of v], 3)) (octal_escape s))"

lemma escape_advances: "escape s = Some (bs, k) \<Longrightarrow> 0 < k"
  by (auto simp: escape_def Let_def split: list.splits if_splits option.splits)

text \<open>What follows the opening quote of an interpreted literal.\<close>

function unquote_body :: "string \<Rightarrow> string option" where
  "unquote_body s =
     (case s of
        [] \<Rightarrow> None
      | c # r \<Rightarrow>
          if c = CHR 0x22 then (if r = [] then Some [] else None)
          else if c = CHR 0x0A then None
          else if c = CHR 0x5C then
            (case escape r of None \<Rightarrow> None
             | Some (bs, k) \<Rightarrow> map_option (\<lambda>t. bs @ t) (unquote_body (drop k r)))
          else map_option (\<lambda>t. c # t) (unquote_body r))"
  by pat_completeness auto
termination
  by (relation "measure length") auto

declare unquote_body.simps [simp del]

definition Unquote :: "string \<Rightarrow> string option" where
  "Unquote s =
     (case s of
        [] \<Rightarrow> None
      | c # r \<Rightarrow>
          if c = CHR 0x22 then unquote_body r
          else if c = CHR 0x60 then
            (if r \<noteq> [] \<and> last r = CHR 0x60 \<and> CHR 0x60 \<notin> set (butlast r)
             then Some (filter (\<lambda>x. x \<noteq> CHR 0x0D) (butlast r)) else None)
          else None)"

lemma unquote_body_quoted:
  "\<forall>c \<in> set s. \<not> c = CHR 0x22 \<and> \<not> c = CHR 0x5C \<and> \<not> c = CHR 0x0A \<Longrightarrow> unquote_body (s @ [CHR 0x22]) = Some s"
  by (induction s) (simp_all add: unquote_body.simps)

text \<open>A plain text in double quotes is its own value.\<close>

lemma Unquote_plain:
  "\<forall>c \<in> set s. \<not> c = CHR 0x22 \<and> \<not> c = CHR 0x5C \<and> \<not> c = CHR 0x0A \<Longrightarrow> Unquote (CHR 0x22 # s @ [CHR 0x22]) = Some s"
  by (simp add: Unquote_def unquote_body_quoted)

subsection \<open>strings.Fields\<close>

text \<open>The words of \<open>s\<close>, where \<open>w\<close> is the word read so far.\<close>

function fields_from :: "string \<Rightarrow> string \<Rightarrow> string list" where
  "fields_from w s =
     (case find (\<lambda>p. p \<noteq> [] \<and> prefix p s) space_seqs of
        Some p \<Rightarrow> (if w = [] then id else Cons w) (fields_from [] (drop (length p) s))
      | None \<Rightarrow> (case s of [] \<Rightarrow> (if w = [] then [] else [w]) | c # r \<Rightarrow> fields_from (w @ [c]) r))"
  by pat_completeness auto
termination
proof (relation "measure (\<lambda>(w, s). length s)")
  fix w s :: string and p
  assume "find (\<lambda>p. p \<noteq> [] \<and> prefix p s) space_seqs = Some p"
  then have "p \<noteq> [] \<and> prefix p s" by (auto simp: find_Some_iff)
  then have "0 < length p" "length p \<le> length s" by (auto dest: prefix_length_le)
  then have "length s - length p < length s" by linarith
  then show "(([], drop (length p) s), (w, s)) \<in> measure (\<lambda>(w, s). length s)" by simp
qed simp_all

declare fields_from.simps [simp del]

definition str_fields :: "string \<Rightarrow> string list" where
  "str_fields s = fields_from [] s"

subsection \<open>Package path/filepath\<close>

text \<open>\<open>Clean\<close> on Unix: \<open>st\<close> holds the elements kept so far, the last one first.\<close>

fun clean_elems :: "bool \<Rightarrow> string list \<Rightarrow> string list \<Rightarrow> string list" where
  "clean_elems rooted st [] = rev st"
| "clean_elems rooted st (x # xs) =
     (if x = [] \<or> x = ''.'' then clean_elems rooted st xs
      else if x = ''..'' then
        (case st of
           [] \<Rightarrow> clean_elems rooted (if rooted then [] else [x]) xs
         | y # ys \<Rightarrow> if y = ''..'' then clean_elems rooted (x # st) xs else clean_elems rooted ys xs)
      else clean_elems rooted (x # st) xs)"

definition path_Clean :: "string \<Rightarrow> string" where
  "path_Clean p =
     (let rooted = prefix ''/'' p;
          out = (if rooted then ''/'' else []) @ join_with ''/'' (clean_elems rooted [] (split_on CHR ''/'' p))
      in if out = [] then ''.'' else out)"

definition path_Join :: "string \<Rightarrow> string \<Rightarrow> string" where
  "path_Join a b = (if a = [] then (if b = [] then [] else path_Clean b) else path_Clean (a @ ''/'' @ b))"

definition path_Dir :: "string \<Rightarrow> string" where
  "path_Dir p = path_Clean (case last_byte_index CHR ''/'' p of None \<Rightarrow> [] | Some i \<Rightarrow> take (Suc i) p)"

end
