(* ===== verification/Gostyle_Rules.thy ===== *)
theory Gostyle_Rules
  imports Gostyle_Ast
begin

text \<open>
  The checker of \<open>gostyle.go\<close> and the rules that look at one file: findings, the
  \<open>gostyle:ignore\<close> comments, and the checks of declarations, of if statements, of calls in tests and
  of labels. A rule returns the findings it appends to the checker's, in order. \<open>uni\<close> is the Unicode
  part of \<open>strings.ToLower\<close>.
\<close>

subsection \<open>Checker and findings\<close>

record position =
  po_Filename :: string
  po_Line :: nat
  po_Column :: nat

record finding =
  fd_pos :: position
  fd_rule :: string
  fd_msg :: string

text \<open>
  A parsed file: package name, declarations, the comments of its groups in order, and what
  \<open>ast.IsGenerated\<close> says of it.
\<close>

record go_file =
  f_Name :: string
  f_Decls :: "node list"
  f_Comments :: "(token_pos \<times> string) list"
  f_generated :: bool

text \<open>
  The file set is the position of every \<open>token.Pos\<close> and the number of files added so far; \<open>dirs\<close>
  lists the directories in the order of their first file.
\<close>

record checker =
  fset_Position :: "token_pos \<Rightarrow> position"
  fset_files :: nat
  findings :: "finding list"
  ignores :: "string \<rightharpoonup> (nat \<Rightarrow> string list)"
  dirs :: "(string \<times> go_file list) list"

record fileCtx =
  fc_checker :: checker
  fc_file :: go_file
  fc_pkg :: string
  fc_isTest :: bool
  fc_isMain :: bool

definition decisions :: string where "decisions = ''https://google.github.io/styleguide/go/decisions''"
definition practices :: string where "practices = ''https://google.github.io/styleguide/go/best-practices''"

definition ruleDocs :: "(string \<times> string) list" where
  "ruleDocs =
     [(''getter-prefix'', decisions @ ''#getters''),
      (''error-concrete-return'', decisions @ ''#returning-errors''),
      (''error-log-and-return'', practices @ ''#error-logging''),
      (''library-panic'', decisions @ ''#dont-panic''),
      (''constructor-stutter'', decisions @ ''#repetitive-with-package''),
      (''const-k-prefix'', decisions @ ''#constant-names''),
      (''receiver-name'', decisions @ ''#receiver-names''),
      (''test-message'', decisions @ ''#got-before-want''),
      (''labeled-branch'', ''https://google.github.io/styleguide/go/guide#simplicity''),
      (''canonical-method'', ''https://go.dev/doc/effective_go#interface-names''),
      (''error-type-message'', ''https://opentelemetry.io/docs/specs/semconv/attributes-registry/error/''),
      (''metric-high-cardinality'', ''https://opentelemetry.io/docs/specs/semconv/general/metrics/'')]"

text \<open>A missing key of a Go map of strings reads as the empty string.\<close>

definition str_lookup :: "(string \<times> string) list \<Rightarrow> string \<Rightarrow> string" where
  "str_lookup m k = (case map_of m k of None \<Rightarrow> [] | Some v \<Rightarrow> v)"

subsection \<open>Suppression\<close>

text \<open>The loop over the rule names: an unknown name drops the directive.\<close>

fun ignore_rules :: "string list \<Rightarrow> string list \<Rightarrow> string list" where
  "ignore_rules rules [] = rules"
| "ignore_rules rules (r # rs) =
     (if r = [] \<or> str_lookup ruleDocs r = [] then [] else ignore_rules (rules @ [r]) rs)"

definition parseIgnore :: "string \<Rightarrow> string list" where
  "parseIgnore txt =
     (if \<not> prefix ''//'' txt then []
      else let body = trim_space (drop 2 txt)
           in if \<not> prefix ''gostyle:ignore '' body \<and> \<not> prefix (''gostyle:ignore'' @ [CHR 0x09]) body then []
              else let fields = str_fields (drop 14 body)
                   in if length fields < 2 then [] else ignore_rules [] (split_on CHR '','' (hd fields)))"

definition isIgnored :: "checker \<Rightarrow> token_pos \<Rightarrow> string \<Rightarrow> bool" where
  "isIgnored c p rule =
     (let pos = fset_Position c p
      in case ignores c (po_Filename pos) of None \<Rightarrow> False | Some m \<Rightarrow> rule \<in> set (m (po_Line pos)))"

definition reportAt :: "checker \<Rightarrow> token_pos \<Rightarrow> string \<Rightarrow> string \<Rightarrow> finding list" where
  "reportAt c p rule msg =
     (if isIgnored c p rule then [] else [\<lparr>fd_pos = fset_Position c p, fd_rule = rule, fd_msg = msg\<rparr>])"

definition report :: "fileCtx \<Rightarrow> node \<Rightarrow> string \<Rightarrow> string \<Rightarrow> finding list" where
  "report fc n rule msg = reportAt (fc_checker fc) (node_pos n) rule msg"

text \<open>The part of \<open>checkFile\<close> that collects the suppressed rules of each line.\<close>

definition add_ignore :: "checker \<Rightarrow> (token_pos \<times> string) \<Rightarrow> (nat \<Rightarrow> string list) \<Rightarrow> nat \<Rightarrow> string list" where
  "add_ignore c cm m =
     (let rules = parseIgnore (snd cm); line = po_Line (fset_Position c (fst cm))
      in if rules = [] then m
         else let m1 = m(line := m line @ rules) in m1(line + 1 := m1 (line + 1) @ rules))"

definition collect_ignores :: "checker \<Rightarrow> (token_pos \<times> string) list \<Rightarrow> nat \<Rightarrow> string list" where
  "collect_ignores c cms = fold (add_ignore c) cms (\<lambda>_. [])"

subsection \<open>Helpers\<close>

definition upper_case :: "char \<Rightarrow> bool" where "upper_case c = byte_between CHR ''A'' CHR ''Z'' c"

definition testFuncRe :: "string \<Rightarrow> bool" where
  "testFuncRe s = list_ex (\<lambda>p. prefix p s) [''Test'', ''Benchmark'', ''Example'', ''Fuzz'']"

fun getterRe :: "string \<Rightarrow> bool" where
  "getterRe (g # e # t # u # _) \<longleftrightarrow> (g = CHR ''G'' \<or> g = CHR ''g'') \<and> e = CHR ''e'' \<and> t = CHR ''t'' \<and> upper_case u"
| "getterRe _ \<longleftrightarrow> False"

fun kConstRe :: "string \<Rightarrow> bool" where
  "kConstRe (k # u # _) \<longleftrightarrow> k = CHR ''k'' \<and> upper_case u"
| "kConstRe _ \<longleftrightarrow> False"

definition logMethods :: "string list" where
  "logMethods = [''Print'', ''Printf'', ''Println'', ''Error'', ''Errorf'', ''ErrorContext'', ''Warn'', ''Warnf'',
     ''WarnContext'', ''Info'', ''Infof'', ''Log'', ''Logf'']"

definition mentionsErr :: "node \<Rightarrow> bool" where
  "mentionsErr n = list_ex (\<lambda>m. case m of Ident _ s \<Rightarrow> s = ''err'' | _ \<Rightarrow> False) (all_nodes n)"

fun typeName :: "node \<Rightarrow> string" where
  "typeName (Ident p s) = s"
| "typeName (SelectorExpr x s) = snd s"
| "typeName (IndexExpr x i) = typeName x"
| "typeName (IndexListExpr x is) = typeName x"
| "typeName (StarExpr p x) = typeName x"
| "typeName _ = []"

fun fieldNames :: "node \<Rightarrow> name_at list" where
  "fieldNames (Field ns t) = ns"
| "fieldNames _ = []"

fun fieldType :: "node \<Rightarrow> node" where
  "fieldType (Field ns t) = t"
| "fieldType n = n"

definition fieldCount :: "node list \<Rightarrow> nat" where
  "fieldCount fl = sum_list (map (\<lambda>f. max (length (fieldNames f)) 1) fl)"

fun exprString :: "node \<Rightarrow> string" where
  "exprString (Ident p s) = s"
| "exprString (SelectorExpr x s) = exprString x @ ''.'' @ snd s"
| "exprString (CallExpr f as) = exprString f @ ''()''"
| "exprString _ = []"

fun isIdent :: "node \<Rightarrow> string \<Rightarrow> bool" where
  "isIdent (Ident p s) name = (s = name)"
| "isIdent _ name = False"

subsection \<open>Rules of one file\<close>

definition receiver_findings :: "fileCtx \<Rightarrow> node list option \<Rightarrow> finding list" where
  "receiver_findings fc recv =
     (case recv of
        Some [f] \<Rightarrow>
          (case fieldNames f of
             [r] \<Rightarrow>
               (if snd r = ''_'' then
                  report fc (ident_of r) ''receiver-name'' ''omit an unused receiver name instead of using _''
                else if length (snd r) > 3 then
                  report fc (ident_of r) ''receiver-name''
                    (''receiver '' @ quote_text (snd r) @ '' is long; use a one- or two-letter abbreviation of the type'')
                else [])
           | _ \<Rightarrow> [])
      | _ \<Rightarrow> [])"

definition result_findings :: "fileCtx \<Rightarrow> node list option \<Rightarrow> finding list" where
  "result_findings fc results =
     (case results of
        None \<Rightarrow> []
      | Some res \<Rightarrow>
          if 2 \<le> fieldCount res then
            (case fieldType (last res) of
               StarExpr p x \<Rightarrow>
                 (if suffix ''Error'' (typeName x) then
                    report fc (StarExpr p x) ''error-concrete-return''
                      (''return the error interface, not *'' @ typeName x
                       @ ''; a nil concrete pointer becomes a non-nil error'')
                  else [])
             | _ \<Rightarrow> [])
          else [])"

definition is_FuncLit :: "node \<Rightarrow> bool" where
  "is_FuncLit n = (case n of FuncLit _ _ \<Rightarrow> True | _ \<Rightarrow> False)"

definition panic_findings :: "fileCtx \<Rightarrow> node list \<Rightarrow> finding list" where
  "panic_findings fc body =
     concat (map (\<lambda>n. case n of
                        CallExpr f as \<Rightarrow>
                          (if isIdent f ''panic'' then
                             report fc n ''library-panic'' ''library code returns errors; panic only for API misuse or broken invariants, and never across the package boundary''
                           else [])
                      | _ \<Rightarrow> [])
       (concat (map (inspect (\<lambda>n. \<not> is_FuncLit n)) body)))"

definition checkFuncDecl ::
  "(string \<Rightarrow> string) \<Rightarrow> fileCtx \<Rightarrow> node list option \<Rightarrow> name_at \<Rightarrow> node list option \<Rightarrow> node list option \<Rightarrow> finding list" where
  "checkFuncDecl uni fc recv nm results body =
     (let name = snd nm;
          pkg = fc_pkg fc;
          isTestFunc = (fc_isTest fc \<and> recv = None \<and> testFuncRe name)
      in (if recv \<noteq> None \<and> (name = ''ToString'' \<or> name = ''toString'') then
            report fc (ident_of nm) ''canonical-method'' ''name the string conversion String() so fmt and %v use it''
          else [])
         @ (if getterRe name \<and> \<not> isTestFunc then
              report fc (ident_of nm) ''getter-prefix''
                (''drop the Get prefix ('' @ name @ '' -> '' @ drop 3 name @ '') unless the concept is literally ''
                 @ quote_text ''get'' @ '' (e.g. HTTP GET); use Fetch/Compute/Load for slow or remote work'')
            else [])
         @ (if recv = None \<and> \<not> fc_isMain fc \<and> \<not> fc_isTest fc \<and> length pkg > 1 \<and> prefix ''New'' name
               \<and> prefix pkg (to_lower uni (drop 3 name)) then
              report fc (ident_of nm) ''constructor-stutter''
                (pkg @ ''.'' @ name @ '' repeats the package name; use '' @ pkg @ ''.New (single primary type) or ''
                 @ pkg @ ''.New<Type>'')
            else [])
         @ receiver_findings fc recv
         @ result_findings fc results
         @ (case body of
              None \<Rightarrow> []
            | Some b \<Rightarrow>
                if fc_isMain fc \<or> fc_isTest fc \<or> name = ''init'' \<or> prefix ''Must'' name \<or> prefix ''must'' name then []
                else panic_findings fc b))"

definition logs_err :: "(string \<Rightarrow> string) \<Rightarrow> node \<Rightarrow> bool" where
  "logs_err uni st =
     (case st of
        ExprStmt (CallExpr (SelectorExpr x s) as) \<Rightarrow>
          snd s \<in> set logMethods \<and> contains (to_lower uni (exprString x)) ''log''
          \<and> mentionsErr (CallExpr (SelectorExpr x s) as)
      | _ \<Rightarrow> False)"

definition returns_err :: "node \<Rightarrow> bool" where
  "returns_err st = (case st of ReturnStmt p rs \<Rightarrow> mentionsErr st | _ \<Rightarrow> False)"

definition checkLogAndReturn :: "(string \<Rightarrow> string) \<Rightarrow> fileCtx \<Rightarrow> node \<Rightarrow> node list \<Rightarrow> finding list" where
  "checkLogAndReturn uni fc n body =
     (if list_ex (logs_err uni) body \<and> list_ex returns_err body then
        report fc n ''error-log-and-return'' ''error is both logged and returned; return it with context and let the caller decide whether to log''
      else [])"

definition checkTestMessage :: "(string \<Rightarrow> string) \<Rightarrow> fileCtx \<Rightarrow> node \<Rightarrow> node list \<Rightarrow> finding list" where
  "checkTestMessage uni fc f as =
     (if \<not> fc_isTest fc \<or> as = [] then []
      else case f of
        SelectorExpr x s \<Rightarrow>
          (if snd s \<noteq> ''Errorf'' \<and> snd s \<noteq> ''Fatalf'' then []
           else case hd as of
             BasicLit p STRING v \<Rightarrow>
               (case Unquote v of
                  None \<Rightarrow> []
                | Some t \<Rightarrow>
                    let lower = to_lower uni t
                    in case (str_index lower ''want'', str_index lower ''got'') of
                         (Some w, Some g) \<Rightarrow>
                           if w < g \<and> \<not> contains lower ''-want'' \<and> \<not> contains lower ''want)'' then
                             report fc (BasicLit p STRING v) ''test-message''
                               (''print got before want: '' @ quote_text ''Func(%v) = %v, want %v'')
                           else []
                       | _ \<Rightarrow> [])
           | _ \<Rightarrow> [])
      | _ \<Rightarrow> [])"

text \<open>The specifications of a constant declaration are value specifications.\<close>

definition const_findings :: "fileCtx \<Rightarrow> node \<Rightarrow> finding list" where
  "const_findings fc spec =
     (case spec of
        ValueSpec ns t vs \<Rightarrow>
          concat (map (\<lambda>x. if kConstRe (snd x) then
                              report fc (ident_of x) ''const-k-prefix''
                                (quote_text (snd x) @ '': do not prefix constants with k; name them for their role in MixedCaps'')
                            else []) ns)
      | _ \<Rightarrow> [])"

definition decl_findings :: "(string \<Rightarrow> string) \<Rightarrow> fileCtx \<Rightarrow> node \<Rightarrow> finding list" where
  "decl_findings uni fc d =
     (case d of
        FuncDecl recv nm tps ps results body \<Rightarrow> checkFuncDecl uni fc recv nm results body
      | GenDecl p tok specs \<Rightarrow> (if tok \<noteq> TokConst then [] else concat (map (const_findings fc) specs))
      | _ \<Rightarrow> [])"

definition node_findings :: "(string \<Rightarrow> string) \<Rightarrow> fileCtx \<Rightarrow> node \<Rightarrow> finding list" where
  "node_findings uni fc n =
     (case n of
        IfStmt p i cnd b e \<Rightarrow> checkLogAndReturn uni fc n b
      | CallExpr f as \<Rightarrow> checkTestMessage uni fc f as
      | LabeledStmt l s \<Rightarrow>
          report fc n ''labeled-branch''
            (''label '' @ quote_text (snd l) @ '' makes control flow hard to follow; use errgroup.SetLimit for bounded fan-out, or extract a function and return'')
      | _ \<Rightarrow> [])"

definition run_rules :: "(string \<Rightarrow> string) \<Rightarrow> fileCtx \<Rightarrow> finding list" where
  "run_rules uni fc =
     concat (map (decl_findings uni fc) (f_Decls (fc_file fc)))
     @ concat (map (node_findings uni fc) (body_nodes (f_Decls (fc_file fc))))"

subsection \<open>Suppression is exact\<close>

lemma ignore_rules_known:
  "\<forall>r \<in> set rules. map_of ruleDocs r \<noteq> None \<Longrightarrow> r \<in> set (ignore_rules rules rs) \<Longrightarrow> map_of ruleDocs r \<noteq> None"
proof (induction rs arbitrary: rules)
  case (Cons a rs)
  from Cons.prems have "str_lookup ruleDocs a \<noteq> []" "r \<in> set (ignore_rules (rules @ [a]) rs)" by (auto split: if_splits)
  with Cons.IH [of "rules @ [a]"] Cons.prems(1) show ?case by (simp add: str_lookup_def split: option.splits)
qed simp

lemma parseIgnore_known: "r \<in> set (parseIgnore t) \<Longrightarrow> map_of ruleDocs r \<noteq> None"
  using ignore_rules_known [of "[]" r] by (auto simp: parseIgnore_def Let_def split: if_splits)

lemma ignore_rules_all: "\<forall>r \<in> set rs. r \<noteq> [] \<and> str_lookup ruleDocs r \<noteq> [] \<Longrightarrow> ignore_rules rules rs = rules @ rs"
  by (induction rs arbitrary: rules) simp_all

text \<open>A byte that is part of no space.\<close>

definition word_byte :: "char \<Rightarrow> bool" where
  "word_byte c \<longleftrightarrow> (\<forall>p \<in> set space_seqs. c \<notin> set p)"

lemma space_seqs_ne: "p \<in> set space_seqs \<Longrightarrow> p \<noteq> []"
  by (auto simp: space_seqs_def)

lemma no_space_here: "word_byte c \<Longrightarrow> find (\<lambda>p. p \<noteq> [] \<and> prefix p (c # s)) space_seqs = None"
  by (force simp: find_None_iff word_byte_def neq_Nil_conv)

lemma fields_word: "\<forall>c \<in> set w. word_byte c \<Longrightarrow> fields_from v (w @ s) = fields_from (v @ w) s"
proof (induction w arbitrary: v)
  case (Cons c w)
  then show ?case by (subst fields_from.simps) (simp add: no_space_here del: find.simps)
qed simp

lemma fields_space: "v \<noteq> [] \<Longrightarrow> fields_from v (CHR 0x20 # s) = v # fields_from [] s"
  by (subst fields_from.simps) (simp add: space_seqs_def)

lemma fields_space_start: "fields_from [] (CHR 0x20 # s) = fields_from [] s"
  by (subst fields_from.simps) (simp add: space_seqs_def)

lemma fields_nonempty: "v \<noteq> [] \<Longrightarrow> fields_from v s \<noteq> []"
proof (induction v s rule: fields_from.induct)
  case (1 w s)
  then show ?case by (subst fields_from.simps) (auto split: option.split list.split)
qed

lemma fields_starts: "word_byte c \<Longrightarrow> fields_from [] (c # s) \<noteq> []"
  using fields_word [of "[c]" "[]" s] fields_nonempty [of "[c]" s] by simp

lemma rule_names_plain:
  assumes "map_of ruleDocs r \<noteq> None"
  shows "r \<noteq> [] \<and> str_lookup ruleDocs r \<noteq> [] \<and> CHR '','' \<notin> set r \<and> (\<forall>c \<in> set r. word_byte c)"
proof -
  have "\<forall>e \<in> set ruleDocs. fst e \<noteq> [] \<and> snd e \<noteq> [] \<and> CHR '','' \<notin> set (fst e) \<and> (\<forall>c \<in> set (fst e). word_byte c)"
    by code_simp
  with assms show ?thesis by (force simp: str_lookup_def dest: map_of_SomeD)
qed

lemma trim_one_space:
  assumes "s \<noteq> []" and "word_byte (hd s)" and "word_byte (last s)"
  shows "trim_space (CHR 0x20 # s) = s"
proof -
  have keep: "strip_seqs ps t = t" if "t \<noteq> []" "\<forall>p \<in> set ps. hd t \<notin> set p" for ps t
    using that by (intro strip_seqs_id) (auto simp: neq_Nil_conv)
  have "trim_left (CHR 0x20 # s) = strip_seqs space_seqs s"
    unfolding trim_left_def by (subst strip_seqs.simps) (simp add: space_seqs_def)
  also have "\<dots> = s" using assms by (intro keep) (auto simp: word_byte_def)
  finally have "trim_left (CHR 0x20 # s) = s" .
  moreover have "strip_seqs (map rev space_seqs) (rev s) = rev s"
    using assms by (intro keep) (auto simp: word_byte_def hd_rev)
  ultimately show ?thesis by (simp add: trim_space_def trim_right_def)
qed

lemma join_bytes: "c \<in> set (join_with sep ws) \<Longrightarrow> c \<in> set sep \<or> (\<exists>w \<in> set ws. c \<in> set w)"
  by (induction sep ws rule: join_with.induct) auto

text \<open>
  The directive is read back: the comment \<open>// gostyle:ignore r1,...,rn reason\<close> suppresses exactly the
  rules it lists, in order, for any known rules and any reason that begins and ends with a word.
\<close>

theorem parseIgnore_directive:
  assumes "rules \<noteq> []" and "\<forall>r \<in> set rules. map_of ruleDocs r \<noteq> None"
    and "reason \<noteq> []" and "word_byte (hd reason)" and "word_byte (last reason)"
  shows "parseIgnore (''// gostyle:ignore '' @ join_with '','' rules @ '' '' @ reason) = rules"
proof -
  let ?names = "join_with '','' rules"
  let ?body = "''gostyle:ignore '' @ ?names @ '' '' @ reason"
  have plain: "r \<noteq> [] \<and> str_lookup ruleDocs r \<noteq> [] \<and> CHR '','' \<notin> set r \<and> (\<forall>c \<in> set r. word_byte c)" if "r \<in> set rules" for r
    using that assms(2) rule_names_plain by blast
  have names: "\<forall>c \<in> set ?names. word_byte c"
    using plain join_bytes [of _ "'',''" rules] by (auto simp: word_byte_def space_seqs_def)
  have ne: "?names \<noteq> []" using assms(1) plain by (cases rules rule: remdups_adj.cases) auto
  have trim: "trim_space (CHR 0x20 # ?body) = ?body"
    using assms(3, 5) by (intro trim_one_space) (auto simp: word_byte_def space_seqs_def)
  have "str_fields (drop 14 ?body) = ?names # fields_from [] reason"
    using fields_word [OF names, of "[]" "'' '' @ reason"] ne by (simp add: str_fields_def fields_space fields_space_start)
  moreover have "fields_from [] reason \<noteq> []" using assms(3, 4) fields_starts [of "hd reason" "tl reason"] by simp
  moreover have "ignore_rules [] (split_on CHR '','' ?names) = rules"
    using plain assms(1) by (simp add: ignore_rules_all)
  ultimately show ?thesis using trim by (simp add: parseIgnore_def Let_def)
qed

theorem parseIgnore_directive_witness:
  "parseIgnore (''// gostyle:ignore '' @ join_with '','' [''getter-prefix'', ''library-panic''] @ '' '' @ ''mirrors HTTP GET'')
   = [''getter-prefix'', ''library-panic'']"
proof (rule parseIgnore_directive)
  show "\<forall>r \<in> set [''getter-prefix'', ''library-panic'']. map_of ruleDocs r \<noteq> None" by code_simp
  show "word_byte (hd ''mirrors HTTP GET'')" "word_byte (last ''mirrors HTTP GET'')" by code_simp+
qed simp_all

definition comment_line :: "checker \<Rightarrow> (token_pos \<times> string) \<Rightarrow> nat" where
  "comment_line c cm = po_Line (fset_Position c (fst cm))"

lemma add_ignore_iff:
  "r \<in> set (add_ignore c cm m l) \<longleftrightarrow>
     r \<in> set (m l) \<or> r \<in> set (parseIgnore (snd cm)) \<and> (l = comment_line c cm \<or> l = comment_line c cm + 1)"
  by (auto simp: add_ignore_def Let_def comment_line_def)

text \<open>A rule is suppressed on a line when a directive on that line or the line above names it.\<close>

lemma collect_ignores_iff:
  "r \<in> set (collect_ignores c cms l) \<longleftrightarrow>
     (\<exists>cm \<in> set cms. r \<in> set (parseIgnore (snd cm)) \<and> (l = comment_line c cm \<or> l = comment_line c cm + 1))"
proof -
  have "r \<in> set (fold (add_ignore c) cms m l) \<longleftrightarrow>
     r \<in> set (m l) \<or> (\<exists>cm \<in> set cms. r \<in> set (parseIgnore (snd cm)) \<and> (l = comment_line c cm \<or> l = comment_line c cm + 1))" for m
    by (induction cms arbitrary: m) (auto simp: add_ignore_iff)
  then show ?thesis by (simp add: collect_ignores_def)
qed

text \<open>A finding that a checker may hold: a known rule, at a position where it is not suppressed.\<close>

definition lawful :: "checker \<Rightarrow> finding \<Rightarrow> bool" where
  "lawful c f \<longleftrightarrow>
     map_of ruleDocs (fd_rule f) \<noteq> None \<and> (\<exists>p. fd_pos f = fset_Position c p \<and> \<not> isIgnored c p (fd_rule f))"

lemma reportAt_lawful: "map_of ruleDocs rule \<noteq> None \<Longrightarrow> f \<in> set (reportAt c p rule msg) \<Longrightarrow> lawful c f"
  by (auto simp: reportAt_def lawful_def split: if_splits)

lemma report_lawful: "map_of ruleDocs rule \<noteq> None \<Longrightarrow> f \<in> set (report fc n rule msg) \<Longrightarrow> lawful (fc_checker fc) f"
  by (simp add: report_def reportAt_lawful)

lemma known_rules [simp]:
  "map_of ruleDocs ''getter-prefix'' \<noteq> None" "map_of ruleDocs ''error-concrete-return'' \<noteq> None"
  "map_of ruleDocs ''error-log-and-return'' \<noteq> None" "map_of ruleDocs ''library-panic'' \<noteq> None"
  "map_of ruleDocs ''constructor-stutter'' \<noteq> None" "map_of ruleDocs ''const-k-prefix'' \<noteq> None"
  "map_of ruleDocs ''receiver-name'' \<noteq> None" "map_of ruleDocs ''test-message'' \<noteq> None"
  "map_of ruleDocs ''labeled-branch'' \<noteq> None" "map_of ruleDocs ''canonical-method'' \<noteq> None"
  "map_of ruleDocs ''error-type-message'' \<noteq> None" "map_of ruleDocs ''metric-high-cardinality'' \<noteq> None"
  by (simp_all add: ruleDocs_def)

lemmas lawful_report = known_rules [THEN report_lawful]

lemma receiver_lawful: "f \<in> set (receiver_findings fc recv) \<Longrightarrow> lawful (fc_checker fc) f"
  by (auto simp: receiver_findings_def split: option.splits list.splits if_splits intro: lawful_report)

lemma result_lawful: "f \<in> set (result_findings fc res) \<Longrightarrow> lawful (fc_checker fc) f"
proof (cases res)
  case (Some rs)
  assume f: "f \<in> set (result_findings fc res)"
  show ?thesis
  proof (cases "fieldType (last rs)")
    case (StarExpr p x)
    have "f \<in> set (report fc (StarExpr p x) ''error-concrete-return''
        (''return the error interface, not *'' @ typeName x @ ''; a nil concrete pointer becomes a non-nil error''))"
      using f Some StarExpr unfolding result_findings_def by (simp only: option.case node.case split: if_splits) simp_all
    then show ?thesis by (rule lawful_report)
  qed (use f Some in \<open>cases "2 \<le> fieldCount rs"; simp add: result_findings_def\<close>)+
qed (simp add: result_findings_def)

lemma panic_lawful: "f \<in> set (panic_findings fc b) \<Longrightarrow> lawful (fc_checker fc) f"
  by (auto simp: panic_findings_def split: node.splits if_splits intro: lawful_report)

lemma checkFuncDecl_lawful: "f \<in> set (checkFuncDecl uni fc recv nm res body) \<Longrightarrow> lawful (fc_checker fc) f"
  by (auto simp: checkFuncDecl_def Let_def split: option.splits if_splits
      intro: lawful_report receiver_lawful result_lawful panic_lawful)

lemma test_message_lawful: "f \<in> set (checkTestMessage uni fc g as) \<Longrightarrow> lawful (fc_checker fc) f"
proof (cases g)
  case (SelectorExpr x s)
  assume f: "f \<in> set (checkTestMessage uni fc g as)"
  show ?thesis
  proof (cases "hd as")
    case (BasicLit p k v)
    with f SelectorExpr show ?thesis
      by (cases k) (auto simp: checkTestMessage_def Let_def split: option.splits if_splits intro: lawful_report)
  qed (use f SelectorExpr in \<open>simp_all add: checkTestMessage_def split: if_splits\<close>)
qed (simp_all add: checkTestMessage_def split: if_splits)

lemma node_findings_lawful: "f \<in> set (node_findings uni fc n) \<Longrightarrow> lawful (fc_checker fc) f"
  by (cases n) (auto simp: node_findings_def checkLogAndReturn_def split: if_splits intro: lawful_report test_message_lawful)

lemma decl_findings_lawful: "f \<in> set (decl_findings uni fc d) \<Longrightarrow> lawful (fc_checker fc) f"
  by (cases d) (auto simp: decl_findings_def const_findings_def split: node.splits if_splits
      intro: lawful_report checkFuncDecl_lawful)

lemma run_rules_lawful: "f \<in> set (run_rules uni fc) \<Longrightarrow> lawful (fc_checker fc) f"
  by (auto simp: run_rules_def intro: decl_findings_lawful node_findings_lawful)

end
