(* ===== verification/Gostyle_Search.thy ===== *)
theory Gostyle_Search
  imports Main
begin

text \<open>
  The contract of a recursive search that marks what it has seen, as both searches of the telemetry
  rules of \<open>gostyle.go\<close> do. A call has a key, the node that is marked; a call whose key is marked
  returns at once. Otherwise the call marks its key, stops the whole search when it is a hit, and
  makes the calls \<open>nxt\<close> in order; on the way it adds \<open>out\<close> to what the search observes. The state
  is the marked keys and what has been observed; \<open>None\<close> is a search that was stopped by a hit.

  \<open>calls\<close> is a set of calls the search stays in, with finitely many keys. In \<open>owned_search\<close> a key
  belongs to one call. Then the search that starts with nothing marked observes just the outputs of
  the reachable calls and is stopped exactly when a hit is reachable.
\<close>

type_synonym ('n, 'o) found = "'n set \<times> 'o set"

locale seen_search =
  fixes key :: "'c \<Rightarrow> 'n"
    and nxt :: "'c \<Rightarrow> 'c list"
    and hit :: "'c \<Rightarrow> bool"
    and out :: "'c \<Rightarrow> 'o set"
    and run :: "'c list \<Rightarrow> ('n, 'o) found \<Rightarrow> ('n, 'o) found option"
    and calls :: "'c set"
  assumes run_Nil: "run [] s = Some s"
    and run_seen: "key c \<in> fst s \<Longrightarrow> run (c # cs) s = run cs s"
    and run_hit: "key c \<notin> fst s \<Longrightarrow> hit c \<Longrightarrow> run (c # cs) s = None"
    and run_new: "key c \<notin> fst s \<Longrightarrow> \<not> hit c \<Longrightarrow> c \<in> calls \<Longrightarrow>
      run (c # cs) s = Option.bind (run (nxt c) (insert (key c) (fst s), snd s \<union> out c)) (run cs)"
    and finite_keys: "finite (key ` calls)"
    and calls_closed: "c \<in> calls \<Longrightarrow> set (nxt c) \<subseteq> calls"
begin

definition reach :: "'c list \<Rightarrow> 'c set" where
  "reach cs = {d. \<exists>c \<in> set cs. (\<lambda>a b. b \<in> set (nxt a))\<^sup>*\<^sup>* c d}"

lemma reach_self: "c \<in> set cs \<Longrightarrow> c \<in> reach cs"
  by (auto simp: reach_def)

lemma reach_next: "c \<in> reach cs \<Longrightarrow> d \<in> set (nxt c) \<Longrightarrow> d \<in> reach cs"
  unfolding reach_def by (auto intro: rtranclp.rtrancl_into_rtrancl)

lemma reach_head: "d \<in> reach (nxt c) \<Longrightarrow> d \<in> reach (c # cs)"
  unfolding reach_def by (auto intro: converse_rtranclp_into_rtranclp)

lemma reach_tail: "d \<in> reach cs \<Longrightarrow> d \<in> reach (c # cs)"
  by (auto simp: reach_def)

lemma reach_calls: "set cs \<subseteq> calls \<Longrightarrow> reach cs \<subseteq> calls"
proof
  fix d assume *: "set cs \<subseteq> calls" "d \<in> reach cs"
  then obtain c where "c \<in> calls" "(\<lambda>a b. b \<in> set (nxt a))\<^sup>*\<^sup>* c d" by (auto simp: reach_def)
  from this(2, 1) show "d \<in> calls" by (induction rule: rtranclp_induct) (auto dest: calls_closed)
qed

text \<open>What a finished search guarantees of the state \<open>t\<close> it ends in, from \<open>s\<close>.\<close>

definition explored :: "'c list \<Rightarrow> ('n, 'o) found \<Rightarrow> ('n, 'o) found \<Rightarrow> bool" where
  "explored cs s t \<longleftrightarrow>
     fst s \<subseteq> fst t \<and> snd s \<subseteq> snd t \<and> key ` set cs \<subseteq> fst t
     \<and> (\<forall>n \<in> fst t - fst s. \<exists>c \<in> reach cs. key c = n \<and> \<not> hit c \<and> out c \<subseteq> snd t \<and> key ` set (nxt c) \<subseteq> fst t)
     \<and> (\<forall>x \<in> snd t - snd s. \<exists>c \<in> reach cs. x \<in> out c)"

lemma explored_visited:
  "explored cs s t \<Longrightarrow> n \<in> fst t \<Longrightarrow> n \<notin> fst s \<Longrightarrow>
     \<exists>c \<in> reach cs. key c = n \<and> \<not> hit c \<and> out c \<subseteq> snd t \<and> key ` set (nxt c) \<subseteq> fst t"
  by (simp add: explored_def)

lemma explored_out: "explored cs s t \<Longrightarrow> x \<in> snd t \<Longrightarrow> x \<notin> snd s \<Longrightarrow> \<exists>c \<in> reach cs. x \<in> out c"
  by (simp add: explored_def)

lemma explored_grows: "explored cs s t \<Longrightarrow> fst s \<subseteq> fst t \<and> snd s \<subseteq> snd t \<and> key ` set cs \<subseteq> fst t"
  by (simp add: explored_def)

lemma explored_Cons:
  assumes "explored (nxt c) (insert (key c) (fst s), snd s \<union> out c) u" and "explored cs u t"
    and "\<not> hit c"
  shows "explored (c # cs) s t"
  unfolding explored_def
proof (intro conjI ballI)
  show "fst s \<subseteq> fst t" "snd s \<subseteq> snd t" "key ` set (c # cs) \<subseteq> fst t"
    using assms(1, 2) [THEN explored_grows] by auto
next
  fix n assume n: "n \<in> fst t - fst s"
  note up = explored_grows [OF assms(2)] and head = explored_grows [OF assms(1)]
  consider "n = key c" | "n \<in> fst u - insert (key c) (fst s)" | "n \<in> fst t - fst u" using n by auto
  then show "\<exists>d \<in> reach (c # cs). key d = n \<and> \<not> hit d \<and> out d \<subseteq> snd t \<and> key ` set (nxt d) \<subseteq> fst t"
  proof cases
    case 1
    have "c \<in> reach (c # cs)" by (rule reach_self) simp
    with 1 head up assms(3) show ?thesis by (intro bexI [of _ c]) auto
  next
    case 2
    with assms(1) obtain d where "d \<in> reach (nxt c)" "key d = n" "\<not> hit d" "out d \<subseteq> snd u" "key ` set (nxt d) \<subseteq> fst u"
      using explored_visited [of _ _ u n] by fastforce
    with up show ?thesis by (intro bexI [of _ d]) (auto intro: reach_head)
  next
    case 3
    with assms(2) obtain d where "d \<in> reach cs" "key d = n" "\<not> hit d" "out d \<subseteq> snd t" "key ` set (nxt d) \<subseteq> fst t"
      using explored_visited [of cs u t n] by auto
    then show ?thesis by (intro bexI [of _ d]) (auto intro: reach_tail)
  qed
next
  fix x assume "x \<in> snd t - snd s"
  then consider "x \<in> out c" | "x \<in> snd u - (snd s \<union> out c)" | "x \<in> snd t - snd u" by auto
  then show "\<exists>d \<in> reach (c # cs). x \<in> out d"
  proof cases
    case 1
    then show ?thesis by (auto intro!: bexI [of _ c] reach_self)
  next
    case 2
    with explored_out [OF assms(1), of x] obtain d where "d \<in> reach (nxt c)" "x \<in> out d" by auto
    then show ?thesis by (auto intro: reach_head)
  next
    case 3
    with explored_out [OF assms(2), of x] obtain d where "d \<in> reach cs" "x \<in> out d" by auto
    then show ?thesis by (auto intro: reach_tail)
  qed
qed

lemma explored_skip: "key c \<in> fst s \<Longrightarrow> explored cs s t \<Longrightarrow> explored (c # cs) s t"
  unfolding explored_def by (simp, meson reach_tail subsetD)

lemma fewer_keys: "c \<in> calls \<Longrightarrow> key c \<notin> A \<Longrightarrow> insert (key c) A \<subseteq> B \<Longrightarrow> card (key ` calls - B) < card (key ` calls - A)"
  using finite_keys by (intro psubset_card_mono) auto

text \<open>A search either finishes, having explored its calls, or was stopped by a reachable hit.\<close>

lemma run_outcome:
  "set cs \<subseteq> calls \<Longrightarrow>
     (case run cs s of Some t \<Rightarrow> explored cs s t | None \<Rightarrow> \<exists>c \<in> reach cs. hit c)"
proof (induction "card (key ` calls - fst s)" arbitrary: cs s rule: less_induct)
  case less
  from less.prems show ?case
  proof (induction cs)
    case Nil
    show ?case by (simp add: run_Nil explored_def)
  next
    case (Cons c cs)
    consider "key c \<in> fst s" | "key c \<notin> fst s" "hit c" | "key c \<notin> fst s" "\<not> hit c" by blast
    then show ?case
    proof cases
      case 1
      with Cons show ?thesis
        by (auto simp: run_seen split: option.splits intro: explored_skip reach_tail)
    next
      case 2
      then show ?thesis by (auto simp: run_hit intro!: bexI [of _ c] reach_self)
    next
      case 3
      let ?s = "(insert (key c) (fst s), snd s \<union> out c)"
      have c: "c \<in> calls" "set (nxt c) \<subseteq> calls" "set cs \<subseteq> calls" using Cons.prems calls_closed by auto
      note run = run_new [OF 3 c(1), of cs]
      have inner: "case run (nxt c) ?s of Some t \<Rightarrow> explored (nxt c) ?s t | None \<Rightarrow> \<exists>d \<in> reach (nxt c). hit d"
        using c 3 by (intro less.hyps fewer_keys [of c]) auto
      show ?thesis
      proof (cases "run (nxt c) ?s")
        case None
        with inner run show ?thesis by (auto intro: reach_head)
      next
        case (Some u)
        with inner have u: "explored (nxt c) ?s u" by simp
        then have "insert (key c) (fst s) \<subseteq> fst u" by (auto simp: explored_def)
        then have "case run cs u of Some t \<Rightarrow> explored cs u t | None \<Rightarrow> \<exists>d \<in> reach cs. hit d"
          using c 3 by (intro less.hyps fewer_keys [of c]) auto
        with Some u run 3 show ?thesis
          by (auto split: option.splits intro: explored_Cons reach_tail)
      qed
    qed
  qed
qed

end

locale owned_search = seen_search +
  assumes one_owner: "inj_on key calls"
begin

lemma finished_reach:
  assumes "set cs \<subseteq> calls" and "run cs ({}, {}) = Some t" and "d \<in> reach cs"
  shows "key d \<in> fst t \<and> \<not> hit d \<and> out d \<subseteq> snd t"
proof -
  have ex: "explored cs ({}, {}) t" using run_outcome [OF assms(1), of "({}, {})"] assms(2) by simp
  have visited: "\<not> hit c \<and> out c \<subseteq> snd t \<and> key ` set (nxt c) \<subseteq> fst t" if "key c \<in> fst t" "c \<in> calls" for c
  proof -
    from ex that(1) obtain c' where c': "c' \<in> reach cs" "key c' = key c" "\<not> hit c'" "out c' \<subseteq> snd t" "key ` set (nxt c') \<subseteq> fst t"
      by (auto simp: explored_def)
    with reach_calls [OF assms(1)] that(2) one_owner have "c' = c" by (auto simp: inj_on_def)
    with c' show ?thesis by simp
  qed
  from assms(3) obtain c where c: "c \<in> set cs" "(\<lambda>a b. b \<in> set (nxt a))\<^sup>*\<^sup>* c d" by (auto simp: reach_def)
  from c(2) have "key d \<in> fst t \<and> d \<in> calls"
  proof (induction rule: rtranclp_induct)
    case base
    with c(1) ex assms(1) show ?case by (auto simp: explored_def)
  next
    case (step a b)
    with visited [of a] calls_closed [of a] show ?case by auto
  qed
  with visited show ?thesis by simp
qed

text \<open>The search is stopped exactly when a hit can be reached.\<close>

theorem stopped_iff: "set cs \<subseteq> calls \<Longrightarrow> run cs ({}, {}) = None \<longleftrightarrow> (\<exists>c \<in> reach cs. hit c)"
  using run_outcome [of cs "({}, {})"] finished_reach [of cs] by (auto split: option.splits)

text \<open>A search that finishes marks and observes just what can be reached.\<close>

theorem finished_exact:
  "set cs \<subseteq> calls \<Longrightarrow> run cs ({}, {}) = Some t \<Longrightarrow> t = (key ` reach cs, \<Union> (out ` reach cs))"
proof -
  assume *: "set cs \<subseteq> calls" "run cs ({}, {}) = Some t"
  with run_outcome [of cs "({}, {})"] have ex: "explored cs ({}, {}) t" by simp
  have "fst t = key ` reach cs"
    using explored_visited [OF ex] finished_reach [OF *] by fastforce
  moreover have "snd t = \<Union> (out ` reach cs)"
    using explored_out [OF ex] finished_reach [OF *] by fastforce
  ultimately show ?thesis by (simp add: prod_eq_iff)
qed

end

end
