(* ===== verification/Gostyle_Trace.thy ===== *)
theory Gostyle_Trace
  imports Gostyle_Rules Gostyle_Search
begin

text \<open>
  The telemetry rules of \<open>gostyle.go\<close>, over the non-test files of one directory: the index of a
  package (\<open>newFuncInfo\<close>, \<open>callees\<close>, \<open>baseType\<close>), the trace of metric attributes
  (\<open>traceAttrs\<close>, \<open>checkKey\<close>) and the search for error texts (\<open>fromErrorText\<close>).

  A Go map of slices that is only appended to is the list of its entries, and a lookup the entries
  with that key in order. A map of positions or types holds the newest entry first. The trace keeps
  the expressions it has seen, the key positions it has reported and the findings.
\<close>

subsection \<open>Keys and calls\<close>

definition perEventKeys :: "(string \<times> string) list" where
  "perEventKeys =
     [(''db.query.text'', ''DBQueryTextKey''),
      (''messaging.message.id'', ''MessagingMessageIDKey''),
      (''messaging.message.conversation_id'', ''MessagingMessageConversationIDKey''),
      (''messaging.message.body.size'', ''MessagingMessageBodySizeKey''),
      (''exception.message'', ''ExceptionMessageKey''),
      (''exception.stacktrace'', ''ExceptionStacktraceKey''),
      (''url.full'', ''URLFullKey''),
      (''url.query'', ''URLQueryKey''),
      (''user.id'', ''UserIDKey''),
      (''session.id'', ''SessionIDKey''),
      (''error.message'', []),
      (''messaging.nats.message.key'', []),
      (''cron.job.fencing_token'', []),
      (''fencing_token'', [])]"

definition metricMethods :: "string list" where
  "metricMethods = [''Record'', ''Add'', ''AddUpDown'', ''RecordGauge'']"

definition valueMethods :: "string list" where
  "valueMethods = [''String'', ''Bool'', ''Int'', ''Int64'', ''Float64'', ''StringSlice'', ''BoolSlice'', ''IntSlice'',
     ''Int64Slice'', ''Float64Slice'']"

fun unparen :: "node \<Rightarrow> node" where
  "unparen (ParenExpr p x) = unparen x"
| "unparen e = e"

function unwrapKey :: "node \<Rightarrow> node" where
  "unwrapKey e =
     (case e of
        ParenExpr p x \<Rightarrow> unwrapKey x
      | CallExpr f as \<Rightarrow> (if isIdent f ''string'' \<and> length as = 1 then unwrapKey (hd as) else e)
      | _ \<Rightarrow> e)"
  by pat_completeness auto
termination
proof (relation "measure size")
  fix e f :: node and as
  assume "e = CallExpr f as" and "isIdent f ''string'' \<and> length as = 1"
  then show "(hd as, e) \<in> measure size" by (cases as) auto
qed auto

declare unwrapKey.simps [simp del]

definition stringLit :: "node \<Rightarrow> string option" where
  "stringLit e = (case e of BasicLit p STRING v \<Rightarrow> Unquote v | _ \<Rightarrow> None)"

definition perEventKey :: "node \<Rightarrow> string option" where
  "perEventKey e =
     (let k = unwrapKey e
      in case stringLit k of
           Some s \<Rightarrow> (if map_of perEventKeys s \<noteq> None then Some s else None)
         | None \<Rightarrow>
             (case k of
                SelectorExpr x s \<Rightarrow>
                  map_option fst (find (\<lambda>kc. snd kc \<noteq> [] \<and> snd kc = snd s) perEventKeys)
              | _ \<Rightarrow> None))"

definition isErrorTypeKey :: "node \<Rightarrow> bool" where
  "isErrorTypeKey e =
     (let k = unwrapKey e
      in case stringLit k of
           Some s \<Rightarrow> s = ''error.type''
         | None \<Rightarrow> (case k of SelectorExpr x s \<Rightarrow> snd s = ''ErrorTypeKey'' | _ \<Rightarrow> False))"

definition kvKey :: "node \<Rightarrow> node list \<Rightarrow> node option" where
  "kvKey f as =
     (case f of
        SelectorExpr x s \<Rightarrow>
          (if snd s \<notin> set valueMethods then None
           else if isIdent x ''attribute'' then (case as of [] \<Rightarrow> None | a # _ \<Rightarrow> Some a)
           else if perEventKey x \<noteq> None then Some x else None)
      | _ \<Rightarrow> None)"

definition isMetricCall :: "node \<Rightarrow> node list \<Rightarrow> bool" where
  "isMetricCall f as = (case f of SelectorExpr x s \<Rightarrow> snd s \<in> set metricMethods \<and> length as = 4 | _ \<Rightarrow> False)"

definition isWithAttributes :: "node \<Rightarrow> bool" where
  "isWithAttributes f = (case f of SelectorExpr x s \<Rightarrow> snd s = ''WithAttributes'' \<and> isIdent x ''metric'' | _ \<Rightarrow> False)"

subsection \<open>The index of a package\<close>

type_synonym call_expr = "node \<times> node list"

record tupleRef =
  tr_call :: call_expr
  tr_index :: nat

record funcInfo =
  fi_body :: "node list"
  fi_isMethod :: bool
  fi_recvName :: string
  fi_recvType :: string
  fi_params :: "(string \<times> nat) list"
  fi_varTypes :: "(string \<times> string) list"
  fi_defs :: "(string \<times> node) list"
  fi_tuples :: "(string \<times> tupleRef) list"
  fi_writes :: "(string \<times> node) list"
  fi_returns :: "node list list"

text \<open>\<open>fi_writes\<close> holds the index of each write.\<close>

record callSite =
  cs_call :: call_expr
  cs_caller :: funcInfo

record pkgIndex =
  idx_c :: checker
  idx_funcs :: "(string \<times> funcInfo) list"
  idx_calls :: "(funcInfo \<times> callSite) list"

definition lookup_all :: "('k \<times> 'v) list \<Rightarrow> 'k \<Rightarrow> 'v list" where
  "lookup_all m k = map snd (filter (\<lambda>e. fst e = k) m)"

lemma lookup_all_in: "v \<in> set (lookup_all m k) \<longleftrightarrow> (k, v) \<in> set m"
  by (force simp: lookup_all_def)

definition tupleCall :: "node list \<Rightarrow> call_expr option" where
  "tupleCall es = (if length es \<noteq> 1 then None else case unparen (hd es) of CallExpr f as \<Rightarrow> Some (f, as) | _ \<Rightarrow> None)"

definition add_params :: "node \<Rightarrow> nat \<times> funcInfo \<Rightarrow> nat \<times> funcInfo" where
  "add_params field st =
     fold (\<lambda>nm (i, fi). (i + 1, fi\<lparr>fi_params := (snd nm, i) # fi_params fi,
                                   fi_varTypes := (snd nm, typeName (fieldType field)) # fi_varTypes fi\<rparr>))
       (fieldNames field) (if fieldNames field = [] then (fst st + 1, snd st) else st)"

definition add_assign :: "node \<Rightarrow> node \<Rightarrow> funcInfo \<Rightarrow> funcInfo" where
  "add_assign l r fi =
     (case l of
        Ident p nm \<Rightarrow> fi\<lparr>fi_defs := fi_defs fi @ [(nm, r)]\<rparr>
      | IndexExpr (Ident p nm) i \<Rightarrow> fi\<lparr>fi_writes := fi_writes fi @ [(nm, i)]\<rparr>
      | _ \<Rightarrow> fi)"

definition add_tuple :: "call_expr \<Rightarrow> string \<times> nat \<Rightarrow> funcInfo \<Rightarrow> funcInfo" where
  "add_tuple call x fi = fi\<lparr>fi_tuples := fi_tuples fi @ [(fst x, \<lparr>tr_call = call, tr_index = snd x\<rparr>)]\<rparr>"

text \<open>The callback of \<open>ast.Inspect\<close> in \<open>newFuncInfo\<close>.\<close>

definition index_node :: "node \<Rightarrow> funcInfo \<Rightarrow> funcInfo" where
  "index_node n fi =
     (case n of
        AssignStmt ls rs \<Rightarrow>
          (if length ls = length rs then fold (\<lambda>(l, r). add_assign l r) (zip ls rs) fi
           else case tupleCall rs of
             None \<Rightarrow> fi
           | Some call \<Rightarrow>
               fold (\<lambda>(l, i). case l of Ident p nm \<Rightarrow> add_tuple call (nm, i) | _ \<Rightarrow> id) (zip ls [0..<length ls]) fi)
      | ValueSpec ns t vs \<Rightarrow>
          (let fi1 = (case t of None \<Rightarrow> fi
                      | Some ty \<Rightarrow> fold (\<lambda>nm f. f\<lparr>fi_varTypes := (snd nm, typeName ty) # fi_varTypes f\<rparr>) ns fi)
           in if length ns = length vs then
                fold (\<lambda>(nm, v) f. f\<lparr>fi_defs := fi_defs f @ [(snd nm, v)]\<rparr>) (zip ns vs) fi1
              else case tupleCall vs of
                None \<Rightarrow> fi1
              | Some call \<Rightarrow> fold (\<lambda>(nm, i). add_tuple call (snd nm, i)) (zip ns [0..<length ns]) fi1)
      | ReturnStmt p rs \<Rightarrow> fi\<lparr>fi_returns := fi_returns fi @ [rs]\<rparr>
      | _ \<Rightarrow> fi)"

definition newFuncInfo :: "node list option \<Rightarrow> node list \<Rightarrow> node list \<Rightarrow> funcInfo" where
  "newFuncInfo recv params body =
     (let fi0 = \<lparr>fi_body = body, fi_isMethod = False, fi_recvName = [], fi_recvType = [], fi_params = [],
                 fi_varTypes = [], fi_defs = [], fi_tuples = [], fi_writes = [], fi_returns = []\<rparr>;
          fi1 = (case recv of
                   Some [f] \<Rightarrow> fi0\<lparr>fi_isMethod := True, fi_recvType := typeName (fieldType f),
                                   fi_recvName := fold (\<lambda>nm _. snd nm) (fieldNames f) []\<rparr>
                 | _ \<Rightarrow> fi0)
      in fold index_node (body_nodes body) (snd (fold add_params params (0, fi1))))"

definition allReturns :: "funcInfo \<Rightarrow> node list" where
  "allReturns fi = concat (fi_returns fi)"

definition returnsAt :: "funcInfo \<Rightarrow> nat \<Rightarrow> node list" where
  "returnsAt fi i = concat (map (\<lambda>rs. if i < length rs then [rs ! i] else []) (fi_returns fi))"

definition strip_addr :: "node \<Rightarrow> node" where
  "strip_addr x =
     (let e = unparen x in case e of UnaryExpr p op y \<Rightarrow> (if op = ''&'' then unparen y else e) | _ \<Rightarrow> e)"

definition compositeType :: "node \<Rightarrow> string option" where
  "compositeType e =
     (case strip_addr e of
        CompositeLit (Some t) p es \<Rightarrow> (if typeName t = [] then None else Some (typeName t))
      | _ \<Rightarrow> None)"

text \<open>The loop of \<open>baseType\<close> over the values assigned to an identifier; \<open>None\<close> is its early return.\<close>

fun agreed_type :: "string \<Rightarrow> node list \<Rightarrow> string option" where
  "agreed_type typ [] = Some typ"
| "agreed_type typ (v # vs) =
     (case compositeType v of
        None \<Rightarrow> None
      | Some t \<Rightarrow> if typ \<noteq> [] \<and> t \<noteq> typ then None else agreed_type t vs)"

definition baseType :: "funcInfo \<Rightarrow> node \<Rightarrow> string option" where
  "baseType fi x =
     (case strip_addr x of
        CompositeLit t p es \<Rightarrow> compositeType (CompositeLit t p es)
      | Ident p nm \<Rightarrow>
          (if nm = fi_recvName fi \<and> fi_recvName fi \<noteq> [] then Some (fi_recvType fi)
           else case agreed_type [] (lookup_all (fi_defs fi) nm) of
             None \<Rightarrow> None
           | Some typ \<Rightarrow>
               let t = str_lookup (fi_varTypes fi) nm
               in if t \<noteq> [] then (if typ \<noteq> [] \<and> t \<noteq> typ then None else Some t)
                  else if typ \<noteq> [] then Some typ else None)
      | _ \<Rightarrow> None)"

definition callees :: "(string \<times> funcInfo) list \<Rightarrow> node \<Rightarrow> funcInfo \<Rightarrow> funcInfo list" where
  "callees funcs fn caller =
     (case fn of
        Ident p nm \<Rightarrow> filter (\<lambda>f. \<not> fi_isMethod f) (lookup_all funcs nm)
      | SelectorExpr x s \<Rightarrow>
          (if isIdent x ''maps'' \<or> isIdent x ''slices'' then []
           else let methods = filter fi_isMethod (lookup_all funcs (snd s))
                in case baseType caller x of
                     None \<Rightarrow> (if length methods = 1 then methods else [])
                   | Some typ \<Rightarrow> filter (\<lambda>m. fi_recvType m = typ) methods)
      | _ \<Rightarrow> [])"

definition func_infos :: "go_file list \<Rightarrow> (string \<times> funcInfo) list" where
  "func_infos files =
     concat (map (\<lambda>f. concat (map (\<lambda>d. case d of
                                         FuncDecl recv nm tps ps res (Some body) \<Rightarrow> [(snd nm, newFuncInfo recv ps body)]
                                       | _ \<Rightarrow> []) (f_Decls f))) files)"

definition call_sites :: "(string \<times> funcInfo) list \<Rightarrow> funcInfo \<Rightarrow> (funcInfo \<times> callSite) list" where
  "call_sites funcs fi =
     concat (map (\<lambda>n. case n of
                        CallExpr f as \<Rightarrow> map (\<lambda>callee. (callee, \<lparr>cs_call = (f, as), cs_caller = fi\<rparr>)) (callees funcs f fi)
                      | _ \<Rightarrow> []) (body_nodes (fi_body fi)))"

definition build_index :: "checker \<Rightarrow> go_file list \<Rightarrow> pkgIndex" where
  "build_index c files =
     (let funcs = func_infos files
      in \<lparr>idx_c = c, idx_funcs = funcs, idx_calls = concat (map (\<lambda>e. call_sites funcs (snd e)) funcs)\<rparr>)"

text \<open>An argument or result expression with the function it is written in, \<open>argRef\<close>.\<close>

type_synonym argRef = "node \<times> funcInfo"

definition paramArgs :: "pkgIndex \<Rightarrow> funcInfo \<Rightarrow> string \<Rightarrow> argRef list" where
  "paramArgs idx fi name =
     (case map_of (fi_params fi) name of
        None \<Rightarrow> []
      | Some pos \<Rightarrow>
          concat (map (\<lambda>cs. if pos < length (snd (cs_call cs)) then [(snd (cs_call cs) ! pos, cs_caller cs)] else [])
            (lookup_all (idx_calls idx) fi)))"

definition tupleValues :: "pkgIndex \<Rightarrow> tupleRef \<Rightarrow> funcInfo \<Rightarrow> argRef list" where
  "tupleValues idx t caller =
     concat (map (\<lambda>callee. map (\<lambda>r. (r, callee)) (returnsAt callee (tr_index t)))
       (callees (idx_funcs idx) (fst (tr_call t)) caller))"

subsection \<open>The trace of metric attributes\<close>

text \<open>
  The loops both searches run for an identifier (its values, its tuple results, the arguments that
  bind to it) and for a call (the results of its callees).
\<close>

definition ident_sources :: "pkgIndex \<Rightarrow> funcInfo \<Rightarrow> string \<Rightarrow> argRef list" where
  "ident_sources idx fi nm =
     map (\<lambda>v. (v, fi)) (lookup_all (fi_defs fi) nm)
     @ concat (map (\<lambda>t. tupleValues idx t fi) (lookup_all (fi_tuples fi) nm))
     @ paramArgs idx fi nm"

definition call_sources :: "pkgIndex \<Rightarrow> node \<Rightarrow> funcInfo \<Rightarrow> argRef list" where
  "call_sources idx f fi = concat (map (\<lambda>callee. map (\<lambda>r. (r, callee)) (allReturns callee)) (callees (idx_funcs idx) f fi))"

text \<open>The calls the body of \<open>traceAttrs\<close> makes for an expression it has not seen, in order.\<close>

datatype attr_call = TraceAttrs node funcInfo | CheckKey node

definition trace_of :: "argRef \<Rightarrow> attr_call" where
  "trace_of a = TraceAttrs (fst a) (snd a)"

definition elem_call :: "funcInfo \<Rightarrow> node \<Rightarrow> attr_call" where
  "elem_call fi elt = (case elt of KeyValueExpr k v \<Rightarrow> CheckKey k | _ \<Rightarrow> TraceAttrs elt fi)"

definition attr_calls :: "pkgIndex \<Rightarrow> node \<Rightarrow> funcInfo \<Rightarrow> attr_call list" where
  "attr_calls idx e fi =
     (case e of
        ParenExpr p x \<Rightarrow> [TraceAttrs x fi]
      | CompositeLit t p elts \<Rightarrow>
          map (elem_call fi) elts
      | Ident p nm \<Rightarrow>
          map trace_of (ident_sources idx fi nm) @ map CheckKey (lookup_all (fi_writes fi) nm)
      | CallExpr f as \<Rightarrow>
          (case kvKey f as of
             Some k \<Rightarrow> [CheckKey k]
           | None \<Rightarrow>
               if isIdent f ''append'' then map (\<lambda>a. TraceAttrs a fi) as
               else map trace_of (call_sources idx f fi))
      | _ \<Rightarrow> [])"

record trace_state =
  seen :: "node set"
  reported :: "token_pos set"
  tr_findings :: "finding list"

definition checkKey :: "pkgIndex \<Rightarrow> node \<Rightarrow> trace_state \<Rightarrow> trace_state" where
  "checkKey idx k s =
     (case perEventKey k of
        None \<Rightarrow> s
      | Some name \<Rightarrow>
          if node_pos k \<in> reported s \<or> isIgnored (idx_c idx) (node_pos k) ''metric-high-cardinality'' then s
          else s\<lparr>reported := insert (node_pos k) (reported s),
                 tr_findings := tr_findings s
                   @ reportAt (idx_c idx) (node_pos k) ''metric-high-cardinality''
                       (quote_text name @ '' reaches a metric's attributes; keep per-event values on the span'')\<rparr>)"

text \<open>
  The expressions a trace can come to: those below the one it starts at, below the values and results
  of its function, and below what the index holds. They are finitely many, and no call leaves them.
\<close>

definition func_exprs :: "funcInfo \<Rightarrow> node set" where
  "func_exprs fi = (\<Union>e \<in> snd ` set (fi_defs fi) \<union> set (allReturns fi). set (all_nodes e))"

definition index_exprs :: "pkgIndex \<Rightarrow> node set" where
  "index_exprs idx =
     (\<Union>f \<in> snd ` set (idx_funcs idx). func_exprs f)
     \<union> (\<Union>cs \<in> snd ` set (idx_calls idx). func_exprs (cs_caller cs) \<union> (\<Union>a \<in> set (snd (cs_call cs)). set (all_nodes a)))"

definition ref_exprs :: "pkgIndex \<Rightarrow> argRef \<Rightarrow> node set" where
  "ref_exprs idx a = set (all_nodes (fst a)) \<union> func_exprs (snd a) \<union> index_exprs idx"

lemma finite_ref_exprs [simp]: "finite (ref_exprs idx a)"
  by (simp add: ref_exprs_def index_exprs_def func_exprs_def)

lemma callees_in: "f \<in> set (callees funcs fn caller) \<Longrightarrow> f \<in> snd ` set funcs"
  by (auto simp: callees_def Let_def lookup_all_in split: node.splits if_splits option.splits intro: rev_image_eqI)

lemma returnsAt_in: "e \<in> set (returnsAt fi i) \<Longrightarrow> e \<in> set (allReturns fi)"
  by (auto simp: returnsAt_def allReturns_def split: if_splits dest: nth_mem)

lemma result_exprs: "f \<in> snd ` set (idx_funcs idx) \<Longrightarrow> r \<in> set (allReturns f) \<Longrightarrow> ref_exprs idx (r, f) \<subseteq> index_exprs idx"
  by (auto simp: ref_exprs_def index_exprs_def func_exprs_def)

lemma paramArgs_in:
  "a \<in> set (paramArgs idx fi nm) \<Longrightarrow> \<exists>cs. (fi, cs) \<in> set (idx_calls idx) \<and> fst a \<in> set (snd (cs_call cs)) \<and> snd a = cs_caller cs"
  by (fastforce simp: paramArgs_def lookup_all_in split: option.splits if_splits)

lemma ident_source_cases:
  assumes "a \<in> set (ident_sources idx fi nm)"
  obtains (def) "snd a = fi" "(nm, fst a) \<in> set (fi_defs fi)"
    | (tuple) "snd a \<in> snd ` set (idx_funcs idx)" "fst a \<in> set (allReturns (snd a))"
    | (param) "a \<in> set (paramArgs idx fi nm)"
  using assms callees_in [of "snd a" "idx_funcs idx"] returnsAt_in [of "fst a" "snd a"]
  by (auto simp: ident_sources_def tupleValues_def lookup_all_in)

lemma call_source_in:
  "a \<in> set (call_sources idx f fi) \<Longrightarrow> snd a \<in> snd ` set (idx_funcs idx) \<and> fst a \<in> set (allReturns (snd a))"
  by (auto simp: call_sources_def dest: callees_in)

lemma ident_source_exprs: "a \<in> set (ident_sources idx fi nm) \<Longrightarrow> ref_exprs idx a \<subseteq> ref_exprs idx (e, fi)"
proof (erule ident_source_cases)
  assume "snd a = fi" "(nm, fst a) \<in> set (fi_defs fi)"
  then have "set (all_nodes (fst a)) \<subseteq> func_exprs fi" by (force simp: func_exprs_def)
  with \<open>snd a = fi\<close> show ?thesis by (auto simp: ref_exprs_def)
next
  assume "snd a \<in> snd ` set (idx_funcs idx)" "fst a \<in> set (allReturns (snd a))"
  from result_exprs [OF this] show ?thesis by (auto simp: ref_exprs_def)
next
  assume "a \<in> set (paramArgs idx fi nm)"
  from paramArgs_in [OF this] show ?thesis by (force simp: ref_exprs_def index_exprs_def)
qed

lemma call_source_exprs: "a \<in> set (call_sources idx f fi) \<Longrightarrow> ref_exprs idx a \<subseteq> ref_exprs idx (e, fi)"
  using result_exprs [of "snd a" idx "fst a"] by (auto dest!: call_source_in simp: ref_exprs_def)

lemma child_exprs: "x \<in> set (children e) \<Longrightarrow> ref_exprs idx (x, fi) \<subseteq> ref_exprs idx (e, fi)"
  using child_in_nodes [of e e x] all_nodes_trans [of x e] by (auto simp: ref_exprs_def)

definition traced :: "attr_call list \<Rightarrow> argRef list" where
  "traced cs = concat (map (\<lambda>c. case c of TraceAttrs e fi \<Rightarrow> [(e, fi)] | CheckKey k \<Rightarrow> []) cs)"

lemma traced_simps [simp]:
  "traced [] = []" "traced (TraceAttrs e fi # cs) = (e, fi) # traced cs" "traced (CheckKey k # cs) = traced cs"
  "traced (map trace_of as) = as" "traced (map CheckKey ks) = []" "traced (cs @ ds) = traced cs @ traced ds"
  by (simp_all add: traced_def trace_of_def comp_def)

lemma traced_map_TraceAttrs [simp]: "traced (map (\<lambda>x. TraceAttrs x fi) xs) = map (\<lambda>x. (x, fi)) xs"
  by (simp add: traced_def comp_def)

lemma traced_elem_call: "a \<in> set (traced (map (elem_call fi) es)) \<Longrightarrow> \<exists>x \<in> set es. a = (x, fi)"
  by (induction es) (auto simp: elem_call_def split: node.splits)

lemma traced_in: "TraceAttrs e fi \<in> set cs \<longleftrightarrow> (e, fi) \<in> set (traced cs)"
  by (force simp: traced_def split: attr_call.splits)

lemma attr_calls_exprs:
  assumes "a \<in> set (traced (attr_calls idx e fi))"
  shows "ref_exprs idx a \<subseteq> ref_exprs idx (e, fi)"
proof (cases "\<exists>x \<in> set (children e). a = (x, fi)")
  case True
  then show ?thesis using child_exprs by blast
next
  case False
  with assms have "(\<exists>nm. a \<in> set (ident_sources idx fi nm)) \<or> (\<exists>f. a \<in> set (call_sources idx f fi))"
    by (cases e) (auto simp: attr_calls_def dest!: traced_elem_call split: option.splits if_splits)
  then show ?thesis using ident_source_exprs call_source_exprs by metis
qed

definition calls_exprs :: "pkgIndex \<Rightarrow> argRef list \<Rightarrow> node set" where
  "calls_exprs idx as = (\<Union>a \<in> set as. ref_exprs idx a)"

lemma calls_exprs_finite [simp]: "finite (calls_exprs idx as)"
  by (simp add: calls_exprs_def)

lemma calls_exprs_self: "e \<in> calls_exprs idx ((e, fi) # as)"
  by (simp add: calls_exprs_def ref_exprs_def)

text \<open>
  \<open>traceAttrs\<close>, as the sequence of calls a body makes: a traced expression that has been seen is
  skipped, any other is marked and the calls of its body are made before the next one.
\<close>

function (domintros) trace_calls :: "pkgIndex \<Rightarrow> attr_call list \<Rightarrow> trace_state \<Rightarrow> trace_state" where
  "trace_calls idx [] s = s"
| "trace_calls idx (CheckKey k # cs) s = trace_calls idx cs (checkKey idx k s)"
| "trace_calls idx (TraceAttrs e fi # cs) s =
     (if e \<in> seen s then trace_calls idx cs s
      else trace_calls idx cs (trace_calls idx (attr_calls idx e fi) (s\<lparr>seen := insert e (seen s)\<rparr>)))"
  by pat_completeness auto

lemma checkKey_seen [simp]: "seen (checkKey idx k s) = seen s"
  by (simp add: checkKey_def split: option.split)

lemma trace_calls_grows: "trace_calls_dom (idx, cs, s) \<Longrightarrow> seen s \<subseteq> seen (trace_calls idx cs s)"
  by (induction idx cs s rule: trace_calls.pinduct) (fastforce simp: trace_calls.psimps)+

lemma fewer_exprs:
  assumes "e \<notin> S" and "e \<in> U" and "finite U" and "V \<subseteq> U" and "insert e S \<subseteq> T"
  shows "card (V - T) < card (U - S)"
  using assms by (intro psubset_card_mono) auto

termination trace_calls
proof (relation "measures [\<lambda>(idx, cs, s). card (calls_exprs idx (traced cs) - seen s), \<lambda>(idx, cs, s). length cs]")
  show "wf (measures [\<lambda>(idx, cs, s :: trace_state). card (calls_exprs idx (traced cs) - seen s), \<lambda>(idx, cs, s). length cs])"
    by simp
next
  fix idx k cs and s :: trace_state
  show "((idx, cs, checkKey idx k s), idx, CheckKey k # cs, s) \<in> measures [\<lambda>(idx, cs, s). card (calls_exprs idx (traced cs) - seen s), \<lambda>(idx, cs, s). length cs]"
    by simp
next
  fix idx e fi cs and s :: trace_state
  assume "e \<in> seen s"
  have "card (calls_exprs idx (traced cs) - seen s) \<le> card (calls_exprs idx ((e, fi) # traced cs) - seen s)"
    by (rule card_mono) (auto simp: calls_exprs_def)
  then show "((idx, cs, s), idx, TraceAttrs e fi # cs, s) \<in> measures [\<lambda>(idx, cs, s). card (calls_exprs idx (traced cs) - seen s), \<lambda>(idx, cs, s). length cs]"
    by (simp add: less_le)
next
  fix idx e fi cs and s :: trace_state
  assume e: "e \<notin> seen s"
  let ?U = "calls_exprs idx ((e, fi) # traced cs)"
  have U: "e \<in> ?U" "finite ?U" by (rule calls_exprs_self) simp
  have "calls_exprs idx (traced (attr_calls idx e fi)) \<subseteq> ?U"
    using attr_calls_exprs [of _ idx e fi] by (force simp: calls_exprs_def)
  from fewer_exprs [OF e U this, of "insert e (seen s)"]
  show "((idx, attr_calls idx e fi, s\<lparr>seen := insert e (seen s)\<rparr>), idx, TraceAttrs e fi # cs, s) \<in> measures [\<lambda>(idx, cs, s). card (calls_exprs idx (traced cs) - seen s), \<lambda>(idx, cs, s). length cs]"
    by simp
  assume "trace_calls_dom (idx, attr_calls idx e fi, s\<lparr>seen := insert e (seen s)\<rparr>)"
  from trace_calls_grows [OF this]
  have "insert e (seen s) \<subseteq> seen (trace_calls idx (attr_calls idx e fi) (s\<lparr>seen := insert e (seen s)\<rparr>))" by simp
  from fewer_exprs [OF e U _ this, of "calls_exprs idx (traced cs)"]
  show "((idx, cs, trace_calls idx (attr_calls idx e fi) (s\<lparr>seen := insert e (seen s)\<rparr>)), idx, TraceAttrs e fi # cs, s) \<in> measures [\<lambda>(idx, cs, s). card (calls_exprs idx (traced cs) - seen s), \<lambda>(idx, cs, s). length cs]"
    by (simp add: calls_exprs_def)
qed

definition traceAttrs :: "pkgIndex \<Rightarrow> node \<Rightarrow> funcInfo \<Rightarrow> trace_state \<Rightarrow> trace_state" where
  "traceAttrs idx e fi s = trace_calls idx [TraceAttrs e fi] s"

subsection \<open>Error texts\<close>

text \<open>
  \<open>fromErrorText\<close>, over the calls a body makes in order: \<open>None\<close> when one of them returns true, the
  expressions seen otherwise.
\<close>

definition is_error_call :: "node \<Rightarrow> bool" where
  "is_error_call e = (case e of CallExpr (SelectorExpr x s) [] \<Rightarrow> snd s = ''Error'' | _ \<Rightarrow> False)"

definition text_calls :: "pkgIndex \<Rightarrow> node \<Rightarrow> funcInfo \<Rightarrow> argRef list" where
  "text_calls idx e fi =
     (case e of
        ParenExpr p x \<Rightarrow> [(x, fi)]
      | Ident p nm \<Rightarrow> ident_sources idx fi nm
      | CallExpr f as \<Rightarrow> call_sources idx f fi
      | _ \<Rightarrow> [])"

lemma text_calls_exprs:
  assumes "a \<in> set (text_calls idx e fi)"
  shows "ref_exprs idx a \<subseteq> ref_exprs idx (e, fi)"
proof (cases "\<exists>x \<in> set (children e). a = (x, fi)")
  case True
  then show ?thesis using child_exprs by blast
next
  case False
  with assms have "(\<exists>nm. a \<in> set (ident_sources idx fi nm)) \<or> (\<exists>f. a \<in> set (call_sources idx f fi))"
    by (cases e) (auto simp: text_calls_def)
  then show ?thesis using ident_source_exprs call_source_exprs by metis
qed

function (domintros) from_any :: "pkgIndex \<Rightarrow> argRef list \<Rightarrow> node set \<Rightarrow> node set option" where
  "from_any idx [] S = Some S"
| "from_any idx ((e, fi) # as) S =
     (if e \<in> S then from_any idx as S
      else if is_error_call e then None
      else case from_any idx (text_calls idx e fi) (insert e S) of None \<Rightarrow> None | Some S' \<Rightarrow> from_any idx as S')"
  by pat_completeness auto

lemma from_any_grows: "from_any_dom (idx, as, S) \<Longrightarrow> from_any idx as S = Some S' \<Longrightarrow> S \<subseteq> S'"
  by (induction idx as S arbitrary: S' rule: from_any.pinduct)
    (fastforce simp: from_any.psimps split: if_splits option.splits)+

termination from_any
proof (relation "measures [\<lambda>(idx, as, S). card (calls_exprs idx as - S), \<lambda>(idx, as, S). length as]")
  show "wf (measures [\<lambda>(idx, as, S). card (calls_exprs idx as - S), \<lambda>(idx, as, S). length as])"
    by simp
next
  fix idx e fi as and S :: "node set"
  have "card (calls_exprs idx as - S) \<le> card (calls_exprs idx ((e, fi) # as) - S)"
    by (rule card_mono) (auto simp: calls_exprs_def)
  then show "((idx, as, S), idx, (e, fi) # as, S) \<in> measures [\<lambda>(idx, as, S). card (calls_exprs idx as - S), \<lambda>(idx, as, S). length as]"
    by (simp add: less_le)
next
  fix idx e fi as and S :: "node set"
  assume e: "e \<notin> S"
  let ?U = "calls_exprs idx ((e, fi) # as)"
  have U: "e \<in> ?U" "finite ?U" by (rule calls_exprs_self) simp
  have "calls_exprs idx (text_calls idx e fi) \<subseteq> ?U"
    using text_calls_exprs [of _ idx e fi] by (force simp: calls_exprs_def)
  from fewer_exprs [OF e U this, of "insert e S"]
  show "((idx, text_calls idx e fi, insert e S), idx, (e, fi) # as, S) \<in> measures [\<lambda>(idx, as, S). card (calls_exprs idx as - S), \<lambda>(idx, as, S). length as]"
    by simp
  fix S'
  assume "from_any_dom (idx, text_calls idx e fi, insert e S)" "from_any idx (text_calls idx e fi) (insert e S) = Some S'"
  from from_any_grows [OF this] fewer_exprs [OF e U, of "calls_exprs idx as" S']
  show "((idx, as, S'), idx, (e, fi) # as, S) \<in> measures [\<lambda>(idx, as, S). card (calls_exprs idx as - S), \<lambda>(idx, as, S). length as]"
    by (simp add: calls_exprs_def)
qed

definition fromErrorText :: "pkgIndex \<Rightarrow> node \<Rightarrow> funcInfo \<Rightarrow> node set \<Rightarrow> bool" where
  "fromErrorText idx e fi S \<longleftrightarrow> from_any idx [(e, fi)] S = None"

definition checkErrorType :: "pkgIndex \<Rightarrow> token_pos \<Rightarrow> node \<Rightarrow> node \<Rightarrow> funcInfo \<Rightarrow> finding list" where
  "checkErrorType idx site k v fi =
     (let ignored = (\<lambda>p. isIgnored (idx_c idx) p ''error-type-message'')
      in if ignored site \<or> ignored (node_pos k) \<or> ignored (node_pos v) then []
         else if \<not> isErrorTypeKey k \<or> \<not> fromErrorText idx v fi {} then []
         else reportAt (idx_c idx) (node_pos v) ''error-type-message''
                (''error.type is set from an error's text; use a low-cardinality class such as a code, ''
                 @ quote_text ''timeout'' @ '', or '' @ quote_text ''_OTHER''))"

definition checkErrorTypeCall :: "pkgIndex \<Rightarrow> node \<Rightarrow> node list \<Rightarrow> funcInfo \<Rightarrow> finding list" where
  "checkErrorTypeCall idx f as fi =
     (case f of
        SelectorExpr x s \<Rightarrow>
          (if snd s \<notin> set valueMethods then []
           else if isIdent x ''attribute'' \<and> length as = 2 then
             checkErrorType idx (node_pos (CallExpr f as)) (as ! 0) (as ! 1) fi
           else if length as = 1 then checkErrorType idx (node_pos (CallExpr f as)) x (as ! 0) fi
           else [])
      | _ \<Rightarrow> [])"

subsection \<open>The telemetry rules\<close>

definition add_findings :: "finding list \<Rightarrow> trace_state \<Rightarrow> trace_state" where
  "add_findings fs s = s\<lparr>tr_findings := tr_findings s @ fs\<rparr>"

text \<open>The attribute expressions of a call that reaches a metric, unless its line says to ignore them.\<close>

definition metric_args :: "pkgIndex \<Rightarrow> node \<Rightarrow> node list \<Rightarrow> node list" where
  "metric_args idx f as =
     (if isIgnored (idx_c idx) (node_pos (CallExpr f as)) ''metric-high-cardinality'' then []
      else (if isMetricCall f as then [as ! 3] else []) @ (if isWithAttributes f then as else []))"

text \<open>The error types a node sets: site, key and value.\<close>

definition error_type_sets :: "pkgIndex \<Rightarrow> funcInfo \<Rightarrow> node \<Rightarrow> finding list" where
  "error_type_sets idx fi n =
     (case n of
        CompositeLit t p elts \<Rightarrow>
          concat (map (\<lambda>elt. case elt of KeyValueExpr k v \<Rightarrow> checkErrorType idx (node_pos elt) k v fi | _ \<Rightarrow> []) elts)
      | AssignStmt ls rs \<Rightarrow>
          (if length ls = length rs then
             concat (map (\<lambda>(l, r). case l of IndexExpr x i \<Rightarrow> checkErrorType idx (node_pos l) i r fi | _ \<Rightarrow> []) (zip ls rs))
           else [])
      | CallExpr f as \<Rightarrow> checkErrorTypeCall idx f as fi
      | _ \<Rightarrow> [])"

definition metric_roots :: "pkgIndex \<Rightarrow> funcInfo \<Rightarrow> node \<Rightarrow> argRef list" where
  "metric_roots idx fi n =
     (case n of CallExpr f as \<Rightarrow> map (\<lambda>a. (a, fi)) (metric_args idx f as) | _ \<Rightarrow> [])"

text \<open>The callback of the last \<open>ast.Inspect\<close> of \<open>checkTelemetry\<close>.\<close>

definition telemetry_node :: "pkgIndex \<Rightarrow> funcInfo \<Rightarrow> node \<Rightarrow> trace_state \<Rightarrow> trace_state" where
  "telemetry_node idx fi n s =
     fold (\<lambda>a. traceAttrs idx (fst a) (snd a)) (metric_roots idx fi n) (add_findings (error_type_sets idx fi n) s)"

definition telemetry_func :: "pkgIndex \<Rightarrow> funcInfo \<Rightarrow> trace_state \<Rightarrow> trace_state" where
  "telemetry_func idx fi s = fold (telemetry_node idx fi) (body_nodes (fi_body fi)) s"

definition checkTelemetry :: "checker \<Rightarrow> go_file list \<Rightarrow> trace_state" where
  "checkTelemetry c files =
     (let idx = build_index c files
      in fold (telemetry_func idx) (map snd (idx_funcs idx)) \<lparr>seen = {}, reported = {}, tr_findings = []\<rparr>)"

end
