(* ===== verification/Gostyle_Flow.thy ===== *)
theory Gostyle_Flow
  imports Gostyle_Trace
begin

text \<open>
  What the telemetry rules of \<open>gostyle.go\<close> find. The flow of values is specified by rules, with no
  seen set and no order: an expression reaches a metric when it is an attribute argument of a metric
  call or a source of an expression that does; it carries an error's text when it is a call of
  \<open>Error()\<close> or has a source that does. Both searches compute exactly these relations, over the index
  of a package in which no node belongs to two functions.
\<close>

subsection \<open>The index holds nodes of the package\<close>

definition indexed :: "node list \<Rightarrow> funcInfo \<Rightarrow> bool" where
  "indexed body fi \<longleftrightarrow>
     fi_body fi = body \<and> snd ` set (fi_defs fi) \<union> set (allReturns fi) \<subseteq> set (body_nodes body)"

lemma indexed_fold: "(\<And>x f. x \<in> set xs \<Longrightarrow> indexed b f \<Longrightarrow> indexed b (g x f)) \<Longrightarrow> indexed b fi \<Longrightarrow> indexed b (fold g xs fi)"
  by (induction xs arbitrary: fi) auto

lemma indexed_simps [simp]:
  "indexed b (fi\<lparr>fi_varTypes := vt\<rparr>) = indexed b fi" "indexed b (fi\<lparr>fi_params := ps\<rparr>) = indexed b fi"
  "indexed b (fi\<lparr>fi_tuples := ts\<rparr>) = indexed b fi" "indexed b (fi\<lparr>fi_writes := ws\<rparr>) = indexed b fi"
  "indexed b (fi\<lparr>fi_isMethod := m\<rparr>) = indexed b fi" "indexed b (fi\<lparr>fi_recvType := rt\<rparr>) = indexed b fi"
  "indexed b (fi\<lparr>fi_recvName := rn\<rparr>) = indexed b fi"
  "indexed b (add_tuple call x fi) = indexed b fi"
  by (simp_all add: indexed_def allReturns_def add_tuple_def)

lemma indexed_def_add: "indexed b fi \<Longrightarrow> v \<in> set (body_nodes b) \<Longrightarrow> indexed b (fi\<lparr>fi_defs := fi_defs fi @ [(nm, v)]\<rparr>)"
  by (auto simp: indexed_def allReturns_def)

lemma indexed_assign: "indexed b fi \<Longrightarrow> r \<in> set (body_nodes b) \<Longrightarrow> indexed b (add_assign l r fi)"
  by (cases l) (auto simp: add_assign_def indexed_def_add split: node.splits)

lemma indexed_node:
  assumes "n \<in> set (body_nodes b)" and "indexed b fi"
  shows "indexed b (index_node n fi)"
proof -
  have kids: "c \<in> set (children n) \<Longrightarrow> c \<in> set (body_nodes b)" for c by (rule body_child [OF assms(1)])
  show ?thesis
  proof (cases n)
    case (AssignStmt ls rs)
    with kids have "r \<in> set (body_nodes b)" if "r \<in> set rs" for r using that by simp
    with assms(2) AssignStmt show ?thesis
      by (auto simp: index_node_def indexed_assign dest: set_zip_rightD split: option.split node.split intro!: indexed_fold)
  next
    case (ValueSpec ns t vs)
    with kids have vs: "v \<in> set (body_nodes b)" if "v \<in> set vs" for v using that by simp
    with assms(2) ValueSpec show ?thesis
      by (auto simp: index_node_def Let_def indexed_def_add dest: set_zip_rightD split: option.split intro!: indexed_fold)
  next
    case (ReturnStmt p rs)
    with kids have "set rs \<subseteq> set (body_nodes b)" by auto
    with assms(2) ReturnStmt show ?thesis by (auto simp: index_node_def indexed_def allReturns_def)
  qed (use assms(2) in \<open>simp_all add: index_node_def\<close>)
qed

lemma indexed_add_params:
  assumes "indexed b (snd st)"
  shows "indexed b (snd (add_params f st))"
proof -
  have *: "indexed b (snd (fold (\<lambda>nm (i, fi). (i + 1, fi\<lparr>fi_params := (snd nm, i) # fi_params fi,
      fi_varTypes := (snd nm, typeName (fieldType f)) # fi_varTypes fi\<rparr>)) ns st'))"
    if "indexed b (snd st')" for ns st'
    using that by (induction ns arbitrary: st') (auto split: prod.split)
  show ?thesis unfolding add_params_def by (rule *) (simp add: assms)
qed

lemma indexed_params: "indexed b (snd st) \<Longrightarrow> indexed b (snd (fold add_params fs st))"
  by (induction fs arbitrary: st) (simp_all add: indexed_add_params)

lemma indexed_newFuncInfo: "indexed body (newFuncInfo recv ps body)"
proof -
  have "indexed body (snd (fold add_params ps (0, case recv of
      Some [f] \<Rightarrow> fi0\<lparr>fi_isMethod := True, fi_recvType := typeName (fieldType f), fi_recvName := fold (\<lambda>nm _. snd nm) (fieldNames f) []\<rparr>
    | _ \<Rightarrow> fi0)))" if "indexed body fi0" for fi0
    by (rule indexed_params) (use that in \<open>simp split: option.split list.split\<close>)
  then show ?thesis
    unfolding newFuncInfo_def Let_def
    by (intro indexed_fold indexed_node) (auto simp: indexed_def allReturns_def)
qed

text \<open>The expressions of the package, each with the function it is written in.\<close>

definition owned :: "pkgIndex \<Rightarrow> argRef set" where
  "owned idx = {(e, fi). fi \<in> snd ` set (idx_funcs idx) \<and> e \<in> set (body_nodes (fi_body fi))}"

definition index_ok :: "pkgIndex \<Rightarrow> bool" where
  "index_ok idx \<longleftrightarrow>
     (\<forall>fi \<in> snd ` set (idx_funcs idx). indexed (fi_body fi) fi)
     \<and> (\<forall>cs \<in> snd ` set (idx_calls idx). \<forall>a \<in> set (snd (cs_call cs)). (a, cs_caller cs) \<in> owned idx)"

definition disjoint_bodies :: "pkgIndex \<Rightarrow> bool" where
  "disjoint_bodies idx \<longleftrightarrow>
     (\<forall>f \<in> snd ` set (idx_funcs idx). \<forall>g \<in> snd ` set (idx_funcs idx).
        f = g \<or> set (body_nodes (fi_body f)) \<inter> set (body_nodes (fi_body g)) = {})"

lemma call_sites_in:
  "e \<in> set (call_sites funcs fi) \<Longrightarrow>
     cs_caller (snd e) = fi \<and> CallExpr (fst (cs_call (snd e))) (snd (cs_call (snd e))) \<in> set (body_nodes (fi_body fi))"
  by (auto simp: call_sites_def split: node.splits)

lemma build_index_ok: "index_ok (build_index c files)"
proof -
  have "indexed (fi_body fi) fi" if "fi \<in> snd ` set (func_infos files)" for fi
  proof -
    from that obtain recv ps body where "fi = newFuncInfo recv ps body"
      by (auto simp: func_infos_def split: node.splits option.splits)
    with indexed_newFuncInfo [of body recv ps] show ?thesis by (simp add: indexed_def)
  qed
  moreover have "(a, cs_caller cs) \<in> owned (build_index c files)"
    if cs: "cs \<in> snd ` set (idx_calls (build_index c files))" "a \<in> set (snd (cs_call cs))" for cs a
  proof -
    from cs(1) obtain e fi where e: "e \<in> set (call_sites (func_infos files) fi)" "cs = snd e" "fi \<in> snd ` set (func_infos files)"
      by (auto simp: build_index_def Let_def)
    note site = call_sites_in [OF e(1)]
    then have "a \<in> set (body_nodes (fi_body fi))"
      using body_child [of "CallExpr (fst (cs_call cs)) (snd (cs_call cs))" "fi_body fi" a] cs(2) e(2) by simp
    with e site show ?thesis by (simp add: owned_def build_index_def Let_def)
  qed
  ultimately show ?thesis by (simp add: index_ok_def build_index_def Let_def)
qed

text \<open>Sources of an expression of the package are expressions of the package.\<close>

lemma index_ok_value:
  assumes "index_ok idx" and "fi \<in> snd ` set (idx_funcs idx)" and "e \<in> snd ` set (fi_defs fi) \<union> set (allReturns fi)"
  shows "(e, fi) \<in> owned idx"
proof -
  have "indexed (fi_body fi) fi" using assms(1, 2) unfolding index_ok_def by blast
  with assms(2, 3) show ?thesis unfolding owned_def indexed_def by blast
qed

lemma index_ok_arg:
  "index_ok idx \<Longrightarrow> (f, cs) \<in> set (idx_calls idx) \<Longrightarrow> x \<in> set (snd (cs_call cs)) \<Longrightarrow> (x, cs_caller cs) \<in> owned idx"
  unfolding index_ok_def by (metis imageI snd_conv)

lemma ident_source_owned:
  assumes "index_ok idx" and "(e, fi) \<in> owned idx" and "a \<in> set (ident_sources idx fi nm)"
  shows "a \<in> owned idx"
  using assms(3)
proof (cases rule: ident_source_cases)
  case def
  then have "fst a \<in> snd ` set (fi_defs fi)" by (metis imageI snd_conv)
  with assms(2) index_ok_value [OF assms(1), of fi "fst a"] def(1) show ?thesis by (cases a) (simp add: owned_def)
next
  case tuple
  with index_ok_value [OF assms(1), of "snd a" "fst a"] show ?thesis by simp
next
  case param
  from paramArgs_in [OF this] index_ok_arg [OF assms(1), of _ _ "fst a"] show ?thesis by (cases a) auto
qed

lemma call_source_owned: "index_ok idx \<Longrightarrow> a \<in> set (call_sources idx f fi) \<Longrightarrow> a \<in> owned idx"
  using index_ok_value [of idx "snd a" "fst a"] call_source_in [of a idx f fi] by simp

lemma child_owned: "(e, fi) \<in> owned idx \<Longrightarrow> x \<in> set (children e) \<Longrightarrow> (x, fi) \<in> owned idx"
  by (auto simp: owned_def dest: body_child)

lemma attr_calls_owned:
  assumes "index_ok idx" and "(e, fi) \<in> owned idx" and "a \<in> set (traced (attr_calls idx e fi))"
  shows "a \<in> owned idx"
proof (cases "\<exists>x \<in> set (children e). a = (x, fi)")
  case True
  then show ?thesis using child_owned [OF assms(2)] by blast
next
  case False
  with assms(3) have "(\<exists>nm. a \<in> set (ident_sources idx fi nm)) \<or> (\<exists>f. a \<in> set (call_sources idx f fi))"
    by (cases e) (auto simp: attr_calls_def dest!: traced_elem_call split: option.splits if_splits)
  then show ?thesis using ident_source_owned [OF assms(1, 2)] call_source_owned [OF assms(1)] by blast
qed

lemma text_calls_owned:
  assumes "index_ok idx" and "(e, fi) \<in> owned idx" and "a \<in> set (text_calls idx e fi)"
  shows "a \<in> owned idx"
  using assms(3) child_owned [OF assms(2)] ident_source_owned [OF assms(1, 2)] call_source_owned [OF assms(1)]
  by (cases e) (auto simp: text_calls_def)

lemma finite_owned: "finite (fst ` owned idx)"
proof -
  have "fst ` owned idx \<subseteq> (\<Union>fi \<in> snd ` set (idx_funcs idx). set (body_nodes (fi_body fi)))"
    by (force simp: owned_def)
  then show ?thesis by (rule finite_subset) simp
qed

text \<open>The calls the searches stay in, for an index whose functions share no node.\<close>

definition search_calls :: "pkgIndex \<Rightarrow> argRef set" where
  "search_calls idx = (if index_ok idx \<and> disjoint_bodies idx then owned idx else {})"

lemma search_calls_in: "a \<in> search_calls idx \<Longrightarrow> index_ok idx \<and> a \<in> owned idx"
  by (auto simp: search_calls_def split: if_splits)

lemma search_calls_inj: "inj_on fst (search_calls idx)"
proof (rule inj_onI)
  fix a b assume "a \<in> search_calls idx" "b \<in> search_calls idx" "fst a = fst b"
  then show "a = b"
    by (cases a; cases b) (fastforce simp: search_calls_def owned_def disjoint_bodies_def split: if_splits)
qed

lemma search_calls_finite: "finite (fst ` search_calls idx)"
  using finite_owned by (simp add: search_calls_def)

subsection \<open>The trace of metric attributes as a search\<close>

definition reportable :: "pkgIndex \<Rightarrow> node \<Rightarrow> bool" where
  "reportable idx k \<longleftrightarrow> perEventKey k \<noteq> None \<and> \<not> isIgnored (idx_c idx) (node_pos k) ''metric-high-cardinality''"

definition key_positions :: "pkgIndex \<Rightarrow> attr_call list \<Rightarrow> token_pos set" where
  "key_positions idx cs = node_pos ` {k. CheckKey k \<in> set cs \<and> reportable idx k}"

definition trace_run :: "pkgIndex \<Rightarrow> argRef list \<Rightarrow> (node, token_pos) found \<Rightarrow> (node, token_pos) found option" where
  "trace_run idx as st =
     (let t = trace_calls idx (map trace_of as) \<lparr>seen = fst st, reported = snd st, tr_findings = []\<rparr>
      in Some (seen t, reported t))"

lemma checkKey_reported: "reported (checkKey idx k s) = reported s \<union> (if reportable idx k then {node_pos k} else {})"
  by (auto simp: checkKey_def reportable_def split: option.split)

lemma key_positions_simps [simp]:
  "key_positions idx [] = {}" "key_positions idx (TraceAttrs e fi # cs) = key_positions idx cs"
  "key_positions idx (CheckKey k # cs) = (if reportable idx k then {node_pos k} else {}) \<union> key_positions idx cs"
  by (auto simp: key_positions_def)

lemma trace_frame:
  "seen s' = seen s \<Longrightarrow> reported s' = reported s \<union> P \<Longrightarrow>
     seen (trace_calls idx cs s') = seen (trace_calls idx cs s)
     \<and> reported (trace_calls idx cs s') = reported (trace_calls idx cs s) \<union> P"
proof (induction idx cs s arbitrary: s' P rule: trace_calls.induct)
  case (2 idx k cs s)
  then show ?case by (simp add: checkKey_reported Un_ac)
next
  case (3 idx e fi cs s)
  then show ?case by simp
qed simp

lemma trace_keys:
  "seen (trace_calls idx cs s) = seen (trace_calls idx (map trace_of (traced cs)) s)
   \<and> reported (trace_calls idx cs s) = reported (trace_calls idx (map trace_of (traced cs)) s) \<union> key_positions idx cs"
proof (induction idx cs s rule: trace_calls.induct)
  case (2 idx k cs s)
  then show ?case
    using trace_frame [OF checkKey_seen checkKey_reported, of idx "map trace_of (traced cs)" idx k s] by (simp add: Un_ac)
next
  case (3 idx e fi cs s)
  then show ?case by (simp add: trace_of_def)
qed simp

lemma trace_run_new:
  assumes "fst a \<notin> fst st"
  shows "trace_run idx (a # as) st =
     Option.bind (trace_run idx (traced (attr_calls idx (fst a) (snd a)))
       (insert (fst a) (fst st), snd st \<union> key_positions idx (attr_calls idx (fst a) (snd a)))) (trace_run idx as)"
proof -
  let ?s = "\<lparr>seen = insert (fst a) (fst st), reported = snd st, tr_findings = []\<rparr>"
  let ?cs = "attr_calls idx (fst a) (snd a)"
  let ?t = "trace_calls idx (map trace_of (traced ?cs)) (?s\<lparr>reported := snd st \<union> key_positions idx ?cs\<rparr>)"
  have "seen (trace_calls idx ?cs ?s) = seen ?t \<and> reported (trace_calls idx ?cs ?s) = reported ?t"
    using trace_keys [of idx ?cs ?s] trace_frame [of "?s\<lparr>reported := snd st \<union> key_positions idx ?cs\<rparr>" ?s] by simp
  with trace_frame [of "trace_calls idx ?cs ?s" "\<lparr>seen = seen ?t, reported = reported ?t, tr_findings = []\<rparr>" "{}" idx "map trace_of as"]
  show ?thesis using assms by (simp add: trace_run_def trace_of_def Let_def)
qed

interpretation trace: owned_search fst "\<lambda>a. traced (attr_calls idx (fst a) (snd a))" "\<lambda>_. False"
    "\<lambda>a. key_positions idx (attr_calls idx (fst a) (snd a))" "trace_run idx" "search_calls idx"
  for idx
proof
  fix a :: argRef
  assume "a \<in> search_calls idx"
  then show "set (traced (attr_calls idx (fst a) (snd a))) \<subseteq> search_calls idx"
    using attr_calls_owned [of idx "fst a" "snd a"] by (auto simp: search_calls_def split: if_splits)
qed (simp_all add: trace_run_new search_calls_inj search_calls_finite, simp_all add: trace_run_def trace_of_def)

subsection \<open>The search for error texts\<close>

definition text_run :: "pkgIndex \<Rightarrow> argRef list \<Rightarrow> (node, unit) found \<Rightarrow> (node, unit) found option" where
  "text_run idx as st = map_option (\<lambda>S. (S, snd st)) (from_any idx as (fst st))"

lemma from_any_Cons:
  "from_any idx (a # as) S =
     (if fst a \<in> S then from_any idx as S
      else if is_error_call (fst a) then None
      else case from_any idx (text_calls idx (fst a) (snd a)) (insert (fst a) S) of None \<Rightarrow> None | Some S' \<Rightarrow> from_any idx as S')"
  by (cases a) simp

interpretation etext: owned_search fst "\<lambda>a. text_calls idx (fst a) (snd a)" "\<lambda>a. is_error_call (fst a)" "\<lambda>_. {}"
    "text_run idx" "search_calls idx"
  for idx
proof
  fix a :: argRef
  assume "a \<in> search_calls idx"
  then show "set (text_calls idx (fst a) (snd a)) \<subseteq> search_calls idx"
    using text_calls_owned [of idx "fst a" "snd a"] by (auto simp: search_calls_def split: if_splits)
qed (simp_all add: search_calls_inj search_calls_finite text_run_def from_any_Cons split: option.split)

subsection \<open>Flow of values\<close>

text \<open>An expression whose attributes reach a metric.\<close>

inductive reaches_metric :: "pkgIndex \<Rightarrow> argRef \<Rightarrow> bool" for idx where
  sink: "fi \<in> snd ` set (idx_funcs idx) \<Longrightarrow> n \<in> set (body_nodes (fi_body fi)) \<Longrightarrow> a \<in> set (metric_roots idx fi n)
    \<Longrightarrow> reaches_metric idx a"
| paren: "reaches_metric idx (ParenExpr p x, fi) \<Longrightarrow> reaches_metric idx (x, fi)"
| elem: "reaches_metric idx (CompositeLit t p es, fi) \<Longrightarrow> x \<in> set es \<Longrightarrow> \<nexists>k v. x = KeyValueExpr k v
    \<Longrightarrow> reaches_metric idx (x, fi)"
| source: "reaches_metric idx (Ident p nm, fi) \<Longrightarrow> a \<in> set (ident_sources idx fi nm) \<Longrightarrow> reaches_metric idx a"
| append: "reaches_metric idx (CallExpr f as, fi) \<Longrightarrow> kvKey f as = None \<Longrightarrow> isIdent f ''append'' \<Longrightarrow> x \<in> set as
    \<Longrightarrow> reaches_metric idx (x, fi)"
| result: "reaches_metric idx (CallExpr f as, fi) \<Longrightarrow> kvKey f as = None \<Longrightarrow> \<not> isIdent f ''append''
    \<Longrightarrow> a \<in> set (call_sources idx f fi) \<Longrightarrow> reaches_metric idx a"

text \<open>A key of such attributes: of a literal, of an index write, or of an attribute constructor.\<close>

inductive metric_key :: "pkgIndex \<Rightarrow> node \<Rightarrow> bool" for idx where
  literal: "reaches_metric idx (CompositeLit t p es, fi) \<Longrightarrow> KeyValueExpr k v \<in> set es \<Longrightarrow> metric_key idx k"
| written: "reaches_metric idx (Ident p nm, fi) \<Longrightarrow> (nm, k) \<in> set (fi_writes fi) \<Longrightarrow> metric_key idx k"
| constructed: "reaches_metric idx (CallExpr f as, fi) \<Longrightarrow> kvKey f as = Some k \<Longrightarrow> metric_key idx k"

text \<open>An expression that takes its value from an error's text.\<close>

inductive carries_error_text :: "pkgIndex \<Rightarrow> argRef \<Rightarrow> bool" for idx where
  call: "is_error_call e \<Longrightarrow> carries_error_text idx (e, fi)"
| paren: "carries_error_text idx (x, fi) \<Longrightarrow> carries_error_text idx (ParenExpr p x, fi)"
| source: "a \<in> set (ident_sources idx fi nm) \<Longrightarrow> carries_error_text idx a \<Longrightarrow> carries_error_text idx (Ident p nm, fi)"
| result: "a \<in> set (call_sources idx f fi) \<Longrightarrow> carries_error_text idx a \<Longrightarrow> carries_error_text idx (CallExpr f as, fi)"

lemma elem_call_iff:
  "TraceAttrs y g = elem_call fi x \<longleftrightarrow> y = x \<and> g = fi \<and> (\<nexists>k v. x = KeyValueExpr k v)"
  "CheckKey k = elem_call fi x \<longleftrightarrow> (\<exists>v. x = KeyValueExpr k v)"
  by (cases x; auto simp: elem_call_def)+

lemma elem_call_trace: "TraceAttrs x fi \<in> elem_call fi' ` set es \<longleftrightarrow> fi = fi' \<and> x \<in> set es \<and> (\<nexists>k v. x = KeyValueExpr k v)"
  unfolding image_iff elem_call_iff by blast

lemma elem_call_key: "CheckKey k \<in> elem_call fi ` set es \<longleftrightarrow> (\<exists>v. KeyValueExpr k v \<in> set es)"
  unfolding image_iff elem_call_iff by blast

lemma trace_of_image [simp]: "TraceAttrs e fi \<in> trace_of ` A \<longleftrightarrow> (e, fi) \<in> A" "CheckKey k \<notin> trace_of ` A"
  by (force simp: trace_of_def)+

text \<open>The calls of a body, by the form of the expression.\<close>

lemma attr_calls_trace_iff:
  "TraceAttrs x g \<in> set (attr_calls idx e fi) \<longleftrightarrow>
     (case e of
        ParenExpr p y \<Rightarrow> x = y \<and> g = fi
      | CompositeLit t p es \<Rightarrow> g = fi \<and> x \<in> set es \<and> (\<nexists>k v. x = KeyValueExpr k v)
      | Ident p nm \<Rightarrow> (x, g) \<in> set (ident_sources idx fi nm)
      | CallExpr f as \<Rightarrow> kvKey f as = None \<and>
          (if isIdent f ''append'' then g = fi \<and> x \<in> set as else (x, g) \<in> set (call_sources idx f fi))
      | _ \<Rightarrow> False)"
  by (cases e) (auto simp: attr_calls_def elem_call_trace split: option.split)

lemma attr_calls_key_iff:
  "CheckKey k \<in> set (attr_calls idx e fi) \<longleftrightarrow>
     (case e of
        CompositeLit t p es \<Rightarrow> (\<exists>v. KeyValueExpr k v \<in> set es)
      | Ident p nm \<Rightarrow> (nm, k) \<in> set (fi_writes fi)
      | CallExpr f as \<Rightarrow> kvKey f as = Some k
      | _ \<Rightarrow> False)"
  by (cases e) (auto simp: attr_calls_def elem_call_key lookup_all_in split: option.split)

definition all_roots :: "pkgIndex \<Rightarrow> argRef list" where
  "all_roots idx =
     concat (map (\<lambda>fi. concat (map (metric_roots idx fi) (body_nodes (fi_body fi)))) (map snd (idx_funcs idx)))"

lemma all_roots_in:
  "a \<in> set (all_roots idx) \<longleftrightarrow> (\<exists>fi \<in> snd ` set (idx_funcs idx). \<exists>n \<in> set (body_nodes (fi_body fi)). a \<in> set (metric_roots idx fi n))"
  by (auto simp: all_roots_def)

lemma reaches_step: "reaches_metric idx (e, fi) \<Longrightarrow> TraceAttrs x g \<in> set (attr_calls idx e fi) \<Longrightarrow> reaches_metric idx (x, g)"
  by (cases e) (auto simp: attr_calls_trace_iff split: if_splits intro: reaches_metric.intros)

lemma trace_reach: "trace.reach idx (all_roots idx) = {a. reaches_metric idx a}"
proof (intro set_eqI iffI)
  fix a assume "a \<in> trace.reach idx (all_roots idx)"
  then obtain r where r: "r \<in> set (all_roots idx)"
      "(\<lambda>a b. b \<in> set (traced (attr_calls idx (fst a) (snd a))))\<^sup>*\<^sup>* r a" by (auto simp: trace.reach_def)
  from r(2) have "reaches_metric idx a"
  proof (induction rule: rtranclp_induct)
    case base
    with r(1) show ?case by (auto simp: all_roots_in intro: reaches_metric.sink)
  next
    case (step b c)
    then show ?case using reaches_step [of idx "fst b" "snd b" "fst c" "snd c"] by (simp add: traced_in)
  qed
  then show "a \<in> {a. reaches_metric idx a}" by simp
next
  have next_in: "(x, g) \<in> trace.reach idx (all_roots idx)"
    if "(e, fi) \<in> trace.reach idx (all_roots idx)" "TraceAttrs x g \<in> set (attr_calls idx e fi)" for e fi x g
    using that trace.reach_next by (fastforce simp: traced_in)
  fix a assume "a \<in> {a. reaches_metric idx a}"
  then have "reaches_metric idx a" by simp
  then show "a \<in> trace.reach idx (all_roots idx)"
  proof induction
    case (sink fi n a)
    then have "a \<in> set (all_roots idx)" unfolding all_roots_in by blast
    then show ?case by (rule trace.reach_self)
  next
    case (source p nm fi a)
    then show ?case using next_in [of "Ident p nm" fi "fst a" "snd a"] by (simp add: attr_calls_trace_iff)
  next
    case (result f as fi a)
    then show ?case using next_in [of "CallExpr f as" fi "fst a" "snd a"] by (simp add: attr_calls_trace_iff)
  next
    case (paren p x fi)
    show ?case by (rule next_in [OF paren.IH]) (simp add: attr_calls_trace_iff)
  next
    case (elem t p es fi x)
    show ?case by (rule next_in [OF elem.IH]) (simp add: attr_calls_trace_iff elem.hyps)
  next
    case (append f as fi x)
    show ?case by (rule next_in [OF append.IH]) (simp add: attr_calls_trace_iff append.hyps)
  qed
qed

lemma key_positions_reach:
  "(\<Union>a \<in> {a. reaches_metric idx a}. key_positions idx (attr_calls idx (fst a) (snd a)))
   = node_pos ` {k. metric_key idx k \<and> reportable idx k}"
proof -
  have *: "metric_key idx k \<longleftrightarrow> (\<exists>a. reaches_metric idx a \<and> CheckKey k \<in> set (attr_calls idx (fst a) (snd a)))" for k
  proof
    assume "metric_key idx k"
    then show "\<exists>a. reaches_metric idx a \<and> CheckKey k \<in> set (attr_calls idx (fst a) (snd a))"
      by cases (force simp: attr_calls_key_iff)+
  next
    assume "\<exists>a. reaches_metric idx a \<and> CheckKey k \<in> set (attr_calls idx (fst a) (snd a))"
    then obtain e fi where "reaches_metric idx (e, fi)" "CheckKey k \<in> set (attr_calls idx e fi)" by auto
    then show "metric_key idx k"
      by (cases e) (auto simp: attr_calls_key_iff intro: metric_key.intros)
  qed
  show ?thesis unfolding key_positions_def * by blast
qed

subsection \<open>What the rules report\<close>

lemma trace_calls_append: "trace_calls idx (cs @ ds) s = trace_calls idx ds (trace_calls idx cs s)"
  by (induction idx cs s rule: trace_calls.induct) simp_all

lemma fold_traceAttrs: "fold (\<lambda>a. traceAttrs idx (fst a) (snd a)) as s = trace_calls idx (map trace_of as) s"
proof (induction as arbitrary: s)
  case (Cons a as)
  then show ?case using trace_calls_append [of idx "[trace_of a]" "map trace_of as" s]
    by (simp add: traceAttrs_def trace_of_def)
qed simp

definition same_trace :: "trace_state \<Rightarrow> trace_state \<Rightarrow> bool" where
  "same_trace s t \<longleftrightarrow> seen s = seen t \<and> reported s = reported t"

lemma same_trace_calls: "same_trace s t \<Longrightarrow> same_trace (trace_calls idx cs s) (trace_calls idx cs t)"
  using trace_frame [of s t "{}" idx cs] by (simp add: same_trace_def)

lemma same_trace_trans [trans]: "same_trace s t \<Longrightarrow> same_trace t u \<Longrightarrow> same_trace s u"
  by (simp add: same_trace_def)

lemma telemetry_node_trace: "same_trace (telemetry_node idx fi n s) (trace_calls idx (map trace_of (metric_roots idx fi n)) s)"
  unfolding telemetry_node_def fold_traceAttrs
  by (rule same_trace_calls) (simp add: same_trace_def add_findings_def)

text \<open>A fold of steps that each trace some roots traces all of them.\<close>

lemma fold_same_trace:
  assumes "\<And>x s. same_trace (f x s) (trace_calls idx (map trace_of (g x)) s)"
  shows "same_trace (fold f xs s) (trace_calls idx (map trace_of (concat (map g xs))) s)"
proof (induction xs arbitrary: s)
  case (Cons x xs)
  have "same_trace (fold f xs (f x s)) (trace_calls idx (map trace_of (concat (map g xs))) (f x s))" by (rule Cons)
  also have "same_trace \<dots> (trace_calls idx (map trace_of (concat (map g xs))) (trace_calls idx (map trace_of (g x)) s))"
    by (rule same_trace_calls) (rule assms)
  finally show ?case by (simp add: trace_calls_append)
qed (simp add: same_trace_def)

lemma checkTelemetry_trace:
  "trace_run (build_index c files) (all_roots (build_index c files)) ({}, {})
   = Some (seen (checkTelemetry c files), reported (checkTelemetry c files))"
proof -
  let ?idx = "build_index c files"
  have "same_trace (telemetry_func ?idx fi s)
      (trace_calls ?idx (map trace_of (concat (map (metric_roots ?idx fi) (body_nodes (fi_body fi))))) s)" for fi s
    unfolding telemetry_func_def by (rule fold_same_trace) (rule telemetry_node_trace)
  then have "same_trace (fold (telemetry_func ?idx) (map snd (idx_funcs ?idx)) s) (trace_calls ?idx (map trace_of (all_roots ?idx)) s)" for s
    unfolding all_roots_def by (rule fold_same_trace)
  then show ?thesis
    unfolding checkTelemetry_def Let_def trace_run_def by (simp add: same_trace_def)
qed

lemma metric_root_owned:
  assumes "fi \<in> snd ` set (idx_funcs idx)" "n \<in> set (body_nodes (fi_body fi))" "a \<in> set (metric_roots idx fi n)"
  shows "a \<in> owned idx"
proof -
  from assms(3) obtain f as where n: "n = CallExpr f as" and a: "snd a = fi" "fst a \<in> set (metric_args idx f as)"
    by (cases n) (auto simp: metric_roots_def)
  have "as ! 3 \<in> set as" if "isMetricCall f as" using that by (auto simp: isMetricCall_def split: node.splits)
  with a(2) have "fst a \<in> set (children n)" by (auto simp: n metric_args_def split: if_splits)
  with body_child [OF assms(2)] assms(1) a(1) show ?thesis by (cases a) (simp add: owned_def)
qed

text \<open>
  The metric findings stand one to one for the reported key positions.
\<close>

definition is_metric_finding :: "finding \<Rightarrow> bool" where
  "is_metric_finding f \<longleftrightarrow> fd_rule f = ''metric-high-cardinality''"

definition one_each :: "checker \<Rightarrow> trace_state \<Rightarrow> bool" where
  "one_each c s \<longleftrightarrow>
     (\<exists>ps. distinct ps \<and> set ps = reported s
        \<and> map fd_pos (filter is_metric_finding (tr_findings s)) = map (fset_Position c) ps)"

lemma one_each_checkKey: "one_each (idx_c idx) s \<Longrightarrow> one_each (idx_c idx) (checkKey idx k s)"
proof -
  assume "one_each (idx_c idx) s"
  then obtain ps where ps: "distinct ps" "set ps = reported s"
      "map fd_pos (filter is_metric_finding (tr_findings s)) = map (fset_Position (idx_c idx)) ps"
    by (auto simp: one_each_def)
  then have "map fd_pos (filter is_metric_finding (tr_findings (checkKey idx k s)))
      = map (fset_Position (idx_c idx)) (ps @ (if reportable idx k \<and> node_pos k \<notin> reported s then [node_pos k] else []))"
    by (auto simp: checkKey_def reportable_def reportAt_def is_metric_finding_def split: option.split)
  with ps show ?thesis unfolding one_each_def checkKey_reported
    by (intro exI [of _ "ps @ (if reportable idx k \<and> node_pos k \<notin> reported s then [node_pos k] else [])"]) auto
qed

lemma one_each_trace: "one_each (idx_c idx) s \<Longrightarrow> one_each (idx_c idx) (trace_calls idx cs s)"
proof (induction idx cs s rule: trace_calls.induct)
  case (3 idx e fi cs s)
  then show ?case by (simp add: one_each_def)
qed (simp_all add: one_each_checkKey)

lemma checkErrorType_rule: "f \<in> set (checkErrorType idx site k v fi) \<Longrightarrow> fd_rule f = ''error-type-message''"
  by (auto simp: checkErrorType_def Let_def reportAt_def split: if_splits)

lemma error_type_sets_rule: "f \<in> set (error_type_sets idx fi n) \<Longrightarrow> fd_rule f = ''error-type-message''"
  by (cases n)
    (auto simp: error_type_sets_def checkErrorTypeCall_def split: node.splits if_splits dest!: checkErrorType_rule)

lemma one_each_node: "one_each (idx_c idx) s \<Longrightarrow> one_each (idx_c idx) (telemetry_node idx fi n s)"
proof -
  assume "one_each (idx_c idx) s"
  moreover have "filter is_metric_finding (error_type_sets idx fi n) = []"
    using error_type_sets_rule by (force simp: filter_empty_conv is_metric_finding_def)
  ultimately show ?thesis
    unfolding telemetry_node_def fold_traceAttrs
    by (intro one_each_trace) (simp add: one_each_def add_findings_def)
qed

lemma one_each_func: "one_each (idx_c idx) s \<Longrightarrow> one_each (idx_c idx) (telemetry_func idx fi s)"
proof -
  have "one_each (idx_c idx) s \<Longrightarrow> one_each (idx_c idx) (fold (telemetry_node idx fi) ns s)" for ns
    by (induction ns arbitrary: s) (simp_all add: one_each_node)
  then show "one_each (idx_c idx) s \<Longrightarrow> ?thesis" by (simp add: telemetry_func_def)
qed

lemma one_each_checkTelemetry: "one_each c (checkTelemetry c files)"
proof -
  have "one_each (idx_c idx) s \<Longrightarrow> one_each (idx_c idx) (fold (telemetry_func idx) fis s)" for idx fis s
    by (induction fis arbitrary: s) (simp_all add: one_each_func)
  from this [of "build_index c files"] show ?thesis
    by (simp add: checkTelemetry_def Let_def build_index_def one_each_def)
qed


text \<open>The flow of the error-text search.\<close>

lemma text_reach_carries:
  assumes "(\<lambda>a b. b \<in> set (text_calls idx (fst a) (snd a)))\<^sup>*\<^sup>* a b" and "carries_error_text idx b"
  shows "carries_error_text idx a"
  using assms
proof (induction rule: converse_rtranclp_induct)
  case (step a c)
  obtain e fi where a: "a = (e, fi)" by (cases a)
  from step have c: "carries_error_text idx c" "c \<in> set (text_calls idx e fi)" by (simp_all add: a)
  show ?case
  proof (cases e)
    case (ParenExpr p x)
    with c show ?thesis by (simp add: a text_calls_def carries_error_text.paren)
  next
    case (Ident p nm)
    with c show ?thesis using carries_error_text.source [of c idx fi nm p] by (simp add: a text_calls_def)
  next
    case (CallExpr f as)
    with c show ?thesis using carries_error_text.result [of c idx f fi as] by (simp add: a text_calls_def)
  qed (use c(2) in \<open>simp_all add: text_calls_def\<close>)
qed

lemma text_step:
  assumes "c \<in> set (text_calls idx (fst a) (snd a))"
    and "\<exists>b. (\<lambda>a b. b \<in> set (text_calls idx (fst a) (snd a)))\<^sup>*\<^sup>* c b \<and> is_error_call (fst b)"
  shows "\<exists>b. (\<lambda>a b. b \<in> set (text_calls idx (fst a) (snd a)))\<^sup>*\<^sup>* a b \<and> is_error_call (fst b)"
  using assms converse_rtranclp_into_rtranclp [of "\<lambda>a b. b \<in> set (text_calls idx (fst a) (snd a))" a c] by blast

lemma carries_reach:
  "carries_error_text idx a \<Longrightarrow>
     \<exists>b. (\<lambda>a b. b \<in> set (text_calls idx (fst a) (snd a)))\<^sup>*\<^sup>* a b \<and> is_error_call (fst b)"
proof (induction rule: carries_error_text.induct)
  case (call e fi)
  then show ?case by (intro exI [of _ "(e, fi)"]) simp
next
  case (paren x fi p)
  show ?case by (rule text_step [OF _ paren.IH]) (simp add: text_calls_def)
next
  case (source a fi nm p)
  show ?case by (rule text_step [OF _ source.IH]) (simp add: text_calls_def source.hyps)
next
  case (result a f fi as)
  show ?case by (rule text_step [OF _ result.IH]) (simp add: text_calls_def result.hyps)
qed

lemma text_reach_iff: "(\<exists>b \<in> etext.reach idx [a]. is_error_call (fst b)) \<longleftrightarrow> carries_error_text idx a"
proof
  assume "\<exists>b \<in> etext.reach idx [a]. is_error_call (fst b)"
  then obtain b where "(\<lambda>a b. b \<in> set (text_calls idx (fst a) (snd a)))\<^sup>*\<^sup>* a b" "is_error_call (fst b)"
    by (auto simp: etext.reach_def)
  then show "carries_error_text idx a"
    using text_reach_carries carries_error_text.call [of "fst b" idx "snd b"] by simp
next
  assume "carries_error_text idx a"
  with carries_reach show "\<exists>b \<in> etext.reach idx [a]. is_error_call (fst b)" by (fastforce simp: etext.reach_def)
qed


subsection \<open>Samples\<close>

text \<open>Line \<open>p div 100\<close> and column \<open>p mod 100\<close> of one file, with no suppression.\<close>

definition sample_checker :: checker where
  "sample_checker = \<lparr>fset_Position = (\<lambda>p. \<lparr>po_Filename = ''p.go'', po_Line = p div 100, po_Column = p mod 100\<rparr>),
     fset_files = 1, findings = [], ignores = Map.empty, dirs = []\<rparr>"

text \<open>
  Builders that call each other in a cycle: \<open>a\<close> returns \<open>a()\<close> or \<open>b()\<close>, \<open>b\<close> returns a map with the key
  \<open>url.full\<close>, and \<open>f\<close> records a metric with \<open>a()\<close>. In \<open>g\<close>, \<open>error.type\<close> is set from \<open>e\<close>, which is
  assigned from \<open>t()\<close>, which returns \<open>err.Error()\<close>.
\<close>

definition sample_package :: "go_file list" where
  "sample_package =
     [\<lparr>f_Name = ''p'',
       f_Decls =
         [FuncDecl None (101, ''a'') [] [] None
            (Some [ReturnStmt 110 [CallExpr (Ident 117 ''a'') []], ReturnStmt 130 [CallExpr (Ident 137 ''b'') []]]),
          FuncDecl None (201, ''b'') [] [] None
            (Some [ReturnStmt 210 [CompositeLit (Some (Ident 217 ''M'')) 218
               [KeyValueExpr (BasicLit 219 STRING (quote_text ''url.full'')) (Ident 230 ''u'')]]]),
          FuncDecl None (301, ''f'') [] [] None
            (Some [ExprStmt (CallExpr (SelectorExpr (Ident 310 ''m'') (312, ''Record''))
               [Ident 320 ''ctx'', Ident 325 ''i'', BasicLit 328 OtherLit ''1'', CallExpr (Ident 331 ''a'') []])]),
          FuncDecl None (401, ''t'') [] [] None
            (Some [ReturnStmt 410 [CallExpr (SelectorExpr (Ident 417 ''err'') (421, ''Error'')) []]]),
          FuncDecl None (501, ''g'') [] [] None
            (Some [AssignStmt [Ident 510 ''e''] [CallExpr (Ident 515 ''t'') []],
                   AssignStmt [IndexExpr (Ident 520 ''m'') (BasicLit 522 STRING (quote_text ''error.type''))] [Ident 540 ''e'']])],
       f_Comments = [], f_generated = False\<rparr>]"

lemma sample_disjoint: "disjoint_bodies (build_index sample_checker sample_package)"
  by code_simp

lemma sample_reported: "reported (checkTelemetry sample_checker sample_package) = {219}"
  by code_simp


definition sample_setter :: funcInfo where
  "sample_setter = snd (idx_funcs (build_index sample_checker sample_package) ! 4)"

lemma sample_owned: "(Ident 540 ''e'', sample_setter) \<in> owned (build_index sample_checker sample_package)"
proof -
  have "sample_setter \<in> snd ` set (idx_funcs (build_index sample_checker sample_package))" by code_simp
  moreover have "Ident 540 ''e'' \<in> set (body_nodes (fi_body sample_setter))" by code_simp
  ultimately show ?thesis by (simp add: owned_def)
qed

lemma sample_text_reported:
  "map fd_pos (checkErrorType (build_index sample_checker sample_package) 520
     (BasicLit 522 STRING (quote_text ''error.type'')) (Ident 540 ''e'') sample_setter)
   = [\<lparr>po_Filename = ''p.go'', po_Line = 5, po_Column = 40\<rparr>]"
  by code_simp


text \<open>
  Only the first argument of a variadic parameter is traced: the key \<open>user.id\<close> of the second one
  reaches the metric in \<open>r\<close> and is not reported.
\<close>

definition variadic_package :: "go_file list" where
  "variadic_package =
     [\<lparr>f_Name = ''p'',
       f_Decls =
         [FuncDecl None (101, ''r'') [] [Field [(110, ''attrs'')] (OtherNode 116 [Ident 119 ''KV''])] None
            (Some [ExprStmt (CallExpr (SelectorExpr (Ident 210 ''m'') (212, ''Add''))
               [Ident 220 ''ctx'', Ident 225 ''i'', BasicLit 228 OtherLit ''1'', Ident 231 ''attrs''])]),
          FuncDecl None (301, ''f'') [] [] None
            (Some [ExprStmt (CallExpr (Ident 310 ''r'')
               [Ident 312 ''x'', CallExpr (SelectorExpr (Ident 320 ''attribute'') (330, ''String''))
                  [BasicLit 337 STRING (quote_text ''user.id''), Ident 348 ''u'']])])],
       f_Comments = [], f_generated = False\<rparr>]"

lemma variadic_tail_missed: "reported (checkTelemetry sample_checker variadic_package) = {}"
  by code_simp

end
