(* ===== verification/Gostyle.thy ===== *)
theory Gostyle
  imports Gostyle_Flow "HOL-Library.Multiset"
begin

text \<open>
  The command \<open>gostyle\<close>: the walk over files and directories, the check of a file, the package rules
  of every directory, and the output of \<open>main\<close>. The parser, the file system, the order in which Go
  ranges over a map and \<open>sort.Slice\<close> are parameters. A directory is its entries in lexical order and
  the error of reading it, if any; the parser is given the number of files parsed before, which fixes
  the positions of the file in the file set.
\<close>

subsection \<open>Files and directories\<close>

datatype fs_entry = FsFile string | FsDir string "gerr option" "fs_entry list"

fun entry_name :: "fs_entry \<Rightarrow> string" where
  "entry_name (FsFile n) = n"
| "entry_name (FsDir n err es) = n"

record gs_env =
  ge_ParseFile :: "nat \<Rightarrow> string \<Rightarrow> gerr + go_file"
  ge_Stat :: "string \<Rightarrow> gerr + bool"
  ge_Lstat :: "string \<Rightarrow> gerr + fs_entry"
  ge_order :: "(string \<times> go_file list) list \<Rightarrow> (string \<times> go_file list) list"
  ge_sort :: "finding list \<Rightarrow> finding list"
  ge_uni :: "string \<Rightarrow> string"

fun add_to_dir :: "string \<Rightarrow> go_file \<Rightarrow> (string \<times> go_file list) list \<Rightarrow> (string \<times> go_file list) list" where
  "add_to_dir d f [] = [(d, [f])]"
| "add_to_dir d f ((d', fs) # ds) = (if d' = d then (d, fs @ [f]) # ds else (d', fs) # add_to_dir d f ds)"

definition checkFile :: "gs_env \<Rightarrow> string \<Rightarrow> checker \<Rightarrow> gerr + checker" where
  "checkFile env path c0 =
     (case ge_ParseFile env (fset_files c0) path of
        Inl e \<Rightarrow> Inl e
      | Inr f \<Rightarrow>
          let c = c0\<lparr>fset_files := fset_files c0 + 1\<rparr>
          in if f_generated f then Inr c
             else let isTest = suffix ''_test.go'' path;
                      c1 = c\<lparr>ignores := (ignores c)(path \<mapsto> collect_ignores c (f_Comments f)),
                             dirs := (if isTest then dirs c else add_to_dir (path_Dir path) f (dirs c))\<rparr>;
                      fc = \<lparr>fc_checker = c1, fc_file = f, fc_pkg = f_Name f, fc_isTest = isTest, fc_isMain = (f_Name f = ''main'')\<rparr>
                  in Inr (c1\<lparr>findings := findings c1 @ run_rules (ge_uni env) fc\<rparr>))"

definition skipped_dir :: "string \<Rightarrow> bool" where
  "skipped_dir name \<longleftrightarrow> prefix ''.'' name \<or> prefix ''_'' name \<or> name = ''vendor'' \<or> name = ''testdata''"

text \<open>\<open>filepath.WalkDir\<close> with the callback of \<open>walk\<close>.\<close>

fun walk_entry :: "gs_env \<Rightarrow> string \<Rightarrow> string \<Rightarrow> fs_entry \<Rightarrow> checker \<Rightarrow> gerr + checker"
  and walk_entries :: "gs_env \<Rightarrow> string \<Rightarrow> string \<Rightarrow> fs_entry list \<Rightarrow> checker \<Rightarrow> gerr + checker" where
  "walk_entry env root path (FsFile name) c = (if suffix ''.go'' name then checkFile env path c else Inr c)"
| "walk_entry env root path (FsDir name err es) c =
     (if path \<noteq> root \<and> skipped_dir name then Inr c
      else case err of Some e \<Rightarrow> Inl e | None \<Rightarrow> walk_entries env root path es c)"
| "walk_entries env root path [] c = Inr c"
| "walk_entries env root path (e # es) c =
     (case walk_entry env root (path_Join path (entry_name e)) e c of
        Inl err \<Rightarrow> Inl err
      | Inr c' \<Rightarrow> walk_entries env root path es c')"

definition walk :: "gs_env \<Rightarrow> string \<Rightarrow> checker \<Rightarrow> gerr + checker" where
  "walk env root c =
     (case ge_Stat env root of
        Inl e \<Rightarrow> Inl e
      | Inr isDir \<Rightarrow>
          if \<not> isDir then checkFile env root c
          else case ge_Lstat env root of Inl e \<Rightarrow> Inl e | Inr d \<Rightarrow> walk_entry env root root d c)"

definition trim_suffix :: "string \<Rightarrow> string \<Rightarrow> string" where
  "trim_suffix s suf = (if suffix suf s then take (length s - length suf) s else s)"

fun walk_all :: "gs_env \<Rightarrow> string list \<Rightarrow> checker \<Rightarrow> gerr + checker" where
  "walk_all env [] c = Inr c"
| "walk_all env (p # ps) c =
     (case walk env (trim_suffix p ''/...'') c of Inl e \<Rightarrow> Inl e | Inr c' \<Rightarrow> walk_all env ps c')"

definition empty_checker :: "(token_pos \<Rightarrow> position) \<Rightarrow> checker" where
  "empty_checker pos = \<lparr>fset_Position = pos, fset_files = 0, findings = [], ignores = Map.empty, dirs = []\<rparr>"

definition check :: "gs_env \<Rightarrow> (token_pos \<Rightarrow> position) \<Rightarrow> string list \<Rightarrow> gerr + checker" where
  "check env pos paths =
     (case walk_all env paths (empty_checker pos) of
        Inl e \<Rightarrow> Inl e
      | Inr c \<Rightarrow> Inr (fold (\<lambda>d c. c\<lparr>findings := findings c @ tr_findings (checkTelemetry c (snd d))\<rparr>) (ge_order env (dirs c)) c))"

subsection \<open>Output\<close>

definition position_string :: "position \<Rightarrow> string" where
  "position_string p =
     (let s = po_Filename p;
          t = (if 0 < po_Line p then
                 (if s = [] then [] else s @ '':'') @ utoa (po_Line p) @ (if po_Column p = 0 then [] else '':'' @ utoa (po_Column p))
               else s)
      in if t = [] then ''-'' else t)"

definition finding_line :: "finding \<Rightarrow> string" where
  "finding_line f =
     position_string (fd_pos f) @ '': '' @ fd_rule f @ '': '' @ fd_msg f @ '' ('' @ str_lookup ruleDocs (fd_rule f) @ '')''"

text \<open>The comparison of strings by bytes, and the order of \<open>main\<close> on findings.\<close>

fun str_less :: "string \<Rightarrow> string \<Rightarrow> bool" where
  "str_less s [] \<longleftrightarrow> False"
| "str_less [] (y # ys) \<longleftrightarrow> True"
| "str_less (x # xs) (y # ys) \<longleftrightarrow> (of_char x :: nat) < of_char y \<or> x = y \<and> str_less xs ys"

definition finding_less :: "finding \<Rightarrow> finding \<Rightarrow> bool" where
  "finding_less a b =
     (if po_Filename (fd_pos a) \<noteq> po_Filename (fd_pos b) then str_less (po_Filename (fd_pos a)) (po_Filename (fd_pos b))
      else po_Line (fd_pos a) < po_Line (fd_pos b))"

record gs_output =
  out_stdout :: "string list"
  out_stderr :: string
  out_exit :: nat

definition gs_main :: "gs_env \<Rightarrow> (token_pos \<Rightarrow> position) \<Rightarrow> string list \<Rightarrow> gs_output" where
  "gs_main env pos args =
     (let paths = (if args = [] then [''.''] else args)
      in case check env pos paths of
           Inl err \<Rightarrow> \<lparr>out_stdout = [], out_stderr = ''gostyle: '' @ error_string err, out_exit = 2\<rparr>
         | Inr c \<Rightarrow>
             let fs = ge_sort env (findings c)
             in \<lparr>out_stdout = map finding_line fs,
                 out_stderr = ''gostyle: '' @ utoa (length fs) @ '' finding(s)'',
                 out_exit = (if fs = [] then 0 else 1)\<rparr>)"

subsection \<open>The walk\<close>

text \<open>
  The files a walk checks: those whose name ends in \<open>.go\<close>, outside hidden, underscored, vendor and
  testdata directories below the root.
\<close>

fun go_paths :: "string \<Rightarrow> string \<Rightarrow> fs_entry \<Rightarrow> string list" where
  "go_paths root path (FsFile name) = (if suffix ''.go'' name then [path] else [])"
| "go_paths root path (FsDir name err es) =
     (if path \<noteq> root \<and> skipped_dir name then []
      else concat (map (\<lambda>e. go_paths root (path_Join path (entry_name e)) e) es))"

fun readable :: "string \<Rightarrow> string \<Rightarrow> fs_entry \<Rightarrow> bool" where
  "readable root path (FsFile name) \<longleftrightarrow> True"
| "readable root path (FsDir name err es) \<longleftrightarrow>
     path \<noteq> root \<and> skipped_dir name \<or> err = None \<and> (\<forall>e \<in> set es. readable root (path_Join path (entry_name e)) e)"

fun check_files :: "gs_env \<Rightarrow> string list \<Rightarrow> checker \<Rightarrow> gerr + checker" where
  "check_files env [] c = Inr c"
| "check_files env (p # ps) c = (case checkFile env p c of Inl e \<Rightarrow> Inl e | Inr c' \<Rightarrow> check_files env ps c')"

lemma check_files_append:
  "check_files env (ps @ qs) c = (case check_files env ps c of Inl e \<Rightarrow> Inl e | Inr c' \<Rightarrow> check_files env qs c')"
  by (induction ps arbitrary: c) (simp_all split: sum.split)

text \<open>
  The walk checks exactly these files, in lexical order of the tree, and stops at the first file that
  cannot be parsed.
\<close>

theorem walk_checks_files:
  "readable root path e \<Longrightarrow> walk_entry env root path e c = check_files env (go_paths root path e) c"
  "\<forall>e \<in> set es. readable root (path_Join path (entry_name e)) e \<Longrightarrow>
     walk_entries env root path es c = check_files env (concat (map (\<lambda>e. go_paths root (path_Join path (entry_name e)) e) es)) c"
proof (induction env root path e c and env root path es c rule: walk_entry_walk_entries.induct)
  case (1 env root path name c)
  then show ?case by (simp split: sum.split)
next
  case (4 env root path e es c)
  then show ?case by (simp add: check_files_append split: sum.split)
qed auto

subsection \<open>What is reported\<close>

lemma collect_ignores_files [simp]: "collect_ignores (c\<lparr>fset_files := n\<rparr>) cms = collect_ignores c cms"
proof -
  have "add_ignore (c\<lparr>fset_files := n\<rparr>) = add_ignore c" by (simp add: fun_eq_iff add_ignore_def)
  then show ?thesis by (simp add: collect_ignores_def)
qed

lemma checkFile_result:
  assumes "ge_ParseFile env (fset_files c) path = Inr f" and "\<not> f_generated f" and "checkFile env path c = Inr c'"
  obtains fc where "fc_checker fc = c'\<lparr>findings := findings c\<rparr>" "findings c' = findings c @ run_rules (ge_uni env) fc"
    "ignores c' path = Some (collect_ignores c (f_Comments f))" "fset_Position c' = fset_Position c"
  by (rule that [of "\<lparr>fc_checker = c'\<lparr>findings := findings c\<rparr>, fc_file = f, fc_pkg = f_Name f,
      fc_isTest = suffix ''_test.go'' path, fc_isMain = (f_Name f = ''main'')\<rparr>"])
    (use assms in \<open>auto simp: checkFile_def Let_def\<close>)

text \<open>
  C31: Suppression is exact. After a file is checked, a rule is suppressed at a position of the file just
  when a directive on the same line or the line above names it, and every finding the check added has
  a known rule and stands where the rule is not suppressed.
\<close>

theorem checkFile_suppression:
  assumes "ge_ParseFile env (fset_files c) path = Inr f" and "\<not> f_generated f" and "checkFile env path c = Inr c'"
  shows "(po_Filename (fset_Position c p) = path \<longrightarrow>
       isIgnored c' p r \<longleftrightarrow>
         (\<exists>cm \<in> set (f_Comments f). r \<in> set (parseIgnore (snd cm))
            \<and> (po_Line (fset_Position c p) = comment_line c cm \<or> po_Line (fset_Position c p) = comment_line c cm + 1)))
    \<and> (\<exists>fs. findings c' = findings c @ fs \<and> (\<forall>x \<in> set fs. lawful c' x))"
proof -
  from checkFile_result [OF assms] obtain fc where fc: "fc_checker fc = c'\<lparr>findings := findings c\<rparr>"
      "findings c' = findings c @ run_rules (ge_uni env) fc"
      "ignores c' path = Some (collect_ignores c (f_Comments f))" "fset_Position c' = fset_Position c" by metis
  have "lawful c' x" if "x \<in> set (run_rules (ge_uni env) fc)" for x
    using run_rules_lawful [OF that] fc(1) by (simp add: lawful_def isIgnored_def Let_def)
  with fc show ?thesis by (auto simp: isIgnored_def Let_def collect_ignores_iff)
qed

definition all_lawful :: "pkgIndex \<Rightarrow> trace_state \<Rightarrow> bool" where
  "all_lawful idx s \<longleftrightarrow> (\<forall>f \<in> set (tr_findings s). lawful (idx_c idx) f)"

lemma lawful_checkKey: "all_lawful idx s \<Longrightarrow> all_lawful idx (checkKey idx k s)"
  by (auto simp: all_lawful_def checkKey_def split: option.split intro: reportAt_lawful [OF known_rules(12)])

lemma all_lawful_seen [simp]: "all_lawful idx (s\<lparr>seen := S\<rparr>) = all_lawful idx s"
  by (simp add: all_lawful_def)

lemma lawful_trace: "all_lawful idx s \<Longrightarrow> all_lawful idx (trace_calls idx cs s)"
proof (induction idx cs s rule: trace_calls.induct)
  case (3 idx e fi cs s)
  then show ?case by simp
qed (simp_all add: lawful_checkKey)

lemma checkErrorType_lawful: "f \<in> set (checkErrorType idx site k v fi) \<Longrightarrow> lawful (idx_c idx) f"
  by (auto simp: checkErrorType_def Let_def split: if_splits intro: reportAt_lawful [OF known_rules(11)])

lemma error_type_sets_lawful: "f \<in> set (error_type_sets idx fi n) \<Longrightarrow> lawful (idx_c idx) f"
  by (cases n)
    (auto simp: error_type_sets_def checkErrorTypeCall_def split: node.splits if_splits intro: checkErrorType_lawful)

lemma lawful_node: "all_lawful idx s \<Longrightarrow> all_lawful idx (telemetry_node idx fi n s)"
  unfolding telemetry_node_def fold_traceAttrs
  by (rule lawful_trace) (auto simp: all_lawful_def add_findings_def intro: error_type_sets_lawful)

lemma lawful_func: "all_lawful idx s \<Longrightarrow> all_lawful idx (telemetry_func idx fi s)"
proof -
  have "all_lawful idx s \<Longrightarrow> all_lawful idx (fold (telemetry_node idx fi) ns s)" for ns
    by (induction ns arbitrary: s) (simp_all add: lawful_node)
  then show "all_lawful idx s \<Longrightarrow> ?thesis" by (simp add: telemetry_func_def)
qed

lemma checkTelemetry_lawful: "f \<in> set (tr_findings (checkTelemetry c files)) \<Longrightarrow> lawful c f"
proof -
  have "all_lawful idx s \<Longrightarrow> all_lawful idx (fold (telemetry_func idx) fis s)" for idx fis s
    by (induction fis arbitrary: s) (simp_all add: lawful_func)
  from this [of "build_index c files" "\<lparr>seen = {}, reported = {}, tr_findings = []\<rparr>"]
  have "all_lawful (build_index c files) (checkTelemetry c files)"
    unfolding checkTelemetry_def Let_def by (simp add: all_lawful_def)
  then show "f \<in> set (tr_findings (checkTelemetry c files)) \<Longrightarrow> ?thesis"
    by (simp add: build_index_def Let_def all_lawful_def)
qed

text \<open>Every finding of a run names a documented rule.\<close>

definition documented :: "checker \<Rightarrow> bool" where
  "documented c \<longleftrightarrow> (\<forall>f \<in> set (findings c). map_of ruleDocs (fd_rule f) \<noteq> None)"

lemma checkFile_documented: "documented c \<Longrightarrow> checkFile env path c = Inr c' \<Longrightarrow> documented c'"
  by (auto simp: checkFile_def Let_def documented_def lawful_def split: sum.splits if_splits dest!: run_rules_lawful)

lemma walk_documented:
  "walk_entry env root path e c = Inr c' \<Longrightarrow> documented c \<Longrightarrow> documented c'"
  "walk_entries env root path es c = Inr c' \<Longrightarrow> documented c \<Longrightarrow> documented c'"
  by (induction env root path e c and env root path es c arbitrary: c' and c' rule: walk_entry_walk_entries.induct)
    (auto split: if_splits option.splits sum.splits intro: checkFile_documented)

lemma walk_all_documented: "walk_all env ps c = Inr c' \<Longrightarrow> documented c \<Longrightarrow> documented c'"
proof (induction ps arbitrary: c)
  case (Cons p ps)
  from Cons.prems obtain d where d: "walk env (trim_suffix p ''/...'') c = Inr d" "walk_all env ps d = Inr c'"
    by (auto split: sum.splits)
  from d(1) Cons.prems(2) have "documented d"
    by (auto simp: walk_def split: sum.splits if_splits intro: checkFile_documented walk_documented)
  with d(2) show ?case by (rule Cons.IH)
qed simp

lemma check_documented: "check env pos paths = Inr c \<Longrightarrow> documented c"
proof -
  assume *: "check env pos paths = Inr c"
  then obtain d where d: "walk_all env paths (empty_checker pos) = Inr d"
      "c = fold (\<lambda>d c. c\<lparr>findings := findings c @ tr_findings (checkTelemetry c (snd d))\<rparr>) (ge_order env (dirs d)) d"
    by (auto simp: check_def split: sum.splits)
  have "documented d" using walk_all_documented [OF d(1)] by (simp add: documented_def empty_checker_def)
  moreover have "documented c0 \<Longrightarrow>
      documented (fold (\<lambda>d c. c\<lparr>findings := findings c @ tr_findings (checkTelemetry c (snd d))\<rparr>) ds c0)" for ds c0
  proof (induction ds arbitrary: c0)
    case (Cons x ds)
    have "documented (c0\<lparr>findings := findings c0 @ tr_findings (checkTelemetry c0 (snd x))\<rparr>)"
      using Cons.prems checkTelemetry_lawful [of _ c0 "snd x"] by (auto simp: documented_def lawful_def)
    from Cons.IH [OF this] show ?case by simp
  qed simp
  ultimately show ?thesis by (simp add: d(2))
qed

text \<open>
  The command prints what the check found: each finding once, with the guide link of a documented
  rule, ordered by file and line; the exit status is 2 when a path cannot be read or parsed, and
  otherwise 1 exactly when something was found.
\<close>

theorem gs_main_contract:
  assumes "\<And>c. check env pos (if args = [] then [''.''] else args) = Inr c \<Longrightarrow>
      mset (ge_sort env (findings c)) = mset (findings c) \<and> sorted_wrt (\<lambda>a b. \<not> finding_less b a) (ge_sort env (findings c))"
  shows "case check env pos (if args = [] then [''.''] else args) of
      Inl e \<Rightarrow> out_exit (gs_main env pos args) = 2 \<and> out_stdout (gs_main env pos args) = []
    | Inr c \<Rightarrow>
        (\<exists>fs. out_stdout (gs_main env pos args) = map finding_line fs \<and> mset fs = mset (findings c)
           \<and> sorted_wrt (\<lambda>a b. \<not> finding_less b a) fs
           \<and> (\<forall>f \<in> set fs. map_of ruleDocs (fd_rule f) \<noteq> None))
        \<and> out_exit (gs_main env pos args) = (if findings c = [] then 0 else 1)"
proof (cases "check env pos (if args = [] then [''.''] else args)")
  case (Inr c)
  have "ge_sort env (findings c) = [] \<longleftrightarrow> findings c = []" "set (ge_sort env (findings c)) = set (findings c)"
    using assms [OF Inr] by (metis mset_zero_iff, metis mset_eq_setD)
  with Inr check_documented [OF Inr] assms [OF Inr] show ?thesis
    unfolding gs_main_def Let_def documented_def by auto
qed (simp add: gs_main_def Let_def)

subsection \<open>A sample run\<close>

text \<open>
  One file with the functions \<open>GetA\<close> on line 2, \<open>GetB\<close> on line 4, and a directive on line 1; the tree
  also has a directory \<open>vendor\<close> that cannot be read.
\<close>

definition sample_file :: go_file where
  "sample_file =
     \<lparr>f_Name = ''p'',
      f_Decls = [FuncDecl None (205, ''GetA'') [] [] None None, FuncDecl None (405, ''GetB'') [] [] None None],
      f_Comments = [(101, ''// gostyle:ignore getter-prefix mirrors GET'')], f_generated = False\<rparr>"

definition sample_position :: "token_pos \<Rightarrow> position" where
  "sample_position p = \<lparr>po_Filename = ''a.go'', po_Line = p div 100, po_Column = p mod 100\<rparr>"

definition sample_env :: gs_env where
  "sample_env =
     \<lparr>ge_ParseFile = (\<lambda>_ _. Inr sample_file),
      ge_Stat = (\<lambda>_. Inr True),
      ge_Lstat = (\<lambda>_. Inr (FsDir ''.'' None [FsFile ''a.go'', FsFile ''README.md'', FsDir ''vendor'' (Some (errors_New ''denied'')) []])),
      ge_order = (\<lambda>ds. ds), ge_sort = (\<lambda>fs. fs), ge_uni = (\<lambda>s. s)\<rparr>"

definition sample_finding :: finding where
  "sample_finding =
     \<lparr>fd_pos = sample_position 405, fd_rule = ''getter-prefix'',
      fd_msg = ''drop the Get prefix (GetB -> B) unless the concept is literally '' @ quote_text ''get''
        @ '' (e.g. HTTP GET); use Fetch/Compute/Load for slow or remote work''\<rparr>"

lemma sample_check:
  "(case check sample_env sample_position [''.''] of Inl e \<Rightarrow> None | Inr c \<Rightarrow> Some (findings c)) = Some [sample_finding]"
  by code_simp

theorem gs_main_contract_witness:
  "out_stdout (gs_main sample_env sample_position []) = [finding_line sample_finding]
   \<and> out_exit (gs_main sample_env sample_position []) = 1"
proof -
  obtain c where c: "check sample_env sample_position [''.''] = Inr c" "findings c = [sample_finding]"
    using sample_check by (auto split: sum.splits)
  have "case check sample_env sample_position (if [] = ([] :: string list) then [''.''] else []) of
      Inl e \<Rightarrow> out_exit (gs_main sample_env sample_position []) = 2 \<and> out_stdout (gs_main sample_env sample_position []) = []
    | Inr c \<Rightarrow>
        (\<exists>fs. out_stdout (gs_main sample_env sample_position []) = map finding_line fs \<and> mset fs = mset (findings c)
           \<and> sorted_wrt (\<lambda>a b. \<not> finding_less b a) fs \<and> (\<forall>f \<in> set fs. map_of ruleDocs (fd_rule f) \<noteq> None))
        \<and> out_exit (gs_main sample_env sample_position []) = (if findings c = [] then 0 else 1)"
    by (rule gs_main_contract) (simp add: c, simp add: c sample_env_def)
  with c show ?thesis by auto
qed

definition sample_checked :: "gerr + checker" where
  "sample_checked = checkFile sample_env ''a.go'' (empty_checker sample_position)"

theorem checkFile_suppression_witness:
  "\<exists>c'. sample_checked = Inr c' \<and> isIgnored c' 205 ''getter-prefix'' \<and> \<not> isIgnored c' 405 ''getter-prefix''"
proof -
  obtain c' where c': "sample_checked = Inr c'"
    by (auto simp: sample_checked_def checkFile_def sample_env_def sample_file_def Let_def)
  have parsed: "ge_ParseFile sample_env (fset_files (empty_checker sample_position)) ''a.go'' = Inr sample_file" "\<not> f_generated sample_file"
    by (simp_all add: sample_env_def sample_file_def)
  have lines: "comment_line (empty_checker sample_position) (101, t) = 1" for t
    by (simp add: comment_line_def empty_checker_def sample_position_def)
  have "parseIgnore ''// gostyle:ignore getter-prefix mirrors GET'' = [''getter-prefix'']" by code_simp
  with checkFile_suppression [OF parsed c' [unfolded sample_checked_def], of 205 "''getter-prefix''"]
    checkFile_suppression [OF parsed c' [unfolded sample_checked_def], of 405 "''getter-prefix''"] lines
  have "isIgnored c' 205 ''getter-prefix'' \<and> \<not> isIgnored c' 405 ''getter-prefix''"
    by (simp add: sample_file_def empty_checker_def sample_position_def)
  with c' show ?thesis by blast
qed

end
