(* ===== verification/Spec2Isabelle.thy ===== *)
theory Spec2Isabelle
  imports Go_Prelude Go_Errors Go_Net Errs Errgroup Identity Telemetry Lifecycle
    Wire_Subjects Wire_Conn Nats_Producer Nats_Consumer Nats_Trace Db_Scan Db_Bind Db_Client Cron Confloader
    Redis_Client S3_Client Rest_Semconv Rest_Client Rest_Server
    Obs_Attributes Obs_Logs Obs_Contracts Obs_Metrics Obs_Tracer Obs_Injection
    Gostyle_Ast Gostyle_Rules Gostyle_Search Gostyle_Trace Gostyle_Flow Gostyle
begin

text \<open>
  go-servicekit: the packages Go services of one organisation share. This development models them in Isabelle/HOL and proves the
  properties their callers rely on.

  \<^bold>\<open>The program.\<close> \<open>errs\<close> is the application error with a code, metadata and a cause; every package returns errors that callers match
  with \<open>errors.Is\<close>. \<open>errgroup\<close> runs tasks with a limit and turns panics into errors. \<open>identity\<close> resolves the name, version and environment of the service.
  \<open>observability\<close> converts attributes (\<open>attributes\<close>), writes log records (\<open>logs\<close>), records measurements (\<open>metrics\<close>) and builds tracer
  clients (\<open>tracer\<close>). \<open>nats/internal/wire\<close> fixes the subject layout and the stream configuration that \<open>nats/producer\<close> and
  \<open>nats/consumer\<close> agree on. \<open>db\<close> binds named SQL parameters and runs statements; \<open>redis\<close>, \<open>s3\<close>, \<open>rest/client\<close> and \<open>rest/server\<close> wrap
  third-party clients with configuration, retries, telemetry and error mapping. \<open>cron\<close> runs scheduled jobs under a toggle, an
  overlap guard and a lock. \<open>confloader\<close> reads typed configuration from etcd or Infisical through a cache refreshed by polling. All of
  them emit spans, metrics and log lines through \<open>observability\<close>. Beside the packages, \<open>gostyle\<close> under \<open>.agents/\<close> is the style linter of the repository.

  \<^bold>\<open>How it is modelled.\<close> Each function of the source is a HOL function with the name of the source, prefixed where several packages use one name
  (\<open>rd_\<close> redis, \<open>s3_\<close>, \<open>rc_\<close> REST client, \<open>sv_\<close> REST server, \<open>p_\<close> and \<open>c_\<close> NATS producer and consumer, \<open>db_\<close>, \<open>cl_\<close> confloader, \<open>eg_\<close>
  errgroup, \<open>lg_\<close>, \<open>mx_\<close>, \<open>tr_\<close> logs, metrics, tracer). Structs are records, enumerations datatypes, Go strings byte lists, maps partial functions
  or entry lists, errors values of a tree with the facets \<open>errors.Is\<close> and \<open>errors.As\<close> look at, and a function that may fail returns a sum.
  Durations and ints are \<^typ>\<open>int\<close> with \<open>int64_wrap\<close> written out where a sum can overflow; attribute integers are words of their width. State is
  passed explicitly; telemetry, calls of a library and writes are event lists. Where goroutines interleave, the atomic steps are an inductive relation and the
  theorems hold for every reachable state. Loops are total functions with a termination measure; no definition uses fuel.

  \<^bold>\<open>Theories and what they show.\<close>
  \<^item> \<open>Go_Prelude\<close>, \<open>Go_Errors\<close>, \<open>Go_Net\<close>: package \<open>strings\<close>, \<open>strconv\<close>, \<open>errors\<close>, \<open>net\<close> and \<open>net/url\<close> as far as the sources call them, with
    split/join, trim, quoting, decimal and host-port round trips.
  \<^item> \<open>Errs\<close> (\<open>errs/\<close>): constructors, matching, extraction, log value; metadata maps live in a store, and \<open>WithMeta\<close> refines the functional
    error (no aliasing is visible). \<open>Errgroup\<close> (\<open>errgroup/\<close>): limits, the panic-to-error wrapper, and that \<open>Wait\<close> reports the
    cause of a failure and never the cancellation it led to. \<open>Identity\<close> (\<open>identity/\<close>): resolution and when it is valid.
  \<^item> \<open>Telemetry\<close>: the event vocabulary. \<open>Lifecycle\<close>: the locale of register, start and shutdown, interpreted by producer and consumer.
  \<^item> \<open>Wire_Subjects\<close>, \<open>Wire_Conn\<close> (\<open>nats/internal/wire/\<close>): subject coverage is exactly inclusion of matched subjects; a patched stream accepts what
    it did and what the producer needs; connection options, redaction, error types.
  \<^item> \<open>Nats_Producer\<close>, \<open>Nats_Consumer\<close> (\<open>nats/producer/\<close>, \<open>nats/consumer/\<close>): all-or-nothing start, no panic of the pending counter under any
    interleaving, old runs only drain, stream set-up converges; a message is settled exactly once, delivery slots are bounded, the filter
    selects what was asked. \<open>Nats_Trace\<close>: the header carriers of both sides (locale \<open>text_map_carrier\<close>).
  \<^item> \<open>Db_Scan\<close>, \<open>Db_Bind\<close>, \<open>Db_Client\<close> (\<open>db/\<close>): the SQL scanner; protecting and restoring colons is a round trip and hides every literal colon; slice expansion
    keeps placeholders and arguments balanced; DSNs, pool settings, statement telemetry, transactions.
  \<^item> \<open>Cron\<close> (\<open>cron/\<close>): the middleware chain of a run, lock protocol, no overlapping runs, stop. \<open>Confloader\<close> (\<open>confloader/\<close>): tags, decoding, retried
    fetch and its termination, cache invariant, polling keeps the last good value, reads through a stale entry.
  \<^item> \<open>Redis_Client\<close> (\<open>redis/\<close>): exact validation, endpoint choice, pool counters that add up to the pool's state, bounded telemetry text. \<open>S3_Client\<close> (\<open>s3/\<close>):
    clients built from the configuration, error types from a fixed set, one span and one sample for each call.
  \<^item> \<open>Rest_Semconv\<close>, \<open>Rest_Client\<close>, \<open>Rest_Server\<close> (\<open>rest/\<close>): retry policy and exact backoff bounds, redaction of URLs, the \<open>http.RoundTripper\<close> contract; every
    request answered and accounted for, errors and panics become problem responses that reveal nothing, run and shutdown as a step relation.
  \<^item> \<open>Obs_Attributes\<close>, \<open>Obs_Logs\<close>, \<open>Obs_Contracts\<close>, \<open>Obs_Metrics\<close>, \<open>Obs_Tracer\<close> (\<open>observability/\<close>): normal keys are the fixed points of normalisation, the
    last map wins, integers keep their value; the handlers keep the contract of \<open>slog.Handler\<close> (locale \<open>slog_handler\<close>) and a call writes exactly the stated line; one
    instrument for each name and nothing after shutdown under every interleaving; construction leaks no exporter. The locales \<open>stop_once\<close> and \<open>default_client\<close> are
    interpreted by both the metrics and the tracer client. \<open>Obs_Injection\<close>: the telemetry options of every package and the client each call uses (locale \<open>injectable\<close>).
  \<^item> \<open>Gostyle_Ast\<close>, \<open>Gostyle_Rules\<close>, \<open>Gostyle_Search\<close>, \<open>Gostyle_Trace\<close>, \<open>Gostyle_Flow\<close>, \<open>Gostyle\<close> (\<open>.agents/skills/go-best-practices/scripts/gostyle.go\<close>): the syntax
    tree and the library it is read with; the rules of one file and exact suppression; the locales \<open>seen_search\<close> and \<open>owned_search\<close> of a search with a seen set, interpreted
    by both telemetry searches, which terminate and compute exactly the flow of values given by inductive rules; the walk, the output and the exit status.
  \<^item> This theory: the path from producer to consumer, the frozen registrations, the telemetry keys of all packages against the attribute conversion,
    and the default clients.

  \<^bold>\<open>Parameters.\<close> Third-party code is an argument: the NATS client, sqlx and the drivers, go-redis, the AWS SDK, Hertz, the OpenTelemetry SDK and
  propagator, the YAML decoder, the cron parser, lockers, togglers, handlers, \<open>golang.org/x/sync/errgroup\<close>, the Go parser and the file system of the linter; so are the clock, random jitter, the Unicode part of case mapping and float
  arithmetic. Hypotheses about them are stated in the theorems that need them and hold for the instances in the witnesses.

  \<^bold>\<open>Not modelled.\<close> Accessors that only return a field and methods that only pass a call on; stack capture and formatting by the runtime; the text and JSON encoding of a log line; the constructors of the etcd and Infisical clients, which
  only call those libraries; the fixtures of the style linter and of an agent evaluation under \<open>.agents/\<close>, inputs and no part of the SDK.
\<close>

section \<open>From producer to consumer\<close>

text \<open>
  C2: a published message arrives as it was sent, with its trace context. When JetStream delivers the message the
  producer built, with its subject, headers and data unchanged, and the trace propagator sets
  headers other than the two of the package, the consumer's handler sees the key, the tag (also the empty one)
  and the body the caller published, whatever bytes they hold, and the consumer's carrier reads every header the propagator set.
\<close>

theorem publish_consume_roundtrip:
  assumes "HeaderKey \<notin> fst ` set writes" and "HeaderTag \<notin> fst ` set writes" and "distinct (map fst writes)"
    and "raw_Subject raw = Subject (buildMsg msg)"
    and "raw_Headers raw = injectTraceContext writes (Some (Header (buildMsg msg)))"
    and "raw_Data raw = Data (buildMsg msg)" and "raw_Metadata raw = Inr (Some md)"
  shows "(\<exists>cm. newMessage raw (m_Topic msg) = Inr cm
      \<and> key cm = m_Key msg \<and> tag cm = m_Tag msg \<and> body cm = m_Body msg)
    \<and> (\<forall>(k, v) \<in> set writes. c_carrier_Get (Some (raw_Headers raw)) k = v)"
proof -
  have "Data (buildMsg msg) = m_Body msg" "Subject (buildMsg msg) = buildSubject (m_Topic msg) (m_Tag msg)"
    by (simp_all add: buildMsg_def Let_def)
  moreover have "cut_prefix (m_Topic msg) (m_Topic msg @ ''.'') = None"
    by (auto simp: cut_prefix_def dest: prefix_length_le)
  moreover have "header_Get (raw_Headers raw) HeaderKey = m_Key msg" "header_Get (raw_Headers raw) HeaderTag = m_Tag msg"
    using assms(1, 2, 5) by (simp_all add: injected_other)
  ultimately have "\<exists>cm. newMessage raw (m_Topic msg) = Inr cm \<and> key cm = m_Key msg \<and> tag cm = m_Tag msg \<and> body cm = m_Body msg"
    using assms(4, 6, 7) by (auto simp: newMessage_def buildSubject_def Let_def split: option.split)
  with assms(3, 5) injected_read show ?thesis by fastforce
qed

theorem publish_consume_roundtrip_witness:
  "(\<exists>cm. newMessage \<lparr>raw_Headers = injectTraceContext [(''traceparent'', ''00-1'')] (Some (Header (buildMsg \<lparr>m_Topic = ''orders'', m_Tag = ''eu'', m_Key = ''k'', m_Body = ''b''\<rparr>))),
        raw_Subject = ''orders.eu'', raw_Data = ''b'', raw_Metadata = Inr (Some \<lparr>md_Stream = 1, md_NumDelivered = 1, md_Timestamp = 0\<rparr>)\<rparr> ''orders'' = Inr cm
     \<and> key cm = ''k'' \<and> tag cm = ''eu'' \<and> body cm = ''b'')
   \<and> c_carrier_Get (Some (injectTraceContext [(''traceparent'', ''00-1'')] (Some (Header (buildMsg \<lparr>m_Topic = ''orders'', m_Tag = ''eu'', m_Key = ''k'', m_Body = ''b''\<rparr>))))) ''traceparent'' = ''00-1''"
  using publish_consume_roundtrip [where writes = "[(''traceparent'', ''00-1'')]"
      and msg = "\<lparr>m_Topic = ''orders'', m_Tag = ''eu'', m_Key = ''k'', m_Body = ''b''\<rparr>"
      and raw = "\<lparr>raw_Headers = injectTraceContext [(''traceparent'', ''00-1'')] (Some (Header (buildMsg \<lparr>m_Topic = ''orders'', m_Tag = ''eu'', m_Key = ''k'', m_Body = ''b''\<rparr>))),
        raw_Subject = ''orders.eu'', raw_Data = ''b'', raw_Metadata = Inr (Some \<lparr>md_Stream = 1, md_NumDelivered = 1, md_Timestamp = 0\<rparr>)\<rparr>"
      and md = "\<lparr>md_Stream = 1, md_NumDelivered = 1, md_Timestamp = 0\<rparr>"]
  by (simp add: buildMsg_def buildSubject_def Let_def HeaderKey_def HeaderTag_def)

text \<open>
  The two messaging clients are frozen while they run. From Start to the next Shutdown,
  no sequence of Register and Start calls changes a producer or a consumer, and no sequence
  of calls at all, shutdowns included, makes either forget a registration.
\<close>

theorem messaging_frozen:
  fixes p :: "'conn producer" and c :: "'cconn consumer"
  assumes "run p \<noteq> None" and "c_started c" and "\<forall>d. LcShutdown d \<notin> set cs" and "\<forall>d. LcShutdown d \<notin> set ds"
  shows "lc_run p_Register (\<lambda>env p. (fst (p_Start env p), fst (snd (p_Start env p)))) p_Shutdown cs p = p
    \<and> lc_run c_Register (\<lambda>env c. (fst (c_Start env c), fst (snd (c_Start env c))))
         (\<lambda>serr c. (fst (c_Shutdown serr c), fst (snd (c_Shutdown serr c)))) ds c = c
    \<and> dom (configs p) \<subseteq> dom (configs (lc_run p_Register
         (\<lambda>env p. (fst (p_Start env p), fst (snd (p_Start env p)))) p_Shutdown cs' p))"
  using producer_lifecycle.run_frozen consumer_lifecycle.run_frozen producer_lifecycle.run_keeps_registered assms
  by blast

theorem messaging_frozen_witness:
  "lc_run p_Register (\<lambda>env p. (fst (p_Start env p), fst (snd (p_Start env p)))) p_Shutdown
     [LcRegister orders_config, LcStart orders_env] (new_producer\<lparr>run := Some 0\<rparr>) = new_producer\<lparr>run := Some 0\<rparr>"
  using messaging_frozen [where p = "new_producer\<lparr>run := Some 0\<rparr>" and c = "one_registered\<lparr>c_started := True\<rparr>"
      and cs = "[LcRegister orders_config, LcStart orders_env]" and ds = "[]"]
  by simp

section \<open>Telemetry keys\<close>

text \<open>
  Every span attribute and metric attribute of the packages passes \<open>ConvertMapsToKVs\<close>, which normalises and filters keys.
  The keys the packages use are listed here; each is one the conversion keeps as it is.
\<close>

definition emitted_keys :: "string list" where
  "emitted_keys =
     [''cron.job.name'', ''cron.job.trigger'', ''error.type'', ''db.response.status_code'', ''server.port'', ''server.address'',
      ''db.namespace'', ''db.system.name'', ''db.operation.name'', ''db.query.text'', ''messaging.system'', ''messaging.operation.name'',
      ''messaging.operation.type'', ''messaging.destination.name'', ''messaging.consumer.group.name'', ''messaging.nats.message.tag'',
      ''messaging.nats.message.key'', ''messaging.nats.subject'', ''messaging.message.id'', ''messaging.message.body.size'',
      ''messaging.nats.message.delivery_count'', ''db.client.connection.state'', ''db.client.connection.pool.name'', ''rpc.system.name'',
      ''rpc.method'', ''aws.s3.bucket'', ''cloud.region'', ''http.request.method'', ''http.request.method_original'', ''url.path'', ''url.scheme'',
      ''http.route'', ''network.peer.address'', ''network.protocol.version'', ''user_agent.original'', ''http.response.status_code'',
      ''http.request.header.x-request-id'']"

definition key_alphabet :: string where "key_alphabet = ''abcdefghijklmnopqrstuvwxyz0123456789._-''"

text \<open>A check of a key that evaluates: bytes of a fixed alphabet, dots only inside and one at a time.\<close>

definition dotted_key :: "string \<Rightarrow> bool" where
  "dotted_key k \<longleftrightarrow> list_all (\<lambda>c. c \<in> set key_alphabet) k \<and> collapse_loop False k = k
     \<and> k \<noteq> [] \<and> hd k \<noteq> CHR ''.'' \<and> last k \<noteq> CHR ''.'' \<and> CHR ''.'' \<in> set k"

lemma key_alphabet_bytes: "list_all (\<lambda>c. ascii_lower c = c \<and> \<not> high_byte c \<and> key_byte c) key_alphabet"
  by code_simp

lemma dotted_key_kept:
  assumes "dotted_key k"
  shows "NormalizeKey uni k = k \<and> IsValidKey k"
proof -
  have c: "ascii_lower c = c" "\<not> high_byte c" "key_byte c" if "c \<in> set k" for c
    using that assms key_alphabet_bytes by (auto simp: dotted_key_def list_all_iff)
  have "\<not> contains k ''..''" using collapse_loop_dots [of False k] assms by (simp add: dotted_key_def)
  then have "normal_key k" using assms c unfolding normal_key_def lower_fixed_points dotted_key_def by blast
  moreover have "ascii_only k" using c by (auto simp: ascii_only_def)
  moreover have "IsValidKey k" using c assms by (auto simp: IsValidKey_def list_all_iff dotted_key_def)
  ultimately show ?thesis by (simp add: normal_key_fixed)
qed

lemma emitted_keys_kept: "k \<in> set emitted_keys \<Longrightarrow> NormalizeKey uni k = k \<and> IsValidKey k"
proof -
  have "list_all dotted_key emitted_keys" by code_simp
  then show "k \<in> set emitted_keys \<Longrightarrow> NormalizeKey uni k = k \<and> IsValidKey k" by (auto simp: list_all_iff dotted_key_kept)
qed

lemma kept_upd: "k \<in> set emitted_keys \<Longrightarrow> dom a \<subseteq> set emitted_keys \<Longrightarrow> dom (a(k \<mapsto> v)) \<subseteq> set emitted_keys"
  by auto

lemma kept_opt: "k \<in> set emitted_keys \<Longrightarrow> dom a \<subseteq> set emitted_keys \<Longrightarrow> dom (opt_attr b k v a) \<subseteq> set emitted_keys"
  by (simp add: opt_attr_def)

lemma kept_empty: "dom Map.empty \<subseteq> set emitted_keys"
  by simp

lemma kept_if: "dom a \<subseteq> set emitted_keys \<Longrightarrow> dom a' \<subseteq> set emitted_keys \<Longrightarrow> dom (if b then a else a') \<subseteq> set emitted_keys"
  by simp

lemma kept_option: "dom a \<subseteq> set emitted_keys \<Longrightarrow> (\<And>x. dom (f x) \<subseteq> set emitted_keys) \<Longrightarrow> dom (case y of None \<Rightarrow> a | Some x \<Rightarrow> f x) \<subseteq> set emitted_keys"
  by (cases y) simp_all

lemmas kept = kept_upd kept_opt kept_empty kept_if kept_option

lemma emitted_dom:
  "dom (cron_baseAttrs cm err) \<subseteq> set emitted_keys" "dom (db_attrs dm op code et) \<subseteq> set emitted_keys"
  "dom (p_baseAttrs pm) \<subseteq> set emitted_keys" "dom (p_messageAttrs msg subj) \<subseteq> set emitted_keys"
  "dom (c_baseAttrs cm') \<subseteq> set emitted_keys" "dom (c_messageAttrs msg') \<subseteq> set emitted_keys"
  "dom (rd_attrs rm op code et) \<subseteq> set emitted_keys" "dom (pp_attrs pp st) \<subseteq> set emitted_keys"
  "dom (s3_attrs sm op bucket) \<subseteq> set emitted_keys" "dom (active_attrs rc) \<subseteq> set emitted_keys"
  unfolding cron_baseAttrs_def db_attrs_def p_baseAttrs_def p_messageAttrs_def c_baseAttrs_def c_messageAttrs_def rd_attrs_def pp_attrs_def
    s3_attrs_def active_attrs_def Let_def
  by (intro kept; simp add: emitted_keys_def)+



section \<open>Default clients\<close>

text \<open>
  The package-level telemetry follows the OpenTelemetry globals. Whatever providers are installed between calls, each call of
  \<open>Default\<close>, of the metrics package and of the tracer package, returns a client of the provider installed at that time, and while one comparable
  provider stays installed every call returns the same client, so its instrument cache is kept.
\<close>

theorem default_clients_follow:
  assumes "cache_ok s"
  shows "map cr_provider (default_calls (mx_Default b) ps s) = ps \<and> map cr_provider (default_calls (tr_Default b) ps s) = ps
    \<and> default_calls (mx_Default True) (replicate (Suc n) p) s = replicate (Suc n) (fst (mx_Default True p s))
    \<and> default_calls (tr_Default True) (replicate (Suc n) p) s = replicate (Suc n) (fst (tr_Default True p s))"
  by (simp only: mx_default.calls_follow_provider [OF assms] tr_default.calls_follow_provider [OF assms]
      mx_default.calls_same_client tr_default.calls_same_client simp_thms)

theorem default_clients_follow_witness:
  "default_calls (mx_Default True) [7 :: nat, 7] \<lparr>ds_cached = None, ds_fresh = 0\<rparr> = [\<lparr>cr_id = 0, cr_provider = 7\<rparr>, \<lparr>cr_id = 0, cr_provider = 7\<rparr>]"
proof -
  have "cache_ok (\<lparr>ds_cached = None, ds_fresh = 0\<rparr> :: nat default_state)" by (simp add: cache_ok_def)
  from default_clients_follow [OF this, of True "[7]" 1 7] show ?thesis
    by (simp add: mx_Default_def wrap_client_def)
qed

end
